theory Spec2Isabelle
  imports Complex_Main "HOL-Library.AList" "HOL-Library.Sublist"
begin

section \<open>The physics world (physics/world.js)\<close>

text \<open>
  A JavaScript number is a binary64 value. A number is represented by a real, the literal
  \<open>0.98\<close> by \<open>98 / 100\<close>; \<open>+0\<close> and \<open>-0\<close>, which \<open>===\<close> does not tell
  apart, are both the real zero. The sum, the product and the quotient of two numbers
  round, so they are parameters, and what the code computes is stated with them: nothing
  below depends on how they round. Bodies and renderables are shared by reference, so
  they live in a heap and are named by their address.
\<close>

record Arith =
  num_add :: "real \<Rightarrow> real \<Rightarrow> real"
  num_mul :: "real \<Rightarrow> real \<Rightarrow> real"
  num_div :: "real \<Rightarrow> real \<Rightarrow> real"

text \<open>
  What binary64 arithmetic does without rounding: multiplying by one, dividing by one and
  adding zero.
\<close>

definition units_exact :: "Arith \<Rightarrow> bool" where
  "units_exact ar \<longleftrightarrow>
     (\<forall>x. num_mul ar 1 x = x \<and> num_mul ar x 1 = x \<and> num_div ar x 1 = x
          \<and> num_add ar 0 x = x \<and> num_add ar x 0 = x)"

datatype Vector2d = Vector2d (vec_x: real) (vec_y: real)

type_synonym body_ref = nat
type_synonym obj_ref = nat

record Body =
  ancestor :: obj_ref
  isStatic :: bool
  ignoreGravity :: bool
  gravityScale :: real
  mass :: real
  force :: Vector2d
  vel :: Vector2d

record Renderable =
  updateWhenPaused :: bool
  inViewport :: bool
  alwaysUpdate :: bool
  isDirty :: bool

record Heap =
  body_at :: "body_ref \<Rightarrow> Body"
  obj_at :: "obj_ref \<Rightarrow> Renderable"

subsection \<open>The built-in Set, as World.bodies uses it\<close>

text \<open>
  A JS \<open>Set\<close> keeps its elements in insertion order and without duplicates:
  \<open>add\<close> appends an element that is not yet present, \<open>delete\<close> removes it,
  \<open>clear\<close> empties the set, \<open>forEach\<close> visits the elements in insertion order.
\<close>

definition Set_add :: "'a \<Rightarrow> 'a list \<Rightarrow> 'a list" where
  "Set_add v xs = (if v \<in> set xs then xs else xs @ [v])"

definition Set_delete :: "'a \<Rightarrow> 'a list \<Rightarrow> 'a list" where
  "Set_delete v xs = removeAll v xs"

definition Set_clear :: "'a list \<Rightarrow> 'a list" where
  "Set_clear xs = []"

text \<open>
  The code that \<open>update\<close> calls while it walks over the set can reach the set, through
  \<open>addBody\<close>, \<open>removeBody\<close> or the property \<open>bodies\<close>: what it does to the set is a
  list of operations.
\<close>

datatype Set_op = Set_op_add body_ref | Set_op_delete body_ref | Set_op_clear

fun apply_Set_op :: "Set_op \<Rightarrow> body_ref list \<Rightarrow> body_ref list" where
  "apply_Set_op (Set_op_add b) xs = Set_add b xs"
| "apply_Set_op (Set_op_delete b) xs = Set_delete b xs"
| "apply_Set_op Set_op_clear xs = Set_clear xs"

definition apply_Set_ops :: "Set_op list \<Rightarrow> body_ref list \<Rightarrow> body_ref list" where
  "apply_Set_ops ops xs = foldl (\<lambda>ys op. apply_Set_op op ys) xs ops"

text \<open>
  \<open>forEach\<close> walks over the set as it is, not over a copy: an element that is added
  during the walk is visited, an element that is deleted before its turn is not, and an
  element that is deleted and added again comes last and is visited (again). The state
  of the walk is the elements still to visit, which an operation on the set changes
  together with the set.
\<close>

fun forEach_step :: "Set_op \<Rightarrow> body_ref list \<times> body_ref list \<Rightarrow> body_ref list \<times> body_ref list" where
  "forEach_step (Set_op_add b) (live, todo) =
     (if b \<in> set live then (live, todo) else (live @ [b], todo @ [b]))"
| "forEach_step (Set_op_delete b) (live, todo) = (removeAll b live, removeAll b todo)"
| "forEach_step Set_op_clear (live, todo) = ([], [])"

definition remaining :: "Set_op list \<Rightarrow> body_ref list \<Rightarrow> body_ref list \<Rightarrow> body_ref list" where
  "remaining ops live todo = snd (foldl (\<lambda>st op. forEach_step op st) (live, todo) ops)"

subsection \<open>Numbers that may be infinite, bounds and the quadtree\<close>

text \<open>
  The constructor's default width and height are \<open>Infinity\<close>, so the numbers of a
  region are reals extended with the non-finite values of a JS number.
\<close>

datatype Number = Finite real | Infinity | NegInfinity | NaN


record Bounds =
  bounds_x :: Number
  bounds_y :: Number
  bounds_width :: Number
  bounds_height :: Number


text \<open>
  Modelled from the spec: the QuadTree node (physics/quadtree.js is outside the files
  covered here). Section 3 gives a node a Bounds region, a capacity threshold
  \<open>maxChildren\<close>, a maximum depth \<open>maxDepth\<close> and the items inserted into it; the
  subdivision into quadrants plays no part in what the world does with the tree, so the
  items are kept as one list.
\<close>

record QuadTree =
  qt_bounds :: Bounds
  qt_maxChildren :: Number
  qt_maxDepth :: Number
  qt_items :: "obj_ref list"

text \<open>
  Modelled from the spec: \<open>QuadTree.clear(bounds?)\<close>, which section 4.2 describes as
  "resets to a single empty leaf covering bounds (or the previous region if omitted)".
\<close>

definition QuadTree_clear :: "Bounds option \<Rightarrow> QuadTree \<Rightarrow> QuadTree" where
  "QuadTree_clear bounds q =
     (case bounds of
        None \<Rightarrow> q\<lparr>qt_items := []\<rparr>
      | Some b \<Rightarrow> q\<lparr>qt_bounds := b, qt_items := []\<rparr>)"

datatype Error = Config_error | Invalid_event_type string | Region_undefined


subsection \<open>The world and the code it calls\<close>

text \<open>
  Every call that \<open>World.update\<close> makes, and every write it does itself, is recorded
  in the order in which it happens.
\<close>

datatype Call =
    Call_QuadTree_clear
  | Call_insertContainer
  | Call_bodyApplyGravity body_ref
  | Call_Body_update body_ref real
  | Write_isDirty obj_ref
  | Call_Detector_collisions obj_ref
  | Call_force_set_zero body_ref
  | Call_Container_update real

record World =
  gravity :: Vector2d
  bodies :: "body_ref list"
  broadphase :: QuadTree
  world_bounds :: Bounds
  heap :: Heap
  calls :: "Call list"

text \<open>
  The classes that \<open>World\<close> calls and that lie outside the files covered here are
  parameters: \<open>state.isPaused()\<close>, \<open>Body.update(dt)\<close> (which moves the body's owner
  and says whether anything changed), \<open>Detector.collisions(ancestor)\<close> (which reads
  the quadtree), \<open>QuadTree.insertContainer\<close>, and \<open>Container.update\<close> and
  \<open>Container.reset\<close> of the parent class. \<open>Body.update\<close>, \<open>Detector.collisions\<close>
  and \<open>Container.update\<close> run code of the game: they see the active set and the heap,
  may change any body or renderable, and may add bodies to the active set or remove them
  from it while \<open>update\<close> is running; each of them returns. \<open>Container.reset\<close> removes
  children and with them their bodies from the active set.
\<close>

record Collab =
  state_isPaused :: bool
  arith :: Arith
  Body_update :: "real \<Rightarrow> body_ref \<Rightarrow> body_ref list \<Rightarrow> Heap \<Rightarrow> bool \<times> Heap \<times> Set_op list"
  Detector_collisions :: "QuadTree \<Rightarrow> obj_ref \<Rightarrow> body_ref list \<Rightarrow> Heap \<Rightarrow> Heap \<times> Set_op list"
  QuadTree_insertContainer :: "Heap \<Rightarrow> QuadTree \<Rightarrow> QuadTree"
  Container_update :: "real \<Rightarrow> body_ref list \<Rightarrow> Heap \<Rightarrow> bool \<times> Heap \<times> Set_op list"
  Container_reset :: "body_ref list \<Rightarrow> Heap \<Rightarrow> body_ref list \<times> Heap"

text \<open>\<open>reset()\<close>, lines 103 to 116; the anchor point is not part of the model.\<close>

definition reset :: "Collab \<Rightarrow> World \<Rightarrow> World" where
  "reset env w =
     (let w1 = w\<lparr>broadphase := QuadTree_clear None (broadphase w)\<rparr>;
          (bs, h) = Container_reset env (bodies w1) (heap w1);
          w2 = w1\<lparr>bodies := bs, heap := h\<rparr>
      in w2\<lparr>bodies := Set_clear (bodies w2)\<rparr>)"

text \<open>The handler that the constructor subscribes to \<open>LEVEL_LOADED\<close>, lines 94 to 97.\<close>

definition on_LEVEL_LOADED :: "World \<Rightarrow> World" where
  "on_LEVEL_LOADED w = w\<lparr>broadphase := QuadTree_clear (Some (world_bounds w)) (broadphase w)\<rparr>"

text \<open>\<open>addBody(body)\<close> and \<open>removeBody(body)\<close>; both return the world itself.\<close>

definition addBody :: "body_ref \<Rightarrow> World \<Rightarrow> World" where
  "addBody body w = w\<lparr>bodies := Set_add body (bodies w)\<rparr>"

definition removeBody :: "body_ref \<Rightarrow> World \<Rightarrow> World" where
  "removeBody body w = w\<lparr>bodies := Set_delete body (bodies w)\<rparr>"

text \<open>\<open>bodyApplyGravity(body)\<close>, lines 147 to 156.\<close>

definition bodyApplyGravity :: "Arith \<Rightarrow> Vector2d \<Rightarrow> Body \<Rightarrow> Body" where
  "bodyApplyGravity ar g body =
     (if \<not> ignoreGravity body \<and> gravityScale body \<noteq> 0 then
        body\<lparr>force := Vector2d
          (num_add ar (vec_x (force body))
             (num_mul ar (num_mul ar (mass body) (vec_x g)) (gravityScale body)))
          (num_add ar (vec_y (force body))
             (num_mul ar (num_mul ar (mass body) (vec_y g)) (gravityScale body)))\<rparr>
      else body)"

definition set_body :: "body_ref \<Rightarrow> Body \<Rightarrow> Heap \<Rightarrow> Heap" where
  "set_body b v h = h\<lparr>body_at := (body_at h)(b := v)\<rparr>"

definition set_obj :: "obj_ref \<Rightarrow> Renderable \<Rightarrow> Heap \<Rightarrow> Heap" where
  "set_obj a v h = h\<lparr>obj_at := (obj_at h)(a := v)\<rparr>"

definition record_call :: "Call \<Rightarrow> World \<Rightarrow> World" where
  "record_call c w = w\<lparr>calls := calls w @ [c]\<rparr>"

text \<open>
  The function that \<open>update\<close> passes to \<open>bodies.forEach\<close>, lines 173 to 192. It gives
  the new state and what the code it called did to the active set.
\<close>

definition update_body ::
  "Collab \<Rightarrow> real \<Rightarrow> bool \<Rightarrow> body_ref \<Rightarrow> World \<Rightarrow> World \<times> Set_op list" where
  "update_body env dt isPaused b w =
     (if \<not> isStatic (body_at (heap w) b) then
        (let a = ancestor (body_at (heap w) b) in
         if \<not> (isPaused \<and> \<not> updateWhenPaused (obj_at (heap w) a)) \<and>
            (inViewport (obj_at (heap w) a) \<or> alwaysUpdate (obj_at (heap w) a)) then
           (let w1 = record_call (Call_bodyApplyGravity b)
                       (w\<lparr>heap := set_body b
                                    (bodyApplyGravity (arith env) (gravity w) (body_at (heap w) b))
                                    (heap w)\<rparr>);
                (changed, h2, ops2) = Body_update env dt b (bodies w1) (heap w1);
                w2 = record_call (Call_Body_update b dt)
                       (w1\<lparr>heap := h2, bodies := apply_Set_ops ops2 (bodies w1)\<rparr>);
                w3 = (if changed
                      then record_call (Write_isDirty a)
                             (w2\<lparr>heap := set_obj a ((obj_at (heap w2) a)\<lparr>isDirty := True\<rparr>) (heap w2)\<rparr>)
                      else w2);
                (h4, ops4) = Detector_collisions env (broadphase w3) a (bodies w3) (heap w3);
                w4 = record_call (Call_Detector_collisions a)
                       (w3\<lparr>heap := h4, bodies := apply_Set_ops ops4 (bodies w3)\<rparr>)
            in (record_call (Call_force_set_zero b)
                  (w4\<lparr>heap := set_body b ((body_at (heap w4) b)\<lparr>force := Vector2d 0 0\<rparr>) (heap w4)\<rparr>),
                ops2 @ ops4))
         else (w, []))
      else (w, []))"

text \<open>
  \<open>bodies.forEach\<close>, line 173, from the elements still to visit. The walk does not end
  if the code it calls keeps adding bodies; the first argument bounds the number of
  bodies visited, and the result is \<open>None\<close> when the walk has not ended within the
  bound.
\<close>

fun forEach_bodies ::
  "nat \<Rightarrow> Collab \<Rightarrow> real \<Rightarrow> bool \<Rightarrow> body_ref list \<Rightarrow> World \<Rightarrow> World option" where
  "forEach_bodies fuel env dt isPaused [] w = Some w"
| "forEach_bodies 0 env dt isPaused (b # todo) w = None"
| "forEach_bodies (Suc fuel) env dt isPaused (b # todo) w =
     forEach_bodies fuel env dt isPaused
       (remaining (snd (update_body env dt isPaused b w)) (bodies w) todo)
       (fst (update_body env dt isPaused b w))"

text \<open>
  \<open>update(dt)\<close>, lines 163 to 196: the result is the parent's dirty flag and the new
  state, or \<open>None\<close> when the walk over the bodies has not ended within the bound.
\<close>

definition update :: "nat \<Rightarrow> Collab \<Rightarrow> real \<Rightarrow> World \<Rightarrow> (bool \<times> World) option" where
  "update fuel env dt w =
     (let isPaused = state_isPaused env;
          w1 = record_call Call_QuadTree_clear
                 (w\<lparr>broadphase := QuadTree_clear None (broadphase w)\<rparr>);
          w2 = record_call Call_insertContainer
                 (w1\<lparr>broadphase := QuadTree_insertContainer env (heap w1) (broadphase w1)\<rparr>)
      in case forEach_bodies fuel env dt isPaused (bodies w2) w2 of
           None \<Rightarrow> None
         | Some w3 \<Rightarrow>
             (let (dirty, h, ops) = Container_update env dt (bodies w3) (heap w3)
              in Some (dirty,
                       record_call (Call_Container_update dt)
                         (w3\<lparr>heap := h, bodies := apply_Set_ops ops (bodies w3)\<rparr>))))"

subsection \<open>The constructor\<close>






subsection \<open>What a holder of the world object can do\<close>

text \<open>
  \<open>bodies\<close> is an ordinary property that the constructor assigns (line 76): reading
  \<open>world.bodies\<close> gives the Set object that the world itself uses, not a copy, so the
  methods of Set called on it act on the world's active set. A caller can therefore call
  the methods of the class, raise the level-loaded event, or call \<open>add\<close>,
  \<open>delete\<close> and \<open>clear\<close> on \<open>world.bodies\<close>. The result is \<open>None\<close> when
  \<open>update\<close> has not returned within the bound.
\<close>

datatype Caller_action =
    Do_addBody body_ref
  | Do_removeBody body_ref
  | Do_reset
  | Do_update real
  | Do_LEVEL_LOADED
  | Do_bodies_add body_ref
  | Do_bodies_delete body_ref
  | Do_bodies_clear

fun caller_step :: "nat \<Rightarrow> Collab \<Rightarrow> Caller_action \<Rightarrow> World \<Rightarrow> World option" where
  "caller_step fuel env (Do_addBody b) w = Some (addBody b w)"
| "caller_step fuel env (Do_removeBody b) w = Some (removeBody b w)"
| "caller_step fuel env Do_reset w = Some (reset env w)"
| "caller_step fuel env (Do_update dt) w = map_option snd (update fuel env dt w)"
| "caller_step fuel env Do_LEVEL_LOADED w = Some (on_LEVEL_LOADED w)"
| "caller_step fuel env (Do_bodies_add b) w = Some (w\<lparr>bodies := Set_add b (bodies w)\<rparr>)"
| "caller_step fuel env (Do_bodies_delete b) w = Some (w\<lparr>bodies := Set_delete b (bodies w)\<rparr>)"
| "caller_step fuel env Do_bodies_clear w = Some (w\<lparr>bodies := Set_clear (bodies w)\<rparr>)"

fun through_World_method :: "Caller_action \<Rightarrow> bool" where
  "through_World_method (Do_addBody b) = True"
| "through_World_method (Do_removeBody b) = True"
| "through_World_method Do_reset = True"
| "through_World_method a = False"

subsection \<open>One tick, in the words of the specification\<close>

text \<open>
  Section 4.5 orders a tick: clear the quadtree; insert the renderable tree; then for each
  body of the active set, skip it if it is static, skip it if the game is paused and its
  owner is not exempt or if the owner is neither in the viewport nor always updating, and
  otherwise apply gravity, integrate, mark the owner dirty on change, run the detector for
  the owner and zero the force. Each of the five steps is a function of its own, and
  \<open>tick\<close> is the tick made of them.
\<close>

definition skipped :: "bool \<Rightarrow> Heap \<Rightarrow> body_ref \<Rightarrow> bool" where
  "skipped isPaused h b \<longleftrightarrow>
     isStatic (body_at h b)
     \<or> (isPaused \<and> \<not> updateWhenPaused (obj_at h (ancestor (body_at h b))))
     \<or> (\<not> inViewport (obj_at h (ancestor (body_at h b))) \<and>
        \<not> alwaysUpdate (obj_at h (ancestor (body_at h b))))"

definition step_gravity :: "Collab \<Rightarrow> body_ref \<Rightarrow> World \<Rightarrow> World" where
  "step_gravity env b w =
     w\<lparr>heap := set_body b (bodyApplyGravity (arith env) (gravity w) (body_at (heap w) b)) (heap w),
       calls := calls w @ [Call_bodyApplyGravity b]\<rparr>"

definition step_integrate ::
  "Collab \<Rightarrow> real \<Rightarrow> body_ref \<Rightarrow> World \<Rightarrow> bool \<times> World \<times> Set_op list" where
  "step_integrate env dt b w =
     (case Body_update env dt b (bodies w) (heap w) of
        (changed, h, ops) \<Rightarrow>
          (changed,
           w\<lparr>heap := h, bodies := apply_Set_ops ops (bodies w),
             calls := calls w @ [Call_Body_update b dt]\<rparr>,
           ops))"

definition step_mark_dirty :: "obj_ref \<Rightarrow> World \<Rightarrow> World" where
  "step_mark_dirty owner w =
     w\<lparr>heap := set_obj owner ((obj_at (heap w) owner)\<lparr>isDirty := True\<rparr>) (heap w),
       calls := calls w @ [Write_isDirty owner]\<rparr>"

definition step_detect :: "Collab \<Rightarrow> obj_ref \<Rightarrow> World \<Rightarrow> World \<times> Set_op list" where
  "step_detect env owner w =
     (case Detector_collisions env (broadphase w) owner (bodies w) (heap w) of
        (h, ops) \<Rightarrow>
          (w\<lparr>heap := h, bodies := apply_Set_ops ops (bodies w),
             calls := calls w @ [Call_Detector_collisions owner]\<rparr>,
           ops))"

definition step_zero_force :: "body_ref \<Rightarrow> World \<Rightarrow> World" where
  "step_zero_force b w =
     w\<lparr>heap := set_body b ((body_at (heap w) b)\<lparr>force := Vector2d 0 0\<rparr>) (heap w),
       calls := calls w @ [Call_force_set_zero b]\<rparr>"

definition tick_body :: "Collab \<Rightarrow> real \<Rightarrow> body_ref \<Rightarrow> World \<Rightarrow> World \<times> Set_op list" where
  "tick_body env dt b w =
     (case step_integrate env dt b (step_gravity env b w) of
        (changed, w2, ops2) \<Rightarrow>
          (case step_detect env (ancestor (body_at (heap w) b))
                  (if changed then step_mark_dirty (ancestor (body_at (heap w) b)) w2 else w2) of
             (w4, ops4) \<Rightarrow> (step_zero_force b w4, ops2 @ ops4)))"

fun tick_bodies ::
  "nat \<Rightarrow> Collab \<Rightarrow> real \<Rightarrow> bool \<Rightarrow> body_ref list \<Rightarrow> World \<Rightarrow> World option" where
  "tick_bodies fuel env dt isPaused [] w = Some w"
| "tick_bodies 0 env dt isPaused (b # todo) w = None"
| "tick_bodies (Suc fuel) env dt isPaused (b # todo) w =
     (if skipped isPaused (heap w) b then tick_bodies fuel env dt isPaused todo w
      else tick_bodies fuel env dt isPaused
             (remaining (snd (tick_body env dt b w)) (bodies w) todo)
             (fst (tick_body env dt b w)))"

definition start_of_tick :: "Collab \<Rightarrow> World \<Rightarrow> World" where
  "start_of_tick env w =
     w\<lparr>broadphase := QuadTree_insertContainer env (heap w) (QuadTree_clear None (broadphase w)),
       calls := calls w @ [Call_QuadTree_clear, Call_insertContainer]\<rparr>"

definition end_of_tick :: "Collab \<Rightarrow> real \<Rightarrow> World \<Rightarrow> bool \<times> World" where
  "end_of_tick env dt w =
     (case Container_update env dt (bodies w) (heap w) of
        (dirty, h, ops) \<Rightarrow>
          (dirty,
           w\<lparr>heap := h, bodies := apply_Set_ops ops (bodies w),
             calls := calls w @ [Call_Container_update dt]\<rparr>))"

definition tick :: "nat \<Rightarrow> Collab \<Rightarrow> real \<Rightarrow> World \<Rightarrow> (bool \<times> World) option" where
  "tick fuel env dt w =
     map_option (end_of_tick env dt)
       (tick_bodies fuel env dt (state_isPaused env) (bodies w) (start_of_tick env w))"

text \<open>
  The bodies that the walk reaches, each with the state in which it is reached, and the
  calls that section 4.5 asks for at each of them.
\<close>

fun visits ::
  "nat \<Rightarrow> Collab \<Rightarrow> real \<Rightarrow> bool \<Rightarrow> body_ref list \<Rightarrow> World \<Rightarrow> (body_ref \<times> World) list" where
  "visits fuel env dt isPaused [] w = []"
| "visits 0 env dt isPaused (b # todo) w = []"
| "visits (Suc fuel) env dt isPaused (b # todo) w =
     (b, w) # visits fuel env dt isPaused
                (remaining (snd (update_body env dt isPaused b w)) (bodies w) todo)
                (fst (update_body env dt isPaused b w))"

definition body_calls :: "Collab \<Rightarrow> real \<Rightarrow> body_ref \<Rightarrow> World \<Rightarrow> Call list" where
  "body_calls env dt b w =
     [Call_bodyApplyGravity b, Call_Body_update b dt]
     @ (if fst (Body_update env dt b (bodies w)
                 (set_body b (bodyApplyGravity (arith env) (gravity w) (body_at (heap w) b))
                    (heap w)))
        then [Write_isDirty (ancestor (body_at (heap w) b))] else [])
     @ [Call_Detector_collisions (ancestor (body_at (heap w) b)), Call_force_set_zero b]"

fun tick_calls :: "Collab \<Rightarrow> real \<Rightarrow> bool \<Rightarrow> (body_ref \<times> World) list \<Rightarrow> Call list" where
  "tick_calls env dt isPaused [] = []"
| "tick_calls env dt isPaused ((b, w) # vs) =
     (if skipped isPaused (heap w) b then [] else body_calls env dt b w)
     @ tick_calls env dt isPaused vs"

definition calls_of_tick :: "nat \<Rightarrow> Collab \<Rightarrow> real \<Rightarrow> World \<Rightarrow> Call list" where
  "calls_of_tick fuel env dt w =
     (case update fuel env dt w of
        None \<Rightarrow> []
      | Some r \<Rightarrow> drop (length (calls w)) (calls (snd r)))"

text \<open>
  What the code that a tick calls does to the active set, in order: at each body that the
  walk reaches, and in the parent's \<open>update\<close>.
\<close>

definition called_Set_ops :: "nat \<Rightarrow> Collab \<Rightarrow> real \<Rightarrow> World \<Rightarrow> Set_op list" where
  "called_Set_ops fuel env dt w =
     (case forEach_bodies fuel env dt (state_isPaused env) (bodies w) (start_of_tick env w) of
        None \<Rightarrow> []
      | Some w3 \<Rightarrow>
          concat (map (\<lambda>(b, s). snd (update_body env dt (state_isPaused env) b s))
                    (visits fuel env dt (state_isPaused env) (bodies w) (start_of_tick env w)))
          @ snd (snd (Container_update env dt (bodies w3) (heap w3))))"

text \<open>The code that the walk calls adds no body to the active set.\<close>

fun is_add :: "Set_op \<Rightarrow> bool" where
  "is_add (Set_op_add b) = True"
| "is_add op = False"

definition adds_no_body :: "Collab \<Rightarrow> bool" where
  "adds_no_body env \<longleftrightarrow>
     (\<forall>dt b bs h. \<forall>op\<in>set (snd (snd (Body_update env dt b bs h))). \<not> is_add op)
     \<and> (\<forall>q a bs h. \<forall>op\<in>set (snd (Detector_collisions env q a bs h)). \<not> is_add op)"

text \<open>The code that the walk calls leaves the active set alone.\<close>

definition leaves_set_alone :: "Collab \<Rightarrow> bool" where
  "leaves_set_alone env \<longleftrightarrow>
     (\<forall>dt b bs h. snd (snd (Body_update env dt b bs h)) = [])
     \<and> (\<forall>q a bs h. snd (Detector_collisions env q a bs h) = [])"

text \<open>
  Modelled from the spec: \<open>Body.update(dt)\<close> (physics/body.js is outside the files covered
  here), of which section 4.3 says that it "applies accumulated force and mass to
  update velocity and position via simple explicit (semi-implicit Euler) integration".
  Only the velocity is modelled; the position belongs to the owner.
\<close>

definition Body_integrate :: "Arith \<Rightarrow> real \<Rightarrow> Body \<Rightarrow> Body" where
  "Body_integrate ar dt body =
     body\<lparr>vel := Vector2d
       (num_add ar (vec_x (vel body)) (num_mul ar (num_div ar (vec_x (force body)) (mass body)) dt))
       (num_add ar (vec_y (vel body)) (num_mul ar (num_div ar (vec_y (force body)) (mass body)) dt))\<rparr>"

subsection \<open>A small world to run the definitions on\<close>

text \<open>
  Body 0 is dynamic, moves to the right and belongs to renderable 10; every other body is
  static and belongs to renderable 11; all renderables are in the viewport. The
  arithmetic is exact. The collaborators are as plain as can be: the integrator is the
  one above, the detector changes nothing, the constructors other than that of the
  quadtree check nothing, and a limit is valid if it is positive. In the second set of
  collaborators the detector adds body 2 to the active set when it runs for renderable 10.
\<close>

definition demo_arith :: Arith where
  "demo_arith = \<lparr>num_add = (+), num_mul = (*), num_div = (/)\<rparr>"

definition demo_body :: "obj_ref \<Rightarrow> bool \<Rightarrow> Body" where
  "demo_body a static =
     \<lparr>ancestor = a, isStatic = static, ignoreGravity = False, gravityScale = 1, mass = 1,
      force = Vector2d 0 0, vel = (if static then Vector2d 0 0 else Vector2d 5 0)\<rparr>"

definition demo_heap :: Heap where
  "demo_heap =
     \<lparr>body_at = (\<lambda>b. if b = 0 then demo_body 10 False else demo_body 11 True),
      obj_at = (\<lambda>a. \<lparr>updateWhenPaused = False, inViewport = True, alwaysUpdate = False,
                      isDirty = False\<rparr>)\<rparr>"

definition demo_collab :: Collab where
  "demo_collab =
     \<lparr>state_isPaused = False,
      arith = demo_arith,
      Body_update = (\<lambda>dt b bs h.
        (vel (Body_integrate demo_arith dt (body_at h b)) \<noteq> Vector2d 0 0,
         set_body b (Body_integrate demo_arith dt (body_at h b)) h, [])),
      Detector_collisions = (\<lambda>q a bs h. (h, [])),
      QuadTree_insertContainer = (\<lambda>h q. q\<lparr>qt_items := [10, 11]\<rparr>),
      Container_update = (\<lambda>dt bs h. (True, h, [])),
      Container_reset = (\<lambda>bs h. ([], h))\<rparr>"

definition demo_spawner :: Collab where
  "demo_spawner =
     demo_collab\<lparr>Detector_collisions :=
       (\<lambda>q a bs h. (h, if a = 10 then [Set_op_add 2] else []))\<rparr>"



definition demo_bounds :: "Number \<Rightarrow> Number \<Rightarrow> Bounds" where
  "demo_bounds width height =
     \<lparr>bounds_x = Finite 0, bounds_y = Finite 0, bounds_width = width, bounds_height = height\<rparr>"

definition demo_world :: "Number \<Rightarrow> Number \<Rightarrow> body_ref list \<Rightarrow> World" where
  "demo_world width height bs =
     \<lparr>gravity = Vector2d 0 (98 / 100), bodies = bs,
      broadphase = \<lparr>qt_bounds = demo_bounds width height, qt_maxChildren = Finite 8,
                    qt_maxDepth = Finite 4, qt_items = []\<rparr>,
      world_bounds = demo_bounds width height, heap = demo_heap, calls = []\<rparr>"

section \<open>Pointer events (input/pointerevent.js)\<close>

type_synonym region_ref = nat
type_synonym callback_ref = nat

text \<open>
  A pointer id is a number, \<open>null\<close> (a handler that no pointer has entered) or
  \<open>undefined\<close> (a pointer that no event has initialised); \<open>===\<close> is equality.
\<close>

datatype PointerId = Id_null | Id_undefined | Id nat

text \<open>
  The fields of \<open>Pointer\<close> that \<open>dispatchEvent\<close> reads or writes. \<open>ptr_type\<close>,
  \<open>ptr_pointerId\<close>, \<open>ptr_width\<close> and \<open>ptr_height\<close> are the fields \<open>type\<close>,
  \<open>pointerId\<close>, \<open>width\<close> and \<open>height\<close>; \<open>timeStamp\<close> is \<open>event.timeStamp\<close>.
  A field that is \<open>undefined\<close> is \<open>None\<close>. \<open>Pointer.setEvent\<close> sets
  \<open>isNormalized\<close> when the browser has the class \<open>PointerEvent\<close> and the event is
  not an instance of it (line 1143).
\<close>

record Pointer =
  ptr_type :: "string option"
  isNormalized :: bool
  timeStamp :: "real option"
  ptr_pointerId :: PointerId
  gameScreenX :: real
  gameScreenY :: real
  gameWorldX :: real
  gameWorldY :: real
  gameX :: real
  gameY :: real
  gameLocalX :: real
  gameLocalY :: real
  ptr_width :: real
  ptr_height :: real

definition new_Pointer :: Pointer where
  "new_Pointer =
     \<lparr>ptr_type = None, isNormalized = False, timeStamp = None, ptr_pointerId = Id_undefined,
      gameScreenX = 0, gameScreenY = 0, gameWorldX = 0, gameWorldY = 0, gameX = 0, gameY = 0,
      gameLocalX = 0, gameLocalY = 0, ptr_width = 1, ptr_height = 1\<rparr>"

datatype Rect = Rect real real real real

text \<open>
  The entry of \<open>eventHandlers\<close> for a region. \<open>callbacks\<close> is an object whose keys
  are event types; it is a list of pairs so that \<open>Object.keys(callbacks).length === 0\<close>
  is a test on the list.
\<close>

record Handlers =
  region :: region_ref
  callbacks :: "(string \<times> callback_ref list) list"
  pointerId :: PointerId

text \<open>What the dispatch does that is seen from outside, in order.\<close>

datatype Emitted =
    Emit_POINTERMOVE Pointer
  | Callback_invoked region_ref callback_ref Pointer

record Input =
  T_POINTERS :: "Pointer list"
  eventHandlers :: "region_ref \<rightharpoonup> Handlers"
  currentPointer :: "Rect option"
  pointerInitialized :: bool
  lastTimeStamp :: real
  activeEventList :: "string list"
  emitted :: "Emitted list"

definition initial_Input :: Input where
  "initial_Input =
     \<lparr>T_POINTERS = [], eventHandlers = Map.empty, currentPointer = None,
      pointerInitialized = False, lastTimeStamp = 0, activeEventList = [], emitted = []\<rparr>"

definition WHEEL :: "string list" where
  "WHEEL = [''wheel'']"

definition POINTER_MOVE :: "string list" where
  "POINTER_MOVE = [''pointermove'', ''mousemove'', ''touchmove'']"

definition POINTER_DOWN :: "string list" where
  "POINTER_DOWN = [''pointerdown'', ''mousedown'', ''touchstart'']"

definition POINTER_UP :: "string list" where
  "POINTER_UP = [''pointerup'', ''mouseup'', ''touchend'']"

definition POINTER_CANCEL :: "string list" where
  "POINTER_CANCEL = [''pointercancel'', ''mousecancel'', ''touchcancel'']"

definition POINTER_ENTER :: "string list" where
  "POINTER_ENTER = [''pointerenter'', ''mouseenter'', ''touchenter'']"

definition POINTER_OVER :: "string list" where
  "POINTER_OVER = [''pointerover'', ''mouseover'', ''touchover'']"

definition POINTER_LEAVE :: "string list" where
  "POINTER_LEAVE = [''pointerleave'', ''mouseleave'', ''touchleave'']"

definition pointerEventList :: "string list" where
  "pointerEventList =
     [''wheel'', ''pointermove'', ''pointerdown'', ''pointerup'', ''pointercancel'',
      ''pointerenter'', ''pointerover'', ''pointerleave'']"

definition mouseEventList :: "string list" where
  "mouseEventList =
     [''wheel'', ''mousemove'', ''mousedown'', ''mouseup'', ''mousecancel'',
      ''mouseenter'', ''mouseover'', ''mouseleave'']"

definition touchEventList :: "string list" where
  "touchEventList =
     [''touchmove'', ''touchstart'', ''touchend'', ''touchcancel'',
      ''touchenter'', ''touchover'', ''touchleave'']"

definition pointerEventMap :: "string \<Rightarrow> string list option" where
  "pointerEventMap =
     map_of [(''wheel'', WHEEL), (''pointermove'', POINTER_MOVE), (''pointerdown'', POINTER_DOWN),
             (''pointerup'', POINTER_UP), (''pointercancel'', POINTER_CANCEL),
             (''pointerenter'', POINTER_ENTER), (''pointerover'', POINTER_OVER),
             (''pointerleave'', POINTER_LEAVE)]"

text \<open>
  What the module imports and what it reads from the objects it is given: the flags of
  the device, \<open>game.world.broadphase.retrieve\<close> with the comparator it is passed,
  \<open>game.viewport\<close>, the flags \<open>isKinematic\<close> and \<open>isFloating\<close> of a region, the
  position of the bounds of its ancestor (if it has one), the test
  \<open>region.getBounds().contains(x, y)\<close>, whether a callback answers \<open>false\<close> to a
  pointer, and \<open>remove\<close> of utils/array.js. A callback is taken to return and to leave
  the table of handlers as it is.
\<close>

datatype Comparator = World_sortReverseZ

record Input_env =
  device_pointerEvent :: bool
  device_touch :: bool
  device_maxTouchPoints :: nat
  broadphase_retrieve :: "Rect \<Rightarrow> Comparator \<Rightarrow> region_ref list"
  game_viewport :: region_ref
  region_isKinematic :: "region_ref \<Rightarrow> bool"
  region_isFloating :: "region_ref \<Rightarrow> bool"
  region_ancestor_pos :: "region_ref \<Rightarrow> (real \<times> real) option"
  region_contains :: "region_ref \<Rightarrow> real \<Rightarrow> real \<Rightarrow> bool"
  callback_returns_false :: "callback_ref \<Rightarrow> Pointer \<Rightarrow> bool"
  array_remove :: "callback_ref list \<Rightarrow> callback_ref \<Rightarrow> callback_ref list"

text \<open>
  \<open>enablePointerEvent()\<close>, lines 121 to 213, without the listeners it adds to the
  DOM and without the throttling interval.
\<close>

definition enablePointerEvent :: "Input_env \<Rightarrow> Input \<Rightarrow> Input" where
  "enablePointerEvent env s =
     (if \<not> pointerInitialized s then
        s\<lparr>currentPointer := Some (Rect 0 0 1 1),
          T_POINTERS := T_POINTERS s @ replicate (device_maxTouchPoints env) new_Pointer,
          activeEventList :=
            (let l = (if device_pointerEvent env then pointerEventList else mouseEventList)
             in if device_touch env \<and> \<not> device_pointerEvent env then l @ touchEventList else l),
          pointerInitialized := True\<rparr>
      else s)"

definition findActiveEvent :: "string list \<Rightarrow> string list \<Rightarrow> string option" where
  "findActiveEvent active eventTypes = find (\<lambda>t. t \<in> set active) eventTypes"

definition findAllActiveEvents :: "string list \<Rightarrow> string list \<Rightarrow> string list" where
  "findAllActiveEvents active eventTypes = filter (\<lambda>t. t \<in> set active) eventTypes"

text \<open>
  The loop of \<open>triggerEvent\<close>, line 249, over the callbacks in the order in which it
  reaches them: it stops at the first callback that answers \<open>false\<close>.
\<close>

fun invoke_callbacks ::
  "Input_env \<Rightarrow> region_ref \<Rightarrow> Pointer \<Rightarrow> callback_ref list \<Rightarrow> Emitted list \<Rightarrow> bool \<times> Emitted list" where
  "invoke_callbacks env r pointer [] out = (False, out)"
| "invoke_callbacks env r pointer (c # cs) out =
     (if callback_returns_false env c pointer
      then (True, out @ [Callback_invoked r c pointer])
      else invoke_callbacks env r pointer cs (out @ [Callback_invoked r c pointer]))"

text \<open>A property key that is \<open>undefined\<close> is the string "undefined".\<close>

definition property_key :: "string option \<Rightarrow> string" where
  "property_key t = (case t of None \<Rightarrow> ''undefined'' | Some k \<Rightarrow> k)"

text \<open>\<open>triggerEvent(handlers, type, pointer, pointerId)\<close>, lines 245 to 257.\<close>

definition triggerEvent ::
  "Input_env \<Rightarrow> Handlers \<Rightarrow> string option \<Rightarrow> Pointer \<Rightarrow> PointerId \<Rightarrow> Emitted list
     \<Rightarrow> bool \<times> Handlers \<times> Emitted list" where
  "triggerEvent env handlers type pointer pid out =
     (case map_of (callbacks handlers) (property_key type) of
        None \<Rightarrow> (False, handlers, out)
      | Some cbs \<Rightarrow>
          (let (stopped, out') = invoke_callbacks env (region handlers) pointer (rev cbs) out
           in (stopped, handlers\<lparr>pointerId := pid\<rparr>, out')))"

text \<open>
  The \<open>switch\<close> of lines 327 to 392 for one candidate: the result is the new value of
  \<open>handled\<close>, the handlers and what was emitted. \<open>POINTER_MOVE[3]\<close>,
  \<open>POINTER_UP[3]\<close> and \<open>POINTER_CANCEL[3]\<close> are \<open>undefined\<close>, so a type that is
  \<open>undefined\<close> takes the first of these cases.
\<close>

definition switch_type ::
  "Input_env \<Rightarrow> string list \<Rightarrow> bool \<Rightarrow> Handlers \<Rightarrow> Pointer \<Rightarrow> bool \<Rightarrow> Emitted list
     \<Rightarrow> bool \<times> Handlers \<times> Emitted list" where
  "switch_type env active handled handlers pointer eventInBounds out =
     (if ptr_type pointer = None \<or> the (ptr_type pointer) \<in> set POINTER_MOVE then
        (let (stopped, h1, out1) =
               (if pointerId handlers = ptr_pointerId pointer \<and> \<not> eventInBounds then
                  triggerEvent env handlers (findActiveEvent active POINTER_LEAVE) pointer Id_null out
                else if pointerId handlers = Id_null \<and> eventInBounds then
                  triggerEvent env handlers (findActiveEvent active POINTER_ENTER) pointer
                    (ptr_pointerId pointer) out
                else (False, handlers, out))
         in if stopped then (True, h1, out1)
            else if eventInBounds then
              (let (stopped2, h2, out2) =
                     triggerEvent env h1 (ptr_type pointer) pointer (ptr_pointerId pointer) out1
               in (handled \<or> stopped2, h2, out2))
            else (handled, h1, out1))
      else if the (ptr_type pointer) \<in> set POINTER_UP then
        (if pointerId handlers = ptr_pointerId pointer \<and> eventInBounds then
           (let (stopped, h1, out1) = triggerEvent env handlers (ptr_type pointer) pointer Id_null out
            in (handled \<or> stopped, h1, out1))
         else (handled, handlers, out))
      else if the (ptr_type pointer) \<in> set POINTER_CANCEL then
        (if pointerId handlers = ptr_pointerId pointer then
           (let (stopped, h1, out1) = triggerEvent env handlers (ptr_type pointer) pointer Id_null out
            in (handled \<or> stopped, h1, out1))
         else (handled, handlers, out))
      else
        (if eventInBounds then
           (let (stopped, h1, out1) =
                  triggerEvent env handlers (ptr_type pointer) pointer (ptr_pointerId pointer) out
            in (handled \<or> stopped, h1, out1))
         else (handled, handlers, out)))"

text \<open>
  The coordinates that lines 309 to 323 give the pointer for a region: those of the
  screen for a floating region, those of the world otherwise, and local ones relative to
  the bounds of the ancestor.
\<close>

definition pointer_for_region :: "Input_env \<Rightarrow> region_ref \<Rightarrow> Pointer \<Rightarrow> Pointer" where
  "pointer_for_region env r pointer =
     (let p1 = (if region_isFloating env r
                then pointer\<lparr>gameX := gameScreenX pointer, gameLocalX := gameScreenX pointer,
                             gameY := gameScreenY pointer, gameLocalY := gameScreenY pointer\<rparr>
                else pointer\<lparr>gameX := gameWorldX pointer, gameLocalX := gameWorldX pointer,
                             gameY := gameWorldY pointer, gameLocalY := gameWorldY pointer\<rparr>)
      in case region_ancestor_pos env r of
           None \<Rightarrow> p1
         | Some (px, py) \<Rightarrow> p1\<lparr>gameLocalX := gameX p1 - px, gameLocalY := gameY p1 - py\<rparr>)"

text \<open>The body of the loop over the candidates, lines 302 to 393.\<close>

definition dispatch_candidate ::
  "Input_env \<Rightarrow> region_ref \<Rightarrow> bool \<times> Pointer \<times> Input \<Rightarrow> bool \<times> Pointer \<times> Input" where
  "dispatch_candidate env candidate st =
     (case st of (handled, pointer, s) \<Rightarrow>
        (case eventHandlers s candidate of
           None \<Rightarrow> st
         | Some handlers \<Rightarrow>
             if region_isKinematic env candidate then st
             else
               (let p = pointer_for_region env (region handlers) pointer;
                    eventInBounds = region_contains env (region handlers) (gameX p) (gameY p);
                    (handled', h', out') =
                       switch_type env (activeEventList s) handled handlers p eventInBounds (emitted s)
                in (handled', p,
                    s\<lparr>eventHandlers := (eventHandlers s)(candidate \<mapsto> h'), emitted := out'\<rparr>))))"

text \<open>
  The loop of line 301 takes the candidates from the last to the first, and stops after a
  candidate when \<open>handled\<close> is true (line 394). It is given the candidates in the order
  in which it takes them.
\<close>

fun dispatch_candidates ::
  "Input_env \<Rightarrow> region_ref list \<Rightarrow> bool \<times> Pointer \<times> Input \<Rightarrow> bool \<times> Pointer \<times> Input" where
  "dispatch_candidates env [] st = st"
| "dispatch_candidates env (c # cs) st =
     (let st' = dispatch_candidate env c st
      in if fst st' then st' else dispatch_candidates env cs st')"

definition candidates_of :: "Input_env \<Rightarrow> Pointer \<Rightarrow> region_ref list" where
  "candidates_of env pointer =
     broadphase_retrieve env
       (Rect (gameWorldX pointer) (gameWorldY pointer) (ptr_width pointer) (ptr_height pointer))
       World_sortReverseZ
     @ [game_viewport env]"

text \<open>
  The body of the \<open>while\<close> loop of \<open>dispatchEvent\<close>, lines 268 to 398, for the pointer
  it has popped. The pointer goes back into the pool as the loop leaves it.
\<close>

definition stale :: "Pointer \<Rightarrow> Input \<Rightarrow> bool" where
  "stale pointer s \<longleftrightarrow>
     isNormalized pointer \<and> timeStamp pointer \<noteq> None \<and> the (timeStamp pointer) < lastTimeStamp s"

definition dispatch_pointer :: "Input_env \<Rightarrow> Pointer \<Rightarrow> bool \<times> Input \<Rightarrow> bool \<times> Input" where
  "dispatch_pointer env pointer st =
     (case st of (handled, s) \<Rightarrow>
        if isNormalized pointer \<and> timeStamp pointer \<noteq> None
           \<and> the (timeStamp pointer) < lastTimeStamp s
        then (handled, s\<lparr>T_POINTERS := T_POINTERS s @ [pointer]\<rparr>)
        else
          (let s1 = (if isNormalized pointer \<and> timeStamp pointer \<noteq> None
                     then s\<lparr>lastTimeStamp := the (timeStamp pointer)\<rparr> else s);
               s2 = s1\<lparr>currentPointer :=
                      Some (Rect (gameWorldX pointer) (gameWorldY pointer)
                              (ptr_width pointer) (ptr_height pointer))\<rparr>;
               (p3, s3) =
                  (if ptr_type pointer \<noteq> None \<and> the (ptr_type pointer) \<in> set POINTER_MOVE then
                     (let p = pointer\<lparr>gameX := gameScreenX pointer, gameLocalX := gameScreenX pointer,
                                      gameY := gameScreenY pointer, gameLocalY := gameScreenY pointer\<rparr>
                      in (p, s2\<lparr>emitted := emitted s2 @ [Emit_POINTERMOVE p]\<rparr>))
                   else (pointer, s2));
               (handled', p4, s4) =
                  dispatch_candidates env (rev (candidates_of env p3)) (handled, p3, s3)
           in (handled', s4\<lparr>T_POINTERS := T_POINTERS s4 @ [p4]\<rparr>)))"

text \<open>
  \<open>dispatchEvent(normalizedEvents)\<close>, lines 263 to 401: the events are popped from the
  end of the array, which is empty when the function returns \<open>handled\<close>.
\<close>

definition dispatchEvent :: "Input_env \<Rightarrow> Pointer list \<Rightarrow> Input \<Rightarrow> bool \<times> Input" where
  "dispatchEvent env normalizedEvents s =
     foldl (\<lambda>st pointer. dispatch_pointer env pointer st) (False, s) (rev normalizedEvents)"

text \<open>
  \<open>registerPointerEvent(eventType, region, callback)\<close>, lines 666 to 699. A region that
  is \<open>undefined\<close> is \<open>None\<close>. What is thrown comes with the state, which
  \<open>enablePointerEvent\<close> has already changed.
\<close>

definition add_callback :: "callback_ref \<Rightarrow> Handlers \<Rightarrow> string \<Rightarrow> Handlers" where
  "add_callback callback handlers eventType =
     (case map_of (callbacks handlers) eventType of
        Some cbs \<Rightarrow> handlers\<lparr>callbacks := AList.update eventType (cbs @ [callback]) (callbacks handlers)\<rparr>
      | None \<Rightarrow> handlers\<lparr>callbacks := AList.update eventType [callback] (callbacks handlers)\<rparr>)"

definition registerPointerEvent ::
  "Input_env \<Rightarrow> string \<Rightarrow> region_ref option \<Rightarrow> callback_ref \<Rightarrow> Input \<Rightarrow> Error option \<times> Input" where
  "registerPointerEvent env eventType region_arg callback s =
     (let s1 = enablePointerEvent env s in
      if eventType \<notin> set pointerEventList then (Some (Invalid_event_type eventType), s1)
      else
        (case region_arg of
           None \<Rightarrow> (Some Region_undefined, s1)
         | Some r \<Rightarrow>
             (let eventTypes = findAllActiveEvents (activeEventList s1)
                                 (case pointerEventMap eventType of None \<Rightarrow> [] | Some l \<Rightarrow> l);
                  handlers = (case eventHandlers s1 r of
                                None \<Rightarrow> \<lparr>region = r, callbacks = [], pointerId = Id_null\<rparr>
                              | Some h \<Rightarrow> h)
              in (None, s1\<lparr>eventHandlers :=
                             (eventHandlers s1)(r \<mapsto> foldl (add_callback callback) handlers eventTypes)\<rparr>))))"

text \<open>
  \<open>releasePointerEvent(eventType, region, callback)\<close>, lines 714 to 744; a callback that
  is omitted is \<open>None\<close>.
\<close>

definition release_callbacks ::
  "Input_env \<Rightarrow> callback_ref option \<Rightarrow> Handlers \<Rightarrow> string \<Rightarrow> Handlers" where
  "release_callbacks env callback handlers eventType =
     (case map_of (callbacks handlers) eventType of
        None \<Rightarrow> handlers
      | Some cbs \<Rightarrow>
          (let cbs' = (case callback of Some c \<Rightarrow> array_remove env cbs c | None \<Rightarrow> [])
           in if length cbs' = 0
              then handlers\<lparr>callbacks := AList.delete eventType (callbacks handlers)\<rparr>
              else handlers\<lparr>callbacks := AList.update eventType cbs' (callbacks handlers)\<rparr>))"

definition releasePointerEvent ::
  "Input_env \<Rightarrow> string \<Rightarrow> region_ref option \<Rightarrow> callback_ref option \<Rightarrow> Input \<Rightarrow> Error option \<times> Input" where
  "releasePointerEvent env eventType region_arg callback s =
     (if eventType \<notin> set pointerEventList then (Some (Invalid_event_type eventType), s)
      else
        (let eventTypes = findAllActiveEvents (activeEventList s)
                            (case pointerEventMap eventType of None \<Rightarrow> [] | Some l \<Rightarrow> l)
         in case region_arg of
              None \<Rightarrow> (None, s)
            | Some r \<Rightarrow>
                (case eventHandlers s r of
                   None \<Rightarrow> (None, s)
                 | Some handlers \<Rightarrow>
                     (let h' = foldl (release_callbacks env callback) handlers eventTypes
                      in if length (callbacks h') = 0
                         then (None, s\<lparr>eventHandlers := (eventHandlers s)(r := None)\<rparr>)
                         else (None, s\<lparr>eventHandlers := (eventHandlers s)(r \<mapsto> h')\<rparr>)))))"

text \<open>Every entry of the table is filed under the region it names.\<close>

definition handlers_by_region :: "Input \<Rightarrow> bool" where
  "handlers_by_region s \<longleftrightarrow> (\<forall>r h. eventHandlers s r = Some h \<longrightarrow> region h = r)"

definition emitted_by :: "Input \<Rightarrow> Input \<Rightarrow> Emitted list" where
  "emitted_by s s' = drop (length (emitted s)) (emitted s')"

subsection \<open>What a dispatch emits\<close>

text \<open>
  The callbacks that the loop of \<open>triggerEvent\<close> reaches, and those that one call of
  \<open>triggerEvent\<close> reaches for a type: a callback that answers \<open>false\<close> is the last.
\<close>

definition answered_false :: "Input_env \<Rightarrow> Emitted \<Rightarrow> bool" where
  "answered_false env e =
     (case e of Callback_invoked r c p \<Rightarrow> callback_returns_false env c p
              | Emit_POINTERMOVE p \<Rightarrow> False)"

fun invoked :: "Input_env \<Rightarrow> region_ref \<Rightarrow> Pointer \<Rightarrow> callback_ref list \<Rightarrow> Emitted list" where
  "invoked env r pointer [] = []"
| "invoked env r pointer (c # cs) =
     Callback_invoked r c pointer
       # (if callback_returns_false env c pointer then [] else invoked env r pointer cs)"

definition triggered :: "Input_env \<Rightarrow> Handlers \<Rightarrow> string option \<Rightarrow> Pointer \<Rightarrow> Emitted list" where
  "triggered env handlers type pointer =
     (case map_of (callbacks handlers) (property_key type) of
        None \<Rightarrow> []
      | Some cbs \<Rightarrow> invoked env (region handlers) pointer (rev cbs))"

definition quiet :: "Input_env \<Rightarrow> Emitted list \<Rightarrow> bool" where
  "quiet env new \<longleftrightarrow> (\<forall>e\<in>set new. \<not> answered_false env e)"

definition stops_at_false :: "Input_env \<Rightarrow> Emitted list \<Rightarrow> bool" where
  "stops_at_false env new \<longleftrightarrow> (\<forall>e\<in>set (butlast new). \<not> answered_false env e)"

text \<open>
  The dispatch changes the pointer id of an entry of the table and nothing else of it:
  \<open>registration\<close> is what stays, the region and the callbacks of each entry.
\<close>

definition same_registration :: "Handlers \<Rightarrow> Handlers \<Rightarrow> bool" where
  "same_registration h h' \<longleftrightarrow> region h' = region h \<and> callbacks h' = callbacks h"

definition registration :: "Input \<Rightarrow> region_ref \<Rightarrow> (region_ref \<times> (string \<times> callback_ref list) list) option" where
  "registration s r = map_option (\<lambda>h. (region h, callbacks h)) (eventHandlers s r)"

definition same_table :: "Input \<Rightarrow> Input \<Rightarrow> bool" where
  "same_table s s' \<longleftrightarrow> (\<forall>r. registration s' r = registration s r)"

definition same_frame :: "Input \<Rightarrow> Input \<Rightarrow> bool" where
  "same_frame s s' \<longleftrightarrow>
     T_POINTERS s' = T_POINTERS s \<and> currentPointer s' = currentPointer s
     \<and> pointerInitialized s' = pointerInitialized s \<and> lastTimeStamp s' = lastTimeStamp s
     \<and> activeEventList s' = activeEventList s
     \<and> (\<forall>r. registration s' r = registration s r)"

definition from_candidates :: "Input \<Rightarrow> region_ref list \<Rightarrow> Emitted \<Rightarrow> bool" where
  "from_candidates s cs e \<longleftrightarrow>
     (\<exists>c rg al cb q. c \<in> set cs \<and> registration s c = Some (rg, al) \<and> e = Callback_invoked rg cb q)"

definition registered_or_move :: "Input \<Rightarrow> Emitted \<Rightarrow> bool" where
  "registered_or_move s e \<longleftrightarrow>
     (case e of Emit_POINTERMOVE q \<Rightarrow> True
      | Callback_invoked rg cb q \<Rightarrow> (\<exists>c al. registration s c = Some (rg, al)))"

text \<open>
  The coordinates \<open>gameX\<close>, \<open>gameY\<close>, \<open>gameLocalX\<close> and \<open>gameLocalY\<close> of the
  pointer are rewritten for each candidate; two pointers that differ in these only are the
  same event.
\<close>

definition same_event :: "Pointer \<Rightarrow> Pointer \<Rightarrow> bool" where
  "same_event p p' \<longleftrightarrow>
     p' = p\<lparr>gameX := gameX p', gameY := gameY p', gameLocalX := gameLocalX p',
            gameLocalY := gameLocalY p'\<rparr>"

text \<open>
  For an event of type \<open>t\<close> that takes the default case of the \<open>switch\<close>, as
  pointerdown and wheel do: what one candidate contributes, and what the candidates
  contribute when they are taken in the given order. A candidate contributes the callbacks
  registered for the type if it has an entry in the table, is not kinematic, and the
  bounds of its region contain the coordinates given to the pointer for that region. The
  walk ends after the candidate at which a callback answers \<open>false\<close>, and after the first
  candidate if \<open>handled\<close> is already true.
\<close>

definition candidate_callbacks ::
  "Input_env \<Rightarrow> Input \<Rightarrow> string \<Rightarrow> Pointer \<Rightarrow> region_ref \<Rightarrow> Emitted list" where
  "candidate_callbacks env s t pointer candidate =
     (case eventHandlers s candidate of
        None \<Rightarrow> []
      | Some h \<Rightarrow>
          if region_isKinematic env candidate then []
          else (let p = pointer_for_region env (region h) pointer
                in if region_contains env (region h) (gameX p) (gameY p)
                   then triggered env h (Some t) p else []))"

fun dispatched ::
  "Input_env \<Rightarrow> Input \<Rightarrow> string \<Rightarrow> Pointer \<Rightarrow> bool \<Rightarrow> region_ref list \<Rightarrow> Emitted list" where
  "dispatched env s t pointer handled [] = []"
| "dispatched env s t pointer handled (c # cs) =
     (if handled \<or> \<not> quiet env (candidate_callbacks env s t pointer c)
      then candidate_callbacks env s t pointer c
      else candidate_callbacks env s t pointer c @ dispatched env s t pointer False cs)"

subsection \<open>A small table of handlers to run the definitions on\<close>

text \<open>
  A browser with pointer events. The viewport is region 0 and covers 800 by 600; region 1
  covers the square from 0 to 100 and region 2 the square from 200 to 300; the quadtree
  answers regions 1 and 2 to every query. Callback 7 answers \<open>false\<close>, every other
  callback does not.
\<close>

definition demo_input_env :: Input_env where
  "demo_input_env =
     \<lparr>device_pointerEvent = True, device_touch = False, device_maxTouchPoints = 1,
      broadphase_retrieve = (\<lambda>rect cmp. [1, 2]),
      game_viewport = 0,
      region_isKinematic = (\<lambda>r. False),
      region_isFloating = (\<lambda>r. r = 0),
      region_ancestor_pos = (\<lambda>r. None),
      region_contains = (\<lambda>r x y.
        if r = 0 then 0 \<le> x \<and> x \<le> 800 \<and> 0 \<le> y \<and> y \<le> 600
        else if r = 1 then 0 \<le> x \<and> x \<le> 100 \<and> 0 \<le> y \<and> y \<le> 100
        else 200 \<le> x \<and> x \<le> 300 \<and> 200 \<le> y \<and> y \<le> 300),
      callback_returns_false = (\<lambda>c p. c = 7),
      array_remove = (\<lambda>cbs c. remove1 c cbs)\<rparr>"

definition demo_pointer :: "string \<Rightarrow> bool \<Rightarrow> real \<Rightarrow> Pointer" where
  "demo_pointer t normalized stamp =
     \<lparr>ptr_type = Some t, isNormalized = normalized, timeStamp = Some stamp,
      ptr_pointerId = Id 1, gameScreenX = 10, gameScreenY = 10, gameWorldX = 10,
      gameWorldY = 10, gameX = 0, gameY = 0, gameLocalX = 0, gameLocalY = 0,
      ptr_width = 1, ptr_height = 1\<rparr>"

definition demo_enabled :: Input where
  "demo_enabled = enablePointerEvent demo_input_env initial_Input"

definition demo_handlers :: "region_ref \<Rightarrow> callback_ref list \<Rightarrow> Handlers" where
  "demo_handlers r cbs = \<lparr>region = r, callbacks = [(''pointerdown'', cbs)], pointerId = Id_null\<rparr>"

definition demo_table :: Input where
  "demo_table =
     demo_enabled\<lparr>eventHandlers := [0 \<mapsto> demo_handlers 0 [5], 1 \<mapsto> demo_handlers 1 [5, 7]]\<rparr>"

subsection \<open>From the event of the browser to the pointer\<close>

text \<open>
  What \<open>Pointer.setEvent\<close> reads from the event of the browser: its type, its time
  stamp, whether it is an instance of the class \<open>PointerEvent\<close> of the browser (which
  is asked only if the browser has that class), its page coordinates and pointer id, and
  the sizes that a pointer event or a touch carries. A property that is \<open>undefined\<close> is
  \<open>None\<close>.
\<close>

record Event =
  ev_type :: string
  ev_timeStamp :: "real option"
  ev_instanceof_PointerEvent :: bool
  ev_pageX :: real
  ev_pageY :: real
  ev_pointerId :: "nat option"
  ev_width :: "real option"
  ev_height :: "real option"
  ev_radiusX :: "real option"
  ev_radiusY :: "real option"

text \<open>
  What \<open>setEvent\<close> takes from its surroundings: whether \<open>globalThis.PointerEvent\<close>
  is defined, \<open>globalToLocal\<close>, and \<open>game.viewport.localToWorld\<close> if the viewport is
  defined.
\<close>

record Browser =
  global_PointerEvent :: bool
  globalToLocal :: "real \<Rightarrow> real \<Rightarrow> real \<times> real"
  viewport_localToWorld :: "(real \<Rightarrow> real \<Rightarrow> real \<times> real) option"

text \<open>\<open>v || 1\<close> for a size: 1 if the size is \<open>undefined\<close> or zero.\<close>

definition or_one :: "real option \<Rightarrow> real" where
  "or_one v = (case v of None \<Rightarrow> 1 | Some r \<Rightarrow> if r = 0 then 1 else r)"

text \<open>
  \<open>setEvent(event, pageX, pageY, clientX, clientY, pointerId)\<close>, lines 1128 to 1191, for
  the fields of the pointer that \<open>dispatchEvent\<close> reads; the pointer id that is omitted
  is 1. Line 1143 sets \<open>isNormalized\<close> to
  \<open>typeof globalThis.PointerEvent !== "undefined" && !(event instanceof globalThis.PointerEvent)\<close>.
  Twice a radius is exact.
\<close>

definition setEvent ::
  "Browser \<Rightarrow> Event \<Rightarrow> real \<Rightarrow> real \<Rightarrow> nat option \<Rightarrow> Pointer \<Rightarrow> Pointer" where
  "setEvent br event pageX pageY pid p =
     (let (lx, ly) = globalToLocal br pageX pageY;
          normalized = (global_PointerEvent br \<and> \<not> ev_instanceof_PointerEvent event);
          (wx, wy) = (case viewport_localToWorld br of None \<Rightarrow> (lx, ly) | Some f \<Rightarrow> f lx ly);
          (w, h) =
            (if \<not> normalized then (or_one (ev_width event), or_one (ev_height event))
             else if ev_radiusX event \<noteq> None
             then (or_one (map_option (\<lambda>r. r * 2) (ev_radiusX event)),
                   or_one (map_option (\<lambda>r. r * 2) (ev_radiusY event)))
             else (1, 1))
      in p\<lparr>ptr_type := Some (ev_type event), isNormalized := normalized,
           timeStamp := ev_timeStamp event,
           ptr_pointerId := Id (case pid of None \<Rightarrow> 1 | Some i \<Rightarrow> i),
           gameScreenX := lx, gameScreenY := ly, gameWorldX := wx, gameWorldY := wy,
           ptr_width := w, ptr_height := h\<rparr>)"

text \<open>
  \<open>onPointerEvent(e)\<close>, lines 466 to 488, for an event without \<open>changedTouches\<close>, a
  mouse event or a pointer event: \<open>normalizeEvent\<close> takes a pointer from the pool
  (lines 429 to 438), \<open>setEvent\<close> fills it, and \<open>dispatchEvent\<close> is given the one
  pointer. The key that may be bound to the button is left out. With an empty pool
  \<open>setEvent\<close> is called on \<open>undefined\<close>, which throws: the result is \<open>None\<close>.
\<close>

definition onPointerEvent :: "Browser \<Rightarrow> Input_env \<Rightarrow> Event \<Rightarrow> Input \<Rightarrow> (bool \<times> Input) option" where
  "onPointerEvent br env e s =
     (case rev (T_POINTERS s) of
        [] \<Rightarrow> None
      | p # ps \<Rightarrow>
          Some (dispatchEvent env [setEvent br e (ev_pageX e) (ev_pageY e) (ev_pointerId e) p]
                  (s\<lparr>T_POINTERS := rev ps\<rparr>)))"

text \<open>
  A browser without the class \<open>PointerEvent\<close>, in which the device reports neither
  pointer events nor touch, so that the events are those of the mouse; the page is the
  game screen and the world. Region 1 has callback 5 for \<open>pointerdown\<close>, registered
  through \<open>registerPointerEvent\<close>. A mouse button goes down at (10, 10) at a given
  time.
\<close>

definition demo_old_browser :: Browser where
  "demo_old_browser =
     \<lparr>global_PointerEvent = False, globalToLocal = (\<lambda>x y. (x, y)), viewport_localToWorld = None\<rparr>"

definition demo_mouse_env :: Input_env where
  "demo_mouse_env = demo_input_env\<lparr>device_pointerEvent := False\<rparr>"

definition demo_mouse_table :: Input where
  "demo_mouse_table = snd (registerPointerEvent demo_mouse_env ''pointerdown'' (Some 1) 5 initial_Input)"

definition demo_mousedown :: "real \<Rightarrow> Event" where
  "demo_mousedown stamp =
     \<lparr>ev_type = ''mousedown'', ev_timeStamp = Some stamp, ev_instanceof_PointerEvent = False,
      ev_pageX = 10, ev_pageY = 10, ev_pointerId = None, ev_width = None, ev_height = None,
      ev_radiusX = None, ev_radiusY = None\<rparr>"

definition demo_mouse_pointer :: "real \<Rightarrow> Pointer" where
  "demo_mouse_pointer stamp =
     \<lparr>ptr_type = Some ''mousedown'', isNormalized = False, timeStamp = Some stamp,
      ptr_pointerId = Id 1, gameScreenX = 10, gameScreenY = 10, gameWorldX = 10,
      gameWorldY = 10, gameX = 10, gameY = 10, gameLocalX = 10, gameLocalY = 10,
      ptr_width = 1, ptr_height = 1\<rparr>"

section \<open>Properties of the world\<close>

subsection \<open>One body\<close>

lemma skipped_iff:
  "skipped p h b \<longleftrightarrow>
     \<not> (\<not> isStatic (body_at h b) \<and>
        \<not> (p \<and> \<not> updateWhenPaused (obj_at h (ancestor (body_at h b)))) \<and>
        (inViewport (obj_at h (ancestor (body_at h b))) \<or> alwaysUpdate (obj_at h (ancestor (body_at h b)))))"
  by (auto simp: skipped_def)

lemma update_body_skipped: "skipped p (heap w) b \<Longrightarrow> update_body env dt p b w = (w, [])"
  by (auto simp: skipped_def update_body_def Let_def)

lemma update_body_tick_body:
  "\<not> skipped p (heap w) b \<Longrightarrow> update_body env dt p b w = tick_body env dt b w"
proof -
  assume ns: "\<not> skipped p (heap w) b"
  let ?a = "ancestor (body_at (heap w) b)"
  let ?w1 = "step_gravity env b w"
  obtain changed h2 ops2 where bu: "Body_update env dt b (bodies ?w1) (heap ?w1) = (changed, h2, ops2)"
    by (cases "Body_update env dt b (bodies ?w1) (heap ?w1)")
  let ?w2 = "?w1\<lparr>heap := h2, bodies := apply_Set_ops ops2 (bodies ?w1),
                calls := calls ?w1 @ [Call_Body_update b dt]\<rparr>"
  let ?w3 = "if changed then step_mark_dirty ?a ?w2 else ?w2"
  obtain h4 ops4 where dc:
    "Detector_collisions env (broadphase ?w3) ?a (bodies ?w3) (heap ?w3) = (h4, ops4)"
    by (cases "Detector_collisions env (broadphase ?w3) ?a (bodies ?w3) (heap ?w3)")
  have t: "tick_body env dt b w =
      (step_zero_force b (?w3\<lparr>heap := h4, bodies := apply_Set_ops ops4 (bodies ?w3),
             calls := calls ?w3 @ [Call_Detector_collisions ?a]\<rparr>), ops2 @ ops4)"
    using bu dc by (simp add: tick_body_def step_integrate_def step_detect_def)
  have u: "update_body env dt p b w =
      (step_zero_force b (?w3\<lparr>heap := h4, bodies := apply_Set_ops ops4 (bodies ?w3),
             calls := calls ?w3 @ [Call_Detector_collisions ?a]\<rparr>), ops2 @ ops4)"
  proof (cases changed)
    case True
    with ns bu dc show ?thesis
      unfolding skipped_iff
      by (simp add: update_body_def step_gravity_def step_mark_dirty_def step_zero_force_def
            record_call_def Let_def)
  next
    case False
    with ns bu dc show ?thesis
      unfolding skipped_iff
      by (simp add: update_body_def step_gravity_def step_mark_dirty_def step_zero_force_def
            record_call_def Let_def)
  qed
  from t u show ?thesis by simp
qed

lemma calls_tick_body: "calls (fst (tick_body env dt b w)) = calls w @ body_calls env dt b w"
  by (auto simp: tick_body_def step_gravity_def step_integrate_def
        step_mark_dirty_def step_detect_def step_zero_force_def body_calls_def
        split: prod.splits)

lemma calls_update_body:
  "calls (fst (update_body env dt p b w)) =
     calls w @ (if skipped p (heap w) b then [] else body_calls env dt b w)"
  by (simp add: update_body_skipped update_body_tick_body calls_tick_body)

lemma bodies_tick_body:
  "bodies (fst (tick_body env dt b w)) = apply_Set_ops (snd (tick_body env dt b w)) (bodies w)"
  by (auto simp: tick_body_def step_gravity_def step_integrate_def
        step_mark_dirty_def step_detect_def step_zero_force_def apply_Set_ops_def
        split: prod.splits)

lemma apply_Set_ops_Nil [simp]: "apply_Set_ops [] xs = xs"
  by (simp add: apply_Set_ops_def)

lemma apply_Set_ops_append: "apply_Set_ops (xs @ ys) l = apply_Set_ops ys (apply_Set_ops xs l)"
  by (simp add: apply_Set_ops_def)

lemma bodies_update_body:
  "bodies (fst (update_body env dt p b w)) =
     apply_Set_ops (snd (update_body env dt p b w)) (bodies w)"
  by (cases "skipped p (heap w) b")
     (simp_all add: update_body_skipped update_body_tick_body bodies_tick_body)

lemma frame_tick_body:
  "broadphase (fst (tick_body env dt b w)) = broadphase w"
  "gravity (fst (tick_body env dt b w)) = gravity w"
  "world_bounds (fst (tick_body env dt b w)) = world_bounds w"
  by (auto simp: tick_body_def step_gravity_def step_integrate_def
        step_mark_dirty_def step_detect_def step_zero_force_def split: prod.splits)

lemma frame_update_body:
  "broadphase (fst (update_body env dt p b w)) = broadphase w"
  "gravity (fst (update_body env dt p b w)) = gravity w"
  "world_bounds (fst (update_body env dt p b w)) = world_bounds w"
  by (cases "skipped p (heap w) b";
      simp add: update_body_skipped update_body_tick_body frame_tick_body)+

lemma force_tick_body:
  "force (body_at (heap (fst (tick_body env dt b w))) b) = Vector2d 0 0"
  by (simp add: tick_body_def step_zero_force_def set_body_def split: prod.splits)

subsection \<open>The walk over the set\<close>

lemma remaining_Nil [simp]: "remaining [] live todo = todo"
  by (simp add: remaining_def)

lemma forEach_step_fst: "fst (forEach_step op (live, todo)) = apply_Set_op op live"
  by (cases op) (simp_all add: Set_add_def Set_delete_def Set_clear_def)

lemma foldl_forEach_step_fst:
  "fst (foldl (\<lambda>st op. forEach_step op st) (live, todo) ops) = apply_Set_ops ops live"
proof (induction ops arbitrary: live todo)
  case Nil
  then show ?case by simp
next
  case (Cons op ops)
  obtain l t where lt: "forEach_step op (live, todo) = (l, t)"
    by (cases "forEach_step op (live, todo)")
  then have "l = apply_Set_op op live"
    using forEach_step_fst [of op live todo] by simp
  with Cons.IH [of l t] lt show ?case
    by (simp add: apply_Set_ops_def)
qed

lemma forEach_step_subset:
  "set todo \<subseteq> set live \<Longrightarrow> set (snd (forEach_step op (live, todo))) \<subseteq> set (fst (forEach_step op (live, todo)))"
  by (cases op) auto

lemma foldl_forEach_step_subset:
  "set todo \<subseteq> set live \<Longrightarrow>
   set (snd (foldl (\<lambda>st op. forEach_step op st) (live, todo) ops))
     \<subseteq> set (fst (foldl (\<lambda>st op. forEach_step op st) (live, todo) ops))"
proof (induction ops arbitrary: live todo)
  case Nil
  then show ?case by simp
next
  case (Cons op ops)
  obtain l t where lt: "forEach_step op (live, todo) = (l, t)"
    by (cases "forEach_step op (live, todo)")
  with forEach_step_subset [OF Cons.prems, of op] have "set t \<subseteq> set l" by simp
  from Cons.IH [OF this] lt show ?case by simp
qed

lemma remaining_subset:
  "set todo \<subseteq> set live \<Longrightarrow> set (remaining ops live todo) \<subseteq> set (apply_Set_ops ops live)"
  using foldl_forEach_step_subset [of todo live ops]
  by (simp add: remaining_def foldl_forEach_step_fst)

lemma forEach_tick_bodies:
  "forEach_bodies fuel env dt p todo w = tick_bodies fuel env dt p todo w"
proof (induction fuel env dt p todo w rule: forEach_bodies.induct)
  case (1 fuel env dt isPaused w)
  then show ?case by simp
next
  case (2 env dt isPaused b todo w)
  then show ?case by simp
next
  case (3 fuel env dt isPaused b todo w)
  then show ?case
    by (cases "skipped isPaused (heap w) b")
       (simp_all add: update_body_skipped update_body_tick_body)
qed

lemma calls_forEach:
  "forEach_bodies fuel env dt p todo w = Some w' \<Longrightarrow>
   calls w' = calls w @ tick_calls env dt p (visits fuel env dt p todo w)"
proof (induction fuel env dt p todo w rule: forEach_bodies.induct)
  case (1 fuel env dt isPaused w)
  then show ?case by (cases fuel) simp_all
next
  case (2 env dt isPaused b todo w)
  then show ?case by simp
next
  case (3 fuel env dt isPaused b todo w)
  then show ?case by (simp add: calls_update_body)
qed

lemma frame_forEach:
  "forEach_bodies fuel env dt p todo w = Some w' \<Longrightarrow>
   broadphase w' = broadphase w \<and> gravity w' = gravity w \<and> world_bounds w' = world_bounds w"
proof (induction fuel env dt p todo w rule: forEach_bodies.induct)
  case (1 fuel env dt isPaused w)
  then show ?case by simp
next
  case (2 env dt isPaused b todo w)
  then show ?case by simp
next
  case (3 fuel env dt isPaused b todo w)
  then show ?case by (simp add: frame_update_body)
qed

lemma bodies_forEach:
  "forEach_bodies fuel env dt p todo w = Some w' \<Longrightarrow>
   bodies w' =
     apply_Set_ops
       (concat (map (\<lambda>(b, s). snd (update_body env dt p b s)) (visits fuel env dt p todo w)))
       (bodies w)"
proof (induction fuel env dt p todo w rule: forEach_bodies.induct)
  case (1 fuel env dt isPaused w)
  then show ?case by (cases fuel) simp_all
next
  case (2 env dt isPaused b todo w)
  then show ?case by simp
next
  case (3 fuel env dt isPaused b todo w)
  then show ?case by (simp add: bodies_update_body apply_Set_ops_append)
qed

lemma visits_in_set:
  "set todo \<subseteq> set (bodies w) \<Longrightarrow> (b, s) \<in> set (visits fuel env dt p todo w) \<Longrightarrow>
   b \<in> set (bodies s)"
proof (induction fuel env dt p todo w rule: visits.induct)
  case (1 fuel env dt isPaused w)
  then show ?case by simp
next
  case (2 env dt isPaused b' todo w)
  then show ?case by simp
next
  case (3 fuel env dt isPaused b' todo w)
  show ?case
  proof (cases "(b, s) = (b', w)")
    case True
    with "3.prems"(1) show ?thesis by simp
  next
    case False
    let ?u = "update_body env dt isPaused b' w"
    from "3.prems"(1) have "set todo \<subseteq> set (bodies w)" by simp
    then have "set (remaining (snd ?u) (bodies w) todo) \<subseteq> set (bodies (fst ?u))"
      by (simp add: bodies_update_body remaining_subset)
    moreover from False "3.prems"(2)
    have "(b, s) \<in> set (visits fuel env dt isPaused (remaining (snd ?u) (bodies w) todo) (fst ?u))"
      by auto
    ultimately show ?thesis by (rule "3.IH")
  qed
qed

subsection \<open>The whole tick\<close>

lemma update_eq:
  "update fuel env dt w =
     map_option (end_of_tick env dt)
       (forEach_bodies fuel env dt (state_isPaused env) (bodies w) (start_of_tick env w))"
  by (simp add: update_def start_of_tick_def end_of_tick_def record_call_def Let_def
        split: option.splits prod.splits)

lemma update_tick: "update fuel env dt w = tick fuel env dt w"
  by (simp add: update_eq tick_def forEach_tick_bodies)

lemma calls_end_of_tick:
  "calls (snd (end_of_tick env dt w)) = calls w @ [Call_Container_update dt]"
  by (simp add: end_of_tick_def split: prod.splits)

lemma calls_update:
  assumes "update fuel env dt w = Some r"
  shows "calls (snd r) =
     calls w @ [Call_QuadTree_clear, Call_insertContainer]
       @ tick_calls env dt (state_isPaused env)
           (visits fuel env dt (state_isPaused env) (bodies w) (start_of_tick env w))
       @ [Call_Container_update dt]"
proof -
  from assms obtain w3 where
    f: "forEach_bodies fuel env dt (state_isPaused env) (bodies w) (start_of_tick env w) = Some w3"
    and r: "r = end_of_tick env dt w3"
    by (auto simp: update_eq)
  from calls_forEach [OF f] show ?thesis
    by (simp add: r calls_end_of_tick start_of_tick_def)
qed

lemma broadphase_update:
  assumes "update fuel env dt w = Some r"
  shows "broadphase (snd r) =
           QuadTree_insertContainer env (heap w) (QuadTree_clear None (broadphase w))"
proof -
  from assms obtain w3 where
    f: "forEach_bodies fuel env dt (state_isPaused env) (bodies w) (start_of_tick env w) = Some w3"
    and r: "r = end_of_tick env dt w3"
    by (auto simp: update_eq)
  from frame_forEach [OF f] show ?thesis
    by (simp add: r end_of_tick_def start_of_tick_def split: prod.splits)
qed

lemma calls_of_tick_eq:
  assumes "update fuel env dt w = Some r"
  shows "calls_of_tick fuel env dt w =
     [Call_QuadTree_clear, Call_insertContainer]
       @ tick_calls env dt (state_isPaused env)
           (visits fuel env dt (state_isPaused env) (bodies w) (start_of_tick env w))
       @ [Call_Container_update dt]"
  using calls_update [OF assms] by (simp add: calls_of_tick_def assms)

subsection \<open>Ticks that return\<close>

lemma subseq_removeAll: "subseq (removeAll b xs) xs"
  by (induction xs) (auto intro: subseq_Cons')

lemma subseq_distinct: "subseq xs ys \<Longrightarrow> distinct ys \<Longrightarrow> distinct xs"
proof (induction rule: list_emb.induct)
  case (list_emb_Nil ys)
  then show ?case by simp
next
  case (list_emb_Cons xs ys y)
  then show ?case by simp
next
  case (list_emb_Cons2 x y xs ys)
  then show ?case by (auto dest: list_emb_set)
qed

lemma forEach_step_subseq:
  "\<not> is_add op \<Longrightarrow> subseq (snd (forEach_step op (live, todo))) todo"
  by (cases op) (simp_all add: subseq_removeAll)

lemma remaining_Cons:
  "remaining (op # ops) live todo =
     remaining ops (fst (forEach_step op (live, todo))) (snd (forEach_step op (live, todo)))"
  by (simp add: remaining_def)

lemma remaining_subseq:
  "\<forall>op\<in>set ops. \<not> is_add op \<Longrightarrow> subseq (remaining ops live todo) todo"
proof (induction ops arbitrary: live todo)
  case Nil
  then show ?case by simp
next
  case (Cons op ops)
  from Cons.prems have "subseq (snd (forEach_step op (live, todo))) todo"
    by (simp add: forEach_step_subseq)
  moreover from Cons.prems
  have "subseq (remaining ops (fst (forEach_step op (live, todo))) (snd (forEach_step op (live, todo))))
          (snd (forEach_step op (live, todo)))"
    by (intro Cons.IH) simp
  ultimately show ?case
    unfolding remaining_Cons by (rule subseq_order.trans [rotated])
qed

lemma ops_tick_body:
  "adds_no_body env \<Longrightarrow> \<forall>op\<in>set (snd (tick_body env dt b w)). \<not> is_add op"
proof -
  assume a: "adds_no_body env"
  let ?w1 = "step_gravity env b w"
  obtain changed w2 ops2 where si: "step_integrate env dt b ?w1 = (changed, w2, ops2)"
    by (cases "step_integrate env dt b ?w1")
  let ?w3 = "if changed then step_mark_dirty (ancestor (body_at (heap w) b)) w2 else w2"
  obtain w4 ops4 where sd: "step_detect env (ancestor (body_at (heap w) b)) ?w3 = (w4, ops4)"
    by (cases "step_detect env (ancestor (body_at (heap w) b)) ?w3")
  from si have "ops2 = snd (snd (Body_update env dt b (bodies ?w1) (heap ?w1)))"
    by (auto simp: step_integrate_def split: prod.splits)
  with a have 2: "\<forall>op\<in>set ops2. \<not> is_add op"
    by (simp add: adds_no_body_def)
  from sd have "ops4 = snd (Detector_collisions env (broadphase ?w3)
                      (ancestor (body_at (heap w) b)) (bodies ?w3) (heap ?w3))"
    by (auto simp: step_detect_def split: prod.splits)
  with a have 4: "\<forall>op\<in>set ops4. \<not> is_add op"
    by (simp add: adds_no_body_def)
  from si sd have "snd (tick_body env dt b w) = ops2 @ ops4"
    by (simp add: tick_body_def)
  with 2 4 show ?thesis by auto
qed

lemma ops_update_body:
  "adds_no_body env \<Longrightarrow> \<forall>op\<in>set (snd (update_body env dt p b w)). \<not> is_add op"
  by (cases "skipped p (heap w) b")
     (simp_all add: update_body_skipped update_body_tick_body ops_tick_body)

lemma ops_tick_body_none: "leaves_set_alone env \<Longrightarrow> snd (tick_body env dt b w) = []"
proof -
  assume a: "leaves_set_alone env"
  let ?w1 = "step_gravity env b w"
  obtain changed w2 ops2 where si: "step_integrate env dt b ?w1 = (changed, w2, ops2)"
    by (cases "step_integrate env dt b ?w1")
  let ?w3 = "if changed then step_mark_dirty (ancestor (body_at (heap w) b)) w2 else w2"
  obtain w4 ops4 where sd: "step_detect env (ancestor (body_at (heap w) b)) ?w3 = (w4, ops4)"
    by (cases "step_detect env (ancestor (body_at (heap w) b)) ?w3")
  from si have "ops2 = snd (snd (Body_update env dt b (bodies ?w1) (heap ?w1)))"
    by (auto simp: step_integrate_def split: prod.splits)
  with a have 2: "ops2 = []"
    by (simp add: leaves_set_alone_def)
  from sd have "ops4 = snd (Detector_collisions env (broadphase ?w3)
                      (ancestor (body_at (heap w) b)) (bodies ?w3) (heap ?w3))"
    by (auto simp: step_detect_def split: prod.splits)
  with a have 4: "ops4 = []"
    by (simp add: leaves_set_alone_def)
  from si sd have "snd (tick_body env dt b w) = ops2 @ ops4"
    by (simp add: tick_body_def)
  with 2 4 show ?thesis by simp
qed

lemma ops_update_body_none: "leaves_set_alone env \<Longrightarrow> snd (update_body env dt p b w) = []"
  by (cases "skipped p (heap w) b")
     (simp_all add: update_body_skipped update_body_tick_body ops_tick_body_none)

lemma forEach_returns:
  "adds_no_body env \<Longrightarrow> length todo \<le> fuel \<Longrightarrow>
   \<exists>w'. forEach_bodies fuel env dt p todo w = Some w'"
proof (induction fuel env dt p todo w rule: forEach_bodies.induct)
  case (1 fuel env dt isPaused w)
  then show ?case by simp
next
  case (2 env dt isPaused b todo w)
  then show ?case by simp
next
  case (3 fuel env dt isPaused b todo w)
  let ?u = "update_body env dt isPaused b w"
  from "3.prems"(1) have "subseq (remaining (snd ?u) (bodies w) todo) todo"
    by (intro remaining_subseq ops_update_body)
  then have "length (remaining (snd ?u) (bodies w) todo) \<le> length todo"
    by (rule list_emb_length)
  with "3.prems"(2) have "length (remaining (snd ?u) (bodies w) todo) \<le> fuel" by simp
  from "3.IH" [OF "3.prems"(1) this] show ?case by simp
qed

lemma visits_subseq:
  "adds_no_body env \<Longrightarrow> subseq (map fst (visits fuel env dt p todo w)) todo"
proof (induction fuel env dt p todo w rule: visits.induct)
  case (1 fuel env dt isPaused w)
  then show ?case by simp
next
  case (2 env dt isPaused b todo w)
  then show ?case by simp
next
  case (3 fuel env dt isPaused b todo w)
  let ?u = "update_body env dt isPaused b w"
  from "3.prems" have "subseq (remaining (snd ?u) (bodies w) todo) todo"
    by (intro remaining_subseq ops_update_body)
  with "3.IH" [OF "3.prems"] show ?case
    by (auto intro: subseq_order.trans)
qed

lemma visits_all:
  "leaves_set_alone env \<Longrightarrow> length todo \<le> fuel \<Longrightarrow>
   map fst (visits fuel env dt p todo w) = todo"
proof (induction fuel env dt p todo w rule: visits.induct)
  case (1 fuel env dt isPaused w)
  then show ?case by simp
next
  case (2 env dt isPaused b todo w)
  then show ?case by simp
next
  case (3 fuel env dt isPaused b todo w)
  then show ?case by (simp add: ops_update_body_none)
qed

lemma leaves_set_alone_adds_no_body: "leaves_set_alone env \<Longrightarrow> adds_no_body env"
  by (simp add: leaves_set_alone_def adds_no_body_def)

lemma update_returns:
  "adds_no_body env \<Longrightarrow> length (bodies w) \<le> fuel \<Longrightarrow> \<exists>r. update fuel env dt w = Some r"
  using forEach_returns [of env "bodies w" fuel dt "state_isPaused env" "start_of_tick env w"]
  by (auto simp: update_eq)

lemmas demo_simps =
  demo_world_def demo_collab_def demo_heap_def demo_body_def demo_arith_def demo_bounds_def
  start_of_tick_def set_body_def set_obj_def bodyApplyGravity_def Body_integrate_def
  skipped_def QuadTree_clear_def

subsection \<open>One ordered pass\<close>

lemma update_body_result:
  assumes ns: "\<not> skipped p (heap w) b"
    and bu: "Body_update env dt b (bodies w)
               (set_body b (bodyApplyGravity (arith env) (gravity w) (body_at (heap w) b)) (heap w))
             = (changed, h2, ops2)"
    and dc: "Detector_collisions env (broadphase w) (ancestor (body_at (heap w) b))
               (apply_Set_ops ops2 (bodies w))
               (if changed
                then set_obj (ancestor (body_at (heap w) b))
                       ((obj_at h2 (ancestor (body_at (heap w) b)))\<lparr>isDirty := True\<rparr>) h2
                else h2)
             = (h4, ops4)"
  shows "update_body env dt p b w =
           (w\<lparr>heap := set_body b ((body_at h4 b)\<lparr>force := Vector2d 0 0\<rparr>) h4,
              bodies := apply_Set_ops ops4 (apply_Set_ops ops2 (bodies w)),
              calls := calls w @ [Call_bodyApplyGravity b, Call_Body_update b dt]
                        @ (if changed then [Write_isDirty (ancestor (body_at (heap w) b))] else [])
                        @ [Call_Detector_collisions (ancestor (body_at (heap w) b)),
                           Call_force_set_zero b]\<rparr>,
            ops2 @ ops4)"
proof (cases changed)
  case True
  with ns bu dc show ?thesis
    unfolding skipped_iff
    by (simp add: update_body_def record_call_def Let_def)
next
  case False
  with ns bu dc show ?thesis
    unfolding skipped_iff
    by (simp add: update_body_def record_call_def Let_def)
qed

text \<open>
  C1. \<open>update(dt)\<close> is one ordered pass: it is the tick of section 4.5, \<open>tick\<close>,
  made of the five steps in their order. For a body \<open>b\<close> that the walk reaches in a
  state \<open>s\<close>: if it is skipped nothing changes; otherwise the integrator is handed the
  heap in which gravity has been applied to the body, the detector is handed the tree, the
  active set as the integrator left it and the heap in which the owner is dirty exactly if
  the integrator answered \<open>true\<close>, and the state that results is the detector's with the
  force of the body set to zero, the calls being recorded in this order. A tick that
  returns has made, in this order, \<open>clear\<close>, \<open>insertContainer\<close>, the calls for the
  bodies in the order in which the walk reaches them, and the parent's \<open>update\<close>, and
  its quadtree is the old one cleared and then filled by \<open>insertContainer\<close>. Every
  body that the walk reaches is in the active set when it is reached. If the code that the
  walk calls adds no body, and the bound is at least the size of the active set, then the
  tick returns, the bodies reached are bodies of the set at the start of the tick in the
  order of the set, and no body is reached twice if the set has no duplicates; if that
  code leaves the set alone, the bodies reached are exactly those of the set, in its order.
\<close>

theorem update_one_ordered_pass:
  "update fuel env dt w = tick fuel env dt w
   \<and> (skipped p (heap s) b \<longrightarrow> update_body env dt p b s = (s, []))
   \<and> (\<not> skipped p (heap s) b
        \<and> Body_update env dt b (bodies s)
            (set_body b (bodyApplyGravity (arith env) (gravity s) (body_at (heap s) b)) (heap s))
          = (changed, h2, ops2)
        \<and> Detector_collisions env (broadphase s) (ancestor (body_at (heap s) b))
            (apply_Set_ops ops2 (bodies s))
            (if changed
             then set_obj (ancestor (body_at (heap s) b))
                    ((obj_at h2 (ancestor (body_at (heap s) b)))\<lparr>isDirty := True\<rparr>) h2
             else h2)
          = (h4, ops4)
      \<longrightarrow> update_body env dt p b s =
           (s\<lparr>heap := set_body b ((body_at h4 b)\<lparr>force := Vector2d 0 0\<rparr>) h4,
              bodies := apply_Set_ops ops4 (apply_Set_ops ops2 (bodies s)),
              calls := calls s @ [Call_bodyApplyGravity b, Call_Body_update b dt]
                        @ (if changed then [Write_isDirty (ancestor (body_at (heap s) b))] else [])
                        @ [Call_Detector_collisions (ancestor (body_at (heap s) b)),
                           Call_force_set_zero b]\<rparr>,
            ops2 @ ops4))
   \<and> (update fuel env dt w = Some r \<longrightarrow>
        calls (snd r) =
          calls w @ [Call_QuadTree_clear, Call_insertContainer]
            @ tick_calls env dt (state_isPaused env)
                (visits fuel env dt (state_isPaused env) (bodies w) (start_of_tick env w))
            @ [Call_Container_update dt]
        \<and> broadphase (snd r) =
            QuadTree_insertContainer env (heap w) (QuadTree_clear None (broadphase w)))
   \<and> ((b, s) \<in> set (visits fuel env dt (state_isPaused env) (bodies w) (start_of_tick env w))
        \<longrightarrow> b \<in> set (bodies s))
   \<and> (adds_no_body env \<and> length (bodies w) \<le> fuel \<longrightarrow>
        (\<exists>r. update fuel env dt w = Some r)
        \<and> subseq (map fst (visits fuel env dt (state_isPaused env) (bodies w) (start_of_tick env w)))
            (bodies w)
        \<and> (distinct (bodies w) \<longrightarrow>
             distinct (map fst (visits fuel env dt (state_isPaused env) (bodies w)
                                  (start_of_tick env w)))))
   \<and> (leaves_set_alone env \<and> length (bodies w) \<le> fuel \<longrightarrow>
        map fst (visits fuel env dt (state_isPaused env) (bodies w) (start_of_tick env w))
          = bodies w)"
proof (intro conjI impI)
  show "update fuel env dt w = tick fuel env dt w"
    by (rule update_tick)
  show "update_body env dt p b s = (s, [])" if "skipped p (heap s) b"
    using that by (rule update_body_skipped)
  show "calls (snd r) =
          calls w @ [Call_QuadTree_clear, Call_insertContainer]
            @ tick_calls env dt (state_isPaused env)
                (visits fuel env dt (state_isPaused env) (bodies w) (start_of_tick env w))
            @ [Call_Container_update dt]" if "update fuel env dt w = Some r"
    using that by (rule calls_update)
  show "broadphase (snd r) =
          QuadTree_insertContainer env (heap w) (QuadTree_clear None (broadphase w))"
    if "update fuel env dt w = Some r"
    using that by (rule broadphase_update)
  show "b \<in> set (bodies s)"
    if "(b, s) \<in> set (visits fuel env dt (state_isPaused env) (bodies w) (start_of_tick env w))"
    using _ that by (rule visits_in_set) (simp add: start_of_tick_def)
  show "\<exists>r. update fuel env dt w = Some r" if "adds_no_body env \<and> length (bodies w) \<le> fuel"
    using that update_returns [of env w fuel dt] by blast
  show sub: "subseq (map fst (visits fuel env dt (state_isPaused env) (bodies w) (start_of_tick env w)))
            (bodies w)" if "adds_no_body env \<and> length (bodies w) \<le> fuel"
    using that by (simp add: visits_subseq)
  show "distinct (map fst (visits fuel env dt (state_isPaused env) (bodies w) (start_of_tick env w)))"
    if "adds_no_body env \<and> length (bodies w) \<le> fuel" "distinct (bodies w)"
    using sub [OF that(1)] that(2) by (rule subseq_distinct)
  show "map fst (visits fuel env dt (state_isPaused env) (bodies w) (start_of_tick env w)) = bodies w"
    if "leaves_set_alone env \<and> length (bodies w) \<le> fuel"
    using that by (simp add: visits_all)
next
  assume a: "\<not> skipped p (heap s) b
        \<and> Body_update env dt b (bodies s)
            (set_body b (bodyApplyGravity (arith env) (gravity s) (body_at (heap s) b)) (heap s))
          = (changed, h2, ops2)
        \<and> Detector_collisions env (broadphase s) (ancestor (body_at (heap s) b))
            (apply_Set_ops ops2 (bodies s))
            (if changed
             then set_obj (ancestor (body_at (heap s) b))
                    ((obj_at h2 (ancestor (body_at (heap s) b)))\<lparr>isDirty := True\<rparr>) h2
             else h2)
          = (h4, ops4)"
  from a [THEN conjunct1] a [THEN conjunct2, THEN conjunct1] a [THEN conjunct2, THEN conjunct2]
  show "update_body env dt p b s =
           (s\<lparr>heap := set_body b ((body_at h4 b)\<lparr>force := Vector2d 0 0\<rparr>) h4,
              bodies := apply_Set_ops ops4 (apply_Set_ops ops2 (bodies s)),
              calls := calls s @ [Call_bodyApplyGravity b, Call_Body_update b dt]
                        @ (if changed then [Write_isDirty (ancestor (body_at (heap s) b))] else [])
                        @ [Call_Detector_collisions (ancestor (body_at (heap s) b)),
                           Call_force_set_zero b]\<rparr>,
            ops2 @ ops4)"
    by (rule update_body_result)
qed

theorem update_one_ordered_pass_witness:
  "update 2 demo_collab 1 (demo_world (Finite 800) (Finite 600) [0, 1])
     = tick 2 demo_collab 1 (demo_world (Finite 800) (Finite 600) [0, 1])
   \<and> skipped False demo_heap 1
   \<and> update_body demo_collab 1 False 1
         (start_of_tick demo_collab (demo_world (Finite 800) (Finite 600) [0, 1]))
       = (start_of_tick demo_collab (demo_world (Finite 800) (Finite 600) [0, 1]), [])
   \<and> \<not> skipped False demo_heap 0
   \<and> force (body_at (heap (fst (update_body demo_collab 1 False 0
                (start_of_tick demo_collab (demo_world (Finite 800) (Finite 600) [0, 1]))))) 0)
       = Vector2d 0 0
   \<and> vel (body_at (heap (fst (update_body demo_collab 1 False 0
                (start_of_tick demo_collab (demo_world (Finite 800) (Finite 600) [0, 1]))))) 0)
       = Vector2d 5 (98 / 100)
   \<and> isDirty (obj_at (heap (fst (update_body demo_collab 1 False 0
                (start_of_tick demo_collab (demo_world (Finite 800) (Finite 600) [0, 1]))))) 10)
   \<and> (\<exists>r. update 2 demo_collab 1 (demo_world (Finite 800) (Finite 600) [0, 1]) = Some r
          \<and> calls (snd r)
              = [Call_QuadTree_clear, Call_insertContainer, Call_bodyApplyGravity 0,
                 Call_Body_update 0 1, Write_isDirty 10, Call_Detector_collisions 10,
                 Call_force_set_zero 0, Call_Container_update 1]
          \<and> qt_items (broadphase (snd r)) = [10, 11])
   \<and> map fst (visits 2 demo_collab 1 False [0, 1]
                 (start_of_tick demo_collab (demo_world (Finite 800) (Finite 600) [0, 1])))
       = [0, 1]
   \<and> distinct (map fst (visits 2 demo_collab 1 False [0, 1]
                 (start_of_tick demo_collab (demo_world (Finite 800) (Finite 600) [0, 1]))))
   \<and> 0 \<in> set (bodies (start_of_tick demo_collab (demo_world (Finite 800) (Finite 600) [0, 1])))
   \<and> map fst (visits 3 demo_spawner 1 False [0, 1]
                 (start_of_tick demo_spawner (demo_world (Finite 800) (Finite 600) [0, 1])))
       = [0, 1, 2]"
proof -
  define w where "w = demo_world (Finite 800) (Finite 600) [0, 1]"
  define s where "s = start_of_tick demo_collab w"
  define u where "u = update_body demo_collab 1 False 0 s"
  let ?g = "set_body 0 (bodyApplyGravity demo_arith (Vector2d 0 (98 / 100)) (demo_body 10 False))
              demo_heap"
  let ?h2 = "set_body 0 (Body_integrate demo_arith 1 (body_at ?g 0)) ?g"
  let ?h3 = "set_obj 10 ((obj_at ?h2 10)\<lparr>isDirty := True\<rparr>) ?h2"
  have hs: "heap s = demo_heap" and bs: "bodies s = [0, 1]" and bw: "bodies w = [0, 1]"
    and cs: "calls s = [Call_QuadTree_clear, Call_insertContainer]" and cw: "calls w = []"
    by (simp_all add: s_def w_def demo_world_def start_of_tick_def)
  have s1: "skipped False demo_heap 1"
    by (simp add: demo_simps)
  have s0: "\<not> skipped False demo_heap 0"
    by (simp add: demo_simps)
  have bu: "Body_update demo_collab 1 0 (bodies s)
              (set_body 0 (bodyApplyGravity (arith demo_collab) (gravity s) (body_at (heap s) 0))
                 (heap s))
            = (True, ?h2, [])"
    by (simp add: s_def w_def demo_simps)
  have dc: "Detector_collisions demo_collab (broadphase s) (ancestor (body_at (heap s) 0))
              (apply_Set_ops [] (bodies s))
              (if True
               then set_obj (ancestor (body_at (heap s) 0))
                      ((obj_at ?h2 (ancestor (body_at (heap s) 0)))\<lparr>isDirty := True\<rparr>) ?h2
               else ?h2)
            = (?h3, [])"
    by (simp add: s_def w_def demo_simps)
  note t0 = update_one_ordered_pass [where fuel = 2 and env = demo_collab and dt = 1 and w = w
      and p = False and s = s and b = 0 and changed = True and ?h2.0 = ?h2 and ?ops2.0 = "[]"
      and ?h4.0 = ?h3 and ?ops4.0 = "[]"]
  note t1 = update_one_ordered_pass [where fuel = 2 and env = demo_collab and dt = 1 and w = w
      and p = False and s = s and b = 1]
  have c1: "update 2 demo_collab 1 w = tick 2 demo_collab 1 w"
    using t0 by blast
  have c2: "update_body demo_collab 1 False 1 s = (s, [])"
    using t1 s1 unfolding hs by blast
  have c3: "u =
           (s\<lparr>heap := set_body 0 ((body_at ?h3 0)\<lparr>force := Vector2d 0 0\<rparr>) ?h3,
              bodies := apply_Set_ops [] (apply_Set_ops [] (bodies s)),
              calls := calls s @ [Call_bodyApplyGravity 0, Call_Body_update 0 1]
                        @ (if True then [Write_isDirty (ancestor (body_at (heap s) 0))] else [])
                        @ [Call_Detector_collisions (ancestor (body_at (heap s) 0)),
                           Call_force_set_zero 0]\<rparr>,
            [] @ [])"
    using t0 s0 bu dc unfolding hs u_def by blast
  have f: "force (body_at (heap (fst u)) 0) = Vector2d 0 0"
    unfolding c3 by (simp add: set_body_def)
  have v: "vel (body_at (heap (fst u)) 0) = Vector2d 5 (98 / 100)"
    unfolding c3 by (simp add: demo_simps)
  have d: "isDirty (obj_at (heap (fst u)) 10)"
    unfolding c3 by (simp add: set_body_def set_obj_def)
  have st: "skipped False (heap (fst u)) 1"
    unfolding c3 by (simp add: demo_simps)
  have su: "snd u = []"
    unfolding c3 by simp
  have la: "leaves_set_alone demo_collab"
    by (simp add: leaves_set_alone_def demo_collab_def)
  then have an: "adds_no_body demo_collab"
    by (rule leaves_set_alone_adds_no_body)
  have len: "length (bodies w) \<le> 2"
    by (simp add: bw)
  have sp: "state_isPaused demo_collab = False"
    by (simp add: demo_collab_def)
  note tD = t0 [THEN conjunct2, THEN conjunct2, THEN conjunct2, THEN conjunct1]
  note tF = t0 [THEN conjunct2, THEN conjunct2, THEN conjunct2, THEN conjunct2, THEN conjunct2,
                THEN conjunct1]
  note tG = t0 [THEN conjunct2, THEN conjunct2, THEN conjunct2, THEN conjunct2, THEN conjunct2,
                THEN conjunct2]
  note tE = t0 [THEN conjunct2, THEN conjunct2, THEN conjunct2, THEN conjunct2, THEN conjunct1]
  from tF an len obtain r where r: "update 2 demo_collab 1 w = Some r"
    by blast
  have dw: "distinct (bodies w)"
    by (simp add: bw)
  have c6: "distinct (map fst (visits 2 demo_collab 1 False [0, 1] s))"
    using tF an len dw unfolding sp bw s_def by blast
  have c5: "map fst (visits 2 demo_collab 1 False [0, 1] s) = [0, 1]"
    using tG la len unfolding sp bw s_def by blast
  have vs: "visits 2 demo_collab 1 False [0, 1] s = [(0, s), (1, fst u)]"
    unfolding numeral_2_eq_2
    using st by (simp add: u_def [symmetric] su update_body_skipped)
  have "(0, s) \<in> set (visits 2 demo_collab 1 (state_isPaused demo_collab) (bodies w)
                         (start_of_tick demo_collab w))"
    unfolding sp bw s_def [symmetric] vs by simp
  with tE have c7: "0 \<in> set (bodies s)"
    by blast
  have bc: "body_calls demo_collab 1 0 s
              = [Call_bodyApplyGravity 0, Call_Body_update 0 1, Write_isDirty 10,
                 Call_Detector_collisions 10, Call_force_set_zero 0]"
    unfolding body_calls_def bu by (simp add: hs demo_heap_def demo_body_def)
  have tc: "tick_calls demo_collab 1 False (visits 2 demo_collab 1 False [0, 1] s)
              = [Call_bodyApplyGravity 0, Call_Body_update 0 1, Write_isDirty 10,
                 Call_Detector_collisions 10, Call_force_set_zero 0]"
    unfolding vs using s0 st by (simp add: hs bc)
  have cr0: "calls (snd r) =
          calls w @ [Call_QuadTree_clear, Call_insertContainer]
            @ tick_calls demo_collab 1 (state_isPaused demo_collab)
                (visits 2 demo_collab 1 (state_isPaused demo_collab) (bodies w) s)
            @ [Call_Container_update 1]"
    using tD r unfolding s_def by blast
  have "broadphase (snd r) =
          QuadTree_insertContainer demo_collab (heap w) (QuadTree_clear None (broadphase w))"
    using tD r by blast
  then have qr: "qt_items (broadphase (snd r)) = [10, 11]"
    by (simp add: demo_collab_def)
  from cr0 have cr: "calls (snd r)
              = [Call_QuadTree_clear, Call_insertContainer, Call_bodyApplyGravity 0,
                 Call_Body_update 0 1, Write_isDirty 10, Call_Detector_collisions 10,
                 Call_force_set_zero 0, Call_Container_update 1]"
    unfolding sp bw tc cw by simp
  define s' where "s' = start_of_tick demo_spawner w"
  define u' where "u' = update_body demo_spawner 1 False 0 s'"
  have sn: "snd u' = [Set_op_add 2]"
    by (simp add: u'_def s'_def w_def update_body_def demo_spawner_def demo_simps
          record_call_def Let_def)
  have st': "skipped False (heap (fst u')) 1" "skipped False (heap (fst u')) 2"
    by (simp_all add: u'_def s'_def w_def update_body_def demo_spawner_def demo_simps
          record_call_def Let_def)
  have bs': "bodies s' = [0, 1]"
    by (simp add: s'_def w_def demo_world_def start_of_tick_def)
  have vs': "map fst (visits 3 demo_spawner 1 False [0, 1] s') = [0, 1, 2]"
    unfolding numeral_3_eq_3
    using st' by (simp add: u'_def [symmetric] bs' sn remaining_def update_body_skipped)
  from c1 s1 c2 s0 f v d r cr qr c5 c6 c7 vs' show ?thesis
    unfolding u_def u'_def s_def s'_def w_def by blast
qed

subsection \<open>Gravity\<close>

lemma units_exact_demo_arith: "units_exact demo_arith"
  by (simp add: units_exact_def demo_arith_def)

lemma units_exactD:
  assumes "units_exact ar"
  shows "num_mul ar 1 x = x" "num_mul ar x 1 = x" "num_div ar x 1 = x"
    "num_add ar 0 x = x" "num_add ar x 0 = x"
  using assms by (simp_all add: units_exact_def)

text \<open>
  C2, as amended. \<open>bodyApplyGravity\<close> leaves the body as it is when \<open>ignoreGravity\<close>
  is set or \<open>gravityScale\<close> is zero; otherwise it adds (mass times gravity) times
  \<open>gravityScale\<close> to the force on each axis, with the sum and the products of the
  numbers, and changes nothing else. With a sum and a product that are exact at zero and
  at one, a body with \<open>gravityScale\<close> 1 and mass 1 under the gravity (0, 0.98) has
  afterwards the force it had on the first axis and the sum of its force and 0.98 on the
  second; if it had no force it has the force (0, 0.98), and the integrator of section
  4.3 with \<open>dt\<close> 1 then adds 0.98 to its vertical velocity and leaves the horizontal one.
\<close>

theorem bodyApplyGravity_adds_scaled_weight:
  "(ignoreGravity body \<or> gravityScale body = 0 \<longrightarrow> bodyApplyGravity ar g body = body)
   \<and> (\<not> ignoreGravity body \<and> gravityScale body \<noteq> 0 \<longrightarrow>
        bodyApplyGravity ar g body =
          body\<lparr>force := Vector2d
            (num_add ar (vec_x (force body))
               (num_mul ar (num_mul ar (mass body) (vec_x g)) (gravityScale body)))
            (num_add ar (vec_y (force body))
               (num_mul ar (num_mul ar (mass body) (vec_y g)) (gravityScale body)))\<rparr>)
   \<and> (units_exact ar \<and> \<not> ignoreGravity body \<and> gravityScale body = 1 \<and> mass body = 1 \<longrightarrow>
        force (bodyApplyGravity ar (Vector2d 0 (98 / 100)) body) =
          Vector2d (vec_x (force body)) (num_add ar (vec_y (force body)) (98 / 100))
        \<and> (force body = Vector2d 0 0 \<longrightarrow>
             force (bodyApplyGravity ar (Vector2d 0 (98 / 100)) body) = Vector2d 0 (98 / 100)
             \<and> vel (Body_integrate ar 1 (bodyApplyGravity ar (Vector2d 0 (98 / 100)) body)) =
                 Vector2d (vec_x (vel body)) (num_add ar (vec_y (vel body)) (98 / 100))))"
proof (intro conjI impI)
  show "bodyApplyGravity ar g body = body" if "ignoreGravity body \<or> gravityScale body = 0"
    using that by (auto simp: bodyApplyGravity_def)
  show "bodyApplyGravity ar g body =
          body\<lparr>force := Vector2d
            (num_add ar (vec_x (force body))
               (num_mul ar (num_mul ar (mass body) (vec_x g)) (gravityScale body)))
            (num_add ar (vec_y (force body))
               (num_mul ar (num_mul ar (mass body) (vec_y g)) (gravityScale body)))\<rparr>"
    if "\<not> ignoreGravity body \<and> gravityScale body \<noteq> 0"
    using that by (simp add: bodyApplyGravity_def)
next
  assume a: "units_exact ar \<and> \<not> ignoreGravity body \<and> gravityScale body = 1 \<and> mass body = 1"
  then have u: "units_exact ar" by simp
  from a show f: "force (bodyApplyGravity ar (Vector2d 0 (98 / 100)) body) =
          Vector2d (vec_x (force body)) (num_add ar (vec_y (force body)) (98 / 100))"
    by (simp add: bodyApplyGravity_def units_exactD [OF u])
  assume z: "force body = Vector2d 0 0"
  with f show f0: "force (bodyApplyGravity ar (Vector2d 0 (98 / 100)) body) = Vector2d 0 (98 / 100)"
    by (simp add: units_exactD [OF u])
  have "vel (bodyApplyGravity ar (Vector2d 0 (98 / 100)) body) = vel body"
    "mass (bodyApplyGravity ar (Vector2d 0 (98 / 100)) body) = 1"
    using a by (simp_all add: bodyApplyGravity_def)
  with f0 show "vel (Body_integrate ar 1 (bodyApplyGravity ar (Vector2d 0 (98 / 100)) body)) =
                 Vector2d (vec_x (vel body)) (num_add ar (vec_y (vel body)) (98 / 100))"
    by (simp add: Body_integrate_def units_exactD [OF u])
qed

theorem bodyApplyGravity_adds_scaled_weight_witness:
  "\<not> ignoreGravity (demo_body 10 False) \<and> gravityScale (demo_body 10 False) = 1
   \<and> mass (demo_body 10 False) = 1 \<and> force (demo_body 10 False) = Vector2d 0 0
   \<and> vel (demo_body 10 False) = Vector2d 5 0
   \<and> force (bodyApplyGravity demo_arith (Vector2d 0 (98 / 100)) (demo_body 10 False))
       = Vector2d 0 (98 / 100)
   \<and> vel (Body_integrate demo_arith 1
             (bodyApplyGravity demo_arith (Vector2d 0 (98 / 100)) (demo_body 10 False)))
       = Vector2d 5 (98 / 100)
   \<and> bodyApplyGravity demo_arith (Vector2d 0 (98 / 100)) ((demo_body 10 False)\<lparr>gravityScale := 0\<rparr>)
       = (demo_body 10 False)\<lparr>gravityScale := 0\<rparr>
   \<and> bodyApplyGravity demo_arith (Vector2d 0 (98 / 100)) ((demo_body 10 False)\<lparr>ignoreGravity := True\<rparr>)
       = (demo_body 10 False)\<lparr>ignoreGravity := True\<rparr>
   \<and> bodyApplyGravity demo_arith (Vector2d 3 (98 / 100)) ((demo_body 10 False)\<lparr>gravityScale := 2\<rparr>)
       = (demo_body 10 False)\<lparr>gravityScale := 2, force := Vector2d 6 (196 / 100)\<rparr>"
proof -
  let ?b = "demo_body 10 False"
  let ?g = "Vector2d 0 (98 / 100)"
  have a: "\<not> ignoreGravity ?b" "gravityScale ?b = 1" "mass ?b = 1" "force ?b = Vector2d 0 0"
    "vel ?b = Vector2d 5 0"
    by (simp_all add: demo_body_def)
  have z: "gravityScale (?b\<lparr>gravityScale := 0\<rparr>) = 0" "ignoreGravity (?b\<lparr>ignoreGravity := True\<rparr>)"
    by simp_all
  have t: "\<not> ignoreGravity (?b\<lparr>gravityScale := 2\<rparr>) \<and> gravityScale (?b\<lparr>gravityScale := 2\<rparr>) \<noteq> 0"
    by (simp add: demo_body_def)
  have c: "force (bodyApplyGravity demo_arith ?g ?b) = Vector2d 0 (98 / 100)
      \<and> vel (Body_integrate demo_arith 1 (bodyApplyGravity demo_arith ?g ?b)) =
          Vector2d (vec_x (vel ?b)) (num_add demo_arith (vec_y (vel ?b)) (98 / 100))"
    using bodyApplyGravity_adds_scaled_weight [where body = ?b and ar = demo_arith]
      a units_exact_demo_arith
    by blast
  then have c': "force (bodyApplyGravity demo_arith ?g ?b) = Vector2d 0 (98 / 100)"
    "vel (Body_integrate demo_arith 1 (bodyApplyGravity demo_arith ?g ?b)) = Vector2d 5 (98 / 100)"
    by (simp_all add: a demo_arith_def)
  have c0: "bodyApplyGravity demo_arith ?g (?b\<lparr>gravityScale := 0\<rparr>) = ?b\<lparr>gravityScale := 0\<rparr>"
    using bodyApplyGravity_adds_scaled_weight
        [where body = "?b\<lparr>gravityScale := 0\<rparr>" and ar = demo_arith and g = ?g] z(1)
    by blast
  have c1: "bodyApplyGravity demo_arith ?g (?b\<lparr>ignoreGravity := True\<rparr>) = ?b\<lparr>ignoreGravity := True\<rparr>"
    using bodyApplyGravity_adds_scaled_weight
        [where body = "?b\<lparr>ignoreGravity := True\<rparr>" and ar = demo_arith and g = ?g] z(2)
    by blast
  have "bodyApplyGravity demo_arith (Vector2d 3 (98 / 100)) (?b\<lparr>gravityScale := 2\<rparr>) =
          (?b\<lparr>gravityScale := 2\<rparr>)\<lparr>force := Vector2d
            (num_add demo_arith (vec_x (force (?b\<lparr>gravityScale := 2\<rparr>)))
               (num_mul demo_arith (num_mul demo_arith (mass (?b\<lparr>gravityScale := 2\<rparr>))
                  (vec_x (Vector2d 3 (98 / 100)))) (gravityScale (?b\<lparr>gravityScale := 2\<rparr>))))
            (num_add demo_arith (vec_y (force (?b\<lparr>gravityScale := 2\<rparr>)))
               (num_mul demo_arith (num_mul demo_arith (mass (?b\<lparr>gravityScale := 2\<rparr>))
                  (vec_y (Vector2d 3 (98 / 100)))) (gravityScale (?b\<lparr>gravityScale := 2\<rparr>))))\<rparr>"
    using bodyApplyGravity_adds_scaled_weight
        [where body = "?b\<lparr>gravityScale := 2\<rparr>" and ar = demo_arith
           and g = "Vector2d 3 (98 / 100)"] t
    by blast
  then have c2: "bodyApplyGravity demo_arith (Vector2d 3 (98 / 100)) (?b\<lparr>gravityScale := 2\<rparr>)
       = ?b\<lparr>gravityScale := 2, force := Vector2d 6 (196 / 100)\<rparr>"
    by (simp add: demo_arith_def demo_body_def)
  from a c' c0 c1 c2 show ?thesis
    by blast
qed

text \<open>
  The claim as it was stated, that the force is unchanged exactly when \<open>ignoreGravity\<close>
  is set or \<open>gravityScale\<close> is zero, fails in a world without gravity: the body has
  neither guard and keeps its force.
\<close>

theorem bodyApplyGravity_no_op_counterexample:
  "\<not> ignoreGravity (demo_body 10 False) \<and> gravityScale (demo_body 10 False) \<noteq> 0
   \<and> force (bodyApplyGravity demo_arith (Vector2d 0 0) (demo_body 10 False))
       = force (demo_body 10 False)
   \<and> bodyApplyGravity demo_arith (Vector2d 0 0) (demo_body 10 False) = demo_body 10 False"
  by (simp add: bodyApplyGravity_def demo_arith_def demo_body_def)

lemma bodyApplyGravity_no_gravity:
  assumes "units_exact ar" "mass body = 1" "gravityScale body = 1"
  shows "bodyApplyGravity ar (Vector2d 0 0) body = body"
  using assms by (simp add: bodyApplyGravity_def units_exactD)

subsection \<open>Static bodies\<close>

lemma heap_start_of_tick: "heap (start_of_tick env w) = heap w"
  by (simp add: start_of_tick_def)

lemma bodies_start_of_tick: "bodies (start_of_tick env w) = bodies w"
  by (simp add: start_of_tick_def)

lemma static_skipped: "isStatic (body_at h b) \<Longrightarrow> skipped p h b"
  by (simp add: skipped_def)

lemma static_forEach:
  "\<forall>b\<in>set todo. isStatic (body_at (heap w) b) \<Longrightarrow> length todo \<le> fuel \<Longrightarrow>
   forEach_bodies fuel env dt p todo w = Some w"
proof (induction fuel env dt p todo w rule: forEach_bodies.induct)
  case (1 fuel env dt isPaused w)
  then show ?case by simp
next
  case (2 env dt isPaused b todo w)
  then show ?case by simp
next
  case (3 fuel env dt isPaused b todo w)
  then show ?case by (simp add: update_body_skipped static_skipped)
qed

lemma static_visits:
  "\<forall>b\<in>set todo. isStatic (body_at (heap w) b) \<Longrightarrow>
   tick_calls env dt p (visits fuel env dt p todo w) = []"
proof (induction fuel env dt p todo w rule: visits.induct)
  case (1 fuel env dt isPaused w)
  then show ?case by simp
next
  case (2 env dt isPaused b todo w)
  then show ?case by simp
next
  case (3 fuel env dt isPaused b todo w)
  then show ?case by (simp add: update_body_skipped static_skipped)
qed

lemma static_update:
  assumes "\<forall>b\<in>set (bodies w). isStatic (body_at (heap w) b)" "length (bodies w) \<le> fuel"
  shows "calls_of_tick fuel env dt w
           = [Call_QuadTree_clear, Call_insertContainer, Call_Container_update dt]"
proof -
  from assms have
    "forEach_bodies fuel env dt (state_isPaused env) (bodies w) (start_of_tick env w)
       = Some (start_of_tick env w)"
    by (intro static_forEach) (simp_all add: heap_start_of_tick)
  then have u: "update fuel env dt w = Some (end_of_tick env dt (start_of_tick env w))"
    by (simp add: update_eq)
  from assms(1) have
    "tick_calls env dt (state_isPaused env)
       (visits fuel env dt (state_isPaused env) (bodies w) (start_of_tick env w)) = []"
    by (intro static_visits) (simp add: heap_start_of_tick)
  with calls_of_tick_eq [OF u] show ?thesis by simp
qed

lemma tick_calls_mem:
  "c \<in> set (tick_calls env dt p vs) \<Longrightarrow>
   \<exists>(b, s)\<in>set vs. \<not> skipped p (heap s) b \<and> c \<in> set (body_calls env dt b s)"
  by (induction vs) (auto split: if_splits)

lemma body_calls_in_tick_calls:
  "(b, s) \<in> set vs \<Longrightarrow> \<not> skipped p (heap s) b \<Longrightarrow> c \<in> set (body_calls env dt b s) \<Longrightarrow>
   c \<in> set (tick_calls env dt p vs)"
  by (induction vs) auto

lemma body_calls_collisions:
  "Call_Detector_collisions a \<in> set (body_calls env dt b s) \<longleftrightarrow> a = ancestor (body_at (heap s) b)"
  by (auto simp: body_calls_def)

lemma body_calls_update: "Call_Body_update b dt \<in> set (body_calls env dt b s)"
  by (simp add: body_calls_def)

lemma visits_start_set:
  assumes "adds_no_body env" "(b, s) \<in> set (visits fuel env dt p todo w)"
  shows "b \<in> set todo"
proof -
  from assms(2) have "b \<in> set (map fst (visits fuel env dt p todo w))" by force
  with list_emb_set [OF visits_subseq [OF assms(1), of fuel dt p todo w]] show ?thesis
    by blast
qed

text \<open>
  C3. A static body never starts a collision test. In a world whose active bodies are all
  static a tick, given a bound of at least the size of the set, calls nothing but the two
  quadtree operations and the parent's \<open>update\<close>; and in any world, each call of
  \<open>Detector.collisions\<close> in a tick is made for the owner of a body that the walk reached,
  that was in the active set and not static when it was reached, and that
  \<open>Body.update\<close> has integrated in this tick. That body was in the active set at the
  start of the tick if the code that the walk calls adds no body.
\<close>

theorem static_body_never_initiates:
  "((\<forall>b\<in>set (bodies w). isStatic (body_at (heap w) b)) \<and> length (bodies w) \<le> fuel \<longrightarrow>
      calls_of_tick fuel env dt w
        = [Call_QuadTree_clear, Call_insertContainer, Call_Container_update dt])
   \<and> (Call_Detector_collisions a \<in> set (calls_of_tick fuel env dt w) \<longrightarrow>
      (\<exists>(b, s)\<in>set (visits fuel env dt (state_isPaused env) (bodies w) (start_of_tick env w)).
          b \<in> set (bodies s) \<and> (adds_no_body env \<longrightarrow> b \<in> set (bodies w))
          \<and> \<not> isStatic (body_at (heap s) b)
          \<and> ancestor (body_at (heap s) b) = a
          \<and> Call_Body_update b dt \<in> set (calls_of_tick fuel env dt w)))"
proof (intro conjI impI)
  assume "(\<forall>b\<in>set (bodies w). isStatic (body_at (heap w) b)) \<and> length (bodies w) \<le> fuel"
  then show "calls_of_tick fuel env dt w
      = [Call_QuadTree_clear, Call_insertContainer, Call_Container_update dt]"
    by (simp add: static_update)
next
  let ?p = "state_isPaused env"
  let ?vs = "visits fuel env dt ?p (bodies w) (start_of_tick env w)"
  assume d: "Call_Detector_collisions a \<in> set (calls_of_tick fuel env dt w)"
  then obtain r where r: "update fuel env dt w = Some r"
    by (cases "update fuel env dt w") (simp_all add: calls_of_tick_def)
  note eq = calls_of_tick_eq [OF r]
  from d have "Call_Detector_collisions a \<in> set (tick_calls env dt ?p ?vs)"
    by (simp add: eq)
  from tick_calls_mem [OF this]
  obtain b s where bs: "(b, s) \<in> set ?vs" "\<not> skipped ?p (heap s) b"
    "Call_Detector_collisions a \<in> set (body_calls env dt b s)"
    by auto
  from bs(1) have m: "b \<in> set (bodies s)"
    by (rule visits_in_set [rotated]) (simp add: start_of_tick_def)
  have m0: "b \<in> set (bodies w)" if "adds_no_body env"
    using visits_start_set [OF that bs(1)] .
  from bs(2) have ns: "\<not> isStatic (body_at (heap s) b)"
    by (simp add: skipped_def)
  from bs(3) have a: "ancestor (body_at (heap s) b) = a"
    by (simp add: body_calls_collisions)
  have "Call_Body_update b dt \<in> set (tick_calls env dt ?p ?vs)"
    using bs(1,2) body_calls_update by (rule body_calls_in_tick_calls)
  then have u: "Call_Body_update b dt \<in> set (calls_of_tick fuel env dt w)"
    by (simp add: eq)
  from bs(1) m m0 ns a u
  show "\<exists>(b, s)\<in>set ?vs.
          b \<in> set (bodies s) \<and> (adds_no_body env \<longrightarrow> b \<in> set (bodies w))
          \<and> \<not> isStatic (body_at (heap s) b)
          \<and> ancestor (body_at (heap s) b) = a
          \<and> Call_Body_update b dt \<in> set (calls_of_tick fuel env dt w)"
    by blast
qed

subsection \<open>The small world, run\<close>

lemma demo_update_body_0:
  "update_body demo_collab 1 False 0
     (start_of_tick demo_collab (demo_world (Finite 800) (Finite 600) [0, 1]))
   = ((start_of_tick demo_collab (demo_world (Finite 800) (Finite 600) [0, 1]))
        \<lparr>heap := \<lparr>body_at = (\<lambda>b. if b = 0
                       then (demo_body 10 False)\<lparr>vel := Vector2d 5 (98 / 100)\<rparr>
                       else demo_body 11 True),
                  obj_at = (\<lambda>a. \<lparr>updateWhenPaused = False, inViewport = True,
                                  alwaysUpdate = False, isDirty = (a = 10)\<rparr>)\<rparr>,
          calls := [Call_QuadTree_clear, Call_insertContainer, Call_bodyApplyGravity 0,
                    Call_Body_update 0 1, Write_isDirty 10, Call_Detector_collisions 10,
                    Call_force_set_zero 0]\<rparr>,
      [])"
  by (simp add: update_body_def demo_simps record_call_def Let_def fun_eq_iff)

lemma demo_update:
  "update 2 demo_collab 1 (demo_world (Finite 800) (Finite 600) [0, 1])
   = Some (True,
       (start_of_tick demo_collab (demo_world (Finite 800) (Finite 600) [0, 1]))
        \<lparr>heap := \<lparr>body_at = (\<lambda>b. if b = 0
                       then (demo_body 10 False)\<lparr>vel := Vector2d 5 (98 / 100)\<rparr>
                       else demo_body 11 True),
                  obj_at = (\<lambda>a. \<lparr>updateWhenPaused = False, inViewport = True,
                                  alwaysUpdate = False, isDirty = (a = 10)\<rparr>)\<rparr>,
          calls := [Call_QuadTree_clear, Call_insertContainer, Call_bodyApplyGravity 0,
                    Call_Body_update 0 1, Write_isDirty 10, Call_Detector_collisions 10,
                    Call_force_set_zero 0, Call_Container_update 1]\<rparr>)"
proof -
  define s where "s = start_of_tick demo_collab (demo_world (Finite 800) (Finite 600) [0, 1])"
  define u where "u = update_body demo_collab 1 False 0 s"
  note u0 = demo_update_body_0 [folded s_def, folded u_def]
  have bs: "bodies s = [0, 1]"
    by (simp add: s_def start_of_tick_def demo_world_def)
  have sk: "skipped False (heap (fst u)) 1"
    unfolding u0 by (simp add: skipped_def demo_body_def)
  have "forEach_bodies 2 demo_collab 1 False [0, 1] s = Some (fst u)"
    unfolding numeral_2_eq_2
    using sk by (simp add: u_def [symmetric] u0 [THEN arg_cong, of snd] update_body_skipped)
  then have "update 2 demo_collab 1 (demo_world (Finite 800) (Finite 600) [0, 1])
      = Some (end_of_tick demo_collab 1 (fst u))"
    unfolding update_eq s_def [symmetric]
    by (simp add: demo_collab_def demo_world_def)
  then show ?thesis
    unfolding u0 s_def [symmetric]
    by (simp add: end_of_tick_def demo_collab_def)
qed

lemma demo_calls_of_tick:
  "calls_of_tick 2 demo_collab 1 (demo_world (Finite 800) (Finite 600) [0, 1])
   = [Call_QuadTree_clear, Call_insertContainer, Call_bodyApplyGravity 0,
      Call_Body_update 0 1, Write_isDirty 10, Call_Detector_collisions 10,
      Call_force_set_zero 0, Call_Container_update 1]"
  unfolding calls_of_tick_def demo_update by (simp add: demo_world_def)

theorem static_body_never_initiates_witness:
  "bodies (demo_world (Finite 800) (Finite 600) [1]) = [1]
   \<and> isStatic (body_at (heap (demo_world (Finite 800) (Finite 600) [1])) 1)
   \<and> calls_of_tick 1 demo_collab 1 (demo_world (Finite 800) (Finite 600) [1])
       = [Call_QuadTree_clear, Call_insertContainer, Call_Container_update 1]
   \<and> Call_Detector_collisions 10
       \<in> set (calls_of_tick 2 demo_collab 1 (demo_world (Finite 800) (Finite 600) [0, 1]))
   \<and> (\<exists>(b, s)\<in>set (visits 2 demo_collab 1 (state_isPaused demo_collab)
                      (bodies (demo_world (Finite 800) (Finite 600) [0, 1]))
                      (start_of_tick demo_collab (demo_world (Finite 800) (Finite 600) [0, 1]))).
          b \<in> set (bodies s)
          \<and> b \<in> set (bodies (demo_world (Finite 800) (Finite 600) [0, 1]))
          \<and> \<not> isStatic (body_at (heap s) b) \<and> ancestor (body_at (heap s) b) = 10
          \<and> Call_Body_update b 1
              \<in> set (calls_of_tick 2 demo_collab 1 (demo_world (Finite 800) (Finite 600) [0, 1])))"
proof -
  let ?w1 = "demo_world (Finite 800) (Finite 600) [1]"
  let ?w = "demo_world (Finite 800) (Finite 600) [0, 1]"
  have st: "\<forall>b\<in>set (bodies ?w1). isStatic (body_at (heap ?w1) b)"
    by (simp add: demo_world_def demo_heap_def demo_body_def)
  have len: "length (bodies ?w1) \<le> 1"
    by (simp add: demo_world_def)
  have c: "Call_Detector_collisions 10 \<in> set (calls_of_tick 2 demo_collab 1 ?w)"
    unfolding demo_calls_of_tick by simp
  have b1: "bodies ?w1 = [1]" "isStatic (body_at (heap ?w1) 1)"
    by (simp_all add: demo_world_def demo_heap_def demo_body_def)
  have an: "adds_no_body demo_collab"
    by (simp add: adds_no_body_def demo_collab_def)
  have c1: "calls_of_tick 1 demo_collab 1 ?w1
       = [Call_QuadTree_clear, Call_insertContainer, Call_Container_update 1]"
    using static_body_never_initiates [where w = ?w1 and env = demo_collab and dt = 1 and fuel = 1]
      st len by blast
  have c2: "\<exists>(b, s)\<in>set (visits 2 demo_collab 1 (state_isPaused demo_collab) (bodies ?w)
                      (start_of_tick demo_collab ?w)).
          b \<in> set (bodies s) \<and> (adds_no_body demo_collab \<longrightarrow> b \<in> set (bodies ?w))
          \<and> \<not> isStatic (body_at (heap s) b) \<and> ancestor (body_at (heap s) b) = 10
          \<and> Call_Body_update b 1 \<in> set (calls_of_tick 2 demo_collab 1 ?w)"
    using static_body_never_initiates [where w = ?w and env = demo_collab and dt = 1 and fuel = 2
        and a = 10] c by blast
  from c2 an have c3: "\<exists>(b, s)\<in>set (visits 2 demo_collab 1 (state_isPaused demo_collab) (bodies ?w)
                      (start_of_tick demo_collab ?w)).
          b \<in> set (bodies s) \<and> b \<in> set (bodies ?w)
          \<and> \<not> isStatic (body_at (heap s) b) \<and> ancestor (body_at (heap s) b) = 10
          \<and> Call_Body_update b 1 \<in> set (calls_of_tick 2 demo_collab 1 ?w)"
    by blast
  from b1 c1 c c3 show ?thesis
    by blast
qed

subsection \<open>The active set\<close>

text \<open>
  C4. \<open>reset\<close> leaves both the quadtree and the active set empty; the handler of the
  level-loaded event gives the quadtree the current bounds of the world and empties it,
  and changes nothing else, so the active set after the event is the one before it.
\<close>

theorem reset_clears_level_load_keeps_bodies:
  "bodies (reset env w) = []
   \<and> qt_items (broadphase (reset env w)) = []
   \<and> broadphase (reset env w) = QuadTree_clear None (broadphase w)
   \<and> bodies (on_LEVEL_LOADED w) = bodies w
   \<and> on_LEVEL_LOADED w = w\<lparr>broadphase := (broadphase w)\<lparr>qt_bounds := world_bounds w, qt_items := []\<rparr>\<rparr>"
  by (simp add: reset_def on_LEVEL_LOADED_def QuadTree_clear_def Set_clear_def Let_def
           split: prod.splits)

text \<open>
  C5. Adding a body twice leaves the world as adding it once does; a body that is added
  and then removed is not in the active set; and a set without duplicates stays without
  duplicates under \<open>addBody\<close> and \<open>removeBody\<close>.
\<close>

theorem addBody_idempotent_removeBody_absent:
  "addBody b (addBody b w) = addBody b w
   \<and> b \<notin> set (bodies (removeBody b (addBody b w)))
   \<and> (distinct (bodies w) \<longrightarrow> distinct (bodies (addBody b w)) \<and> distinct (bodies (removeBody b w)))"
  by (auto simp: addBody_def removeBody_def Set_add_def Set_delete_def distinct_removeAll)

theorem addBody_idempotent_removeBody_absent_witness:
  "distinct (bodies (demo_world (Finite 800) (Finite 600) [0, 1]))
   \<and> distinct (bodies (addBody 1 (demo_world (Finite 800) (Finite 600) [0, 1])))
   \<and> bodies (addBody 1 (demo_world (Finite 800) (Finite 600) [0, 1])) = [0, 1]
   \<and> bodies (addBody 2 (demo_world (Finite 800) (Finite 600) [0, 1])) = [0, 1, 2]"
proof -
  have d: "distinct (bodies (demo_world (Finite 800) (Finite 600) [0, 1]))"
    by (simp add: demo_world_def)
  have e: "bodies (addBody 1 (demo_world (Finite 800) (Finite 600) [0, 1])) = [0, 1]"
     "bodies (addBody 2 (demo_world (Finite 800) (Finite 600) [0, 1])) = [0, 1, 2]"
    by (simp_all add: demo_world_def addBody_def Set_add_def)
  show ?thesis
    using addBody_idempotent_removeBody_absent [of 1 "demo_world (Finite 800) (Finite 600) [0, 1]"] d e
    by simp
qed

lemma bodies_end_of_tick:
  "bodies (snd (end_of_tick env dt w))
     = apply_Set_ops (snd (snd (Container_update env dt (bodies w) (heap w)))) (bodies w)"
  by (simp add: end_of_tick_def split: prod.splits)

lemma bodies_update:
  assumes "update fuel env dt w = Some r"
  shows "bodies (snd r) = apply_Set_ops (called_Set_ops fuel env dt w) (bodies w)"
proof -
  from assms obtain w3 where
    f: "forEach_bodies fuel env dt (state_isPaused env) (bodies w) (start_of_tick env w) = Some w3"
    and r: "r = end_of_tick env dt w3"
    by (auto simp: update_eq)
  from bodies_forEach [OF f] show ?thesis
    by (simp add: r f bodies_end_of_tick called_Set_ops_def apply_Set_ops_append
          bodies_start_of_tick)
qed

lemma demo_spawner_update_body_0:
  "update_body demo_spawner 1 False 0
     (start_of_tick demo_spawner (demo_world (Finite 800) (Finite 600) [0, 1]))
   = ((start_of_tick demo_spawner (demo_world (Finite 800) (Finite 600) [0, 1]))
        \<lparr>heap := \<lparr>body_at = (\<lambda>b. if b = 0
                       then (demo_body 10 False)\<lparr>vel := Vector2d 5 (98 / 100)\<rparr>
                       else demo_body 11 True),
                  obj_at = (\<lambda>a. \<lparr>updateWhenPaused = False, inViewport = True,
                                  alwaysUpdate = False, isDirty = (a = 10)\<rparr>)\<rparr>,
          bodies := [0, 1, 2],
          calls := [Call_QuadTree_clear, Call_insertContainer, Call_bodyApplyGravity 0,
                    Call_Body_update 0 1, Write_isDirty 10, Call_Detector_collisions 10,
                    Call_force_set_zero 0]\<rparr>,
      [Set_op_add 2])"
  by (simp add: update_body_def demo_spawner_def demo_simps record_call_def Let_def fun_eq_iff
        apply_Set_ops_def Set_add_def)

lemma demo_spawner_update:
  "\<exists>r. update 3 demo_spawner 1 (demo_world (Finite 800) (Finite 600) [0, 1]) = Some r
      \<and> bodies (snd r) = [0, 1, 2]
      \<and> called_Set_ops 3 demo_spawner 1 (demo_world (Finite 800) (Finite 600) [0, 1]) = [Set_op_add 2]"
proof -
  define w where "w = demo_world (Finite 800) (Finite 600) [0, 1]"
  define s where "s = start_of_tick demo_spawner w"
  define u where "u = update_body demo_spawner 1 False 0 s"
  note u0 = demo_spawner_update_body_0 [folded w_def, folded s_def, folded u_def]
  have bs: "bodies s = [0, 1]" "bodies w = [0, 1]"
    by (simp_all add: s_def w_def start_of_tick_def demo_world_def)
  have sk: "skipped False (heap (fst u)) 1" "skipped False (heap (fst u)) 2"
    unfolding u0 by (simp_all add: skipped_def demo_body_def)
  have su: "snd u = [Set_op_add 2]" and bu: "bodies (fst u) = [0, 1, 2]"
    unfolding u0 by simp_all
  have f: "forEach_bodies 3 demo_spawner 1 False [0, 1] s = Some (fst u)"
    unfolding numeral_3_eq_3
    using sk by (simp add: u_def [symmetric] su bs remaining_def update_body_skipped)
  have v: "map (\<lambda>(b, s). snd (update_body demo_spawner 1 False b s))
             (visits 3 demo_spawner 1 False [0, 1] s) = [[Set_op_add 2], [], []]"
    unfolding numeral_3_eq_3
    using sk by (simp add: u_def [symmetric] su bs remaining_def update_body_skipped)
  have sp: "state_isPaused demo_spawner = False"
    "Container_update demo_spawner = (\<lambda>dt bs h. (True, h, []))"
    by (simp_all add: demo_spawner_def demo_collab_def)
  have r: "update 3 demo_spawner 1 w = Some (end_of_tick demo_spawner 1 (fst u))"
    unfolding update_eq sp bs s_def [symmetric] f by simp
  have b: "bodies (snd (end_of_tick demo_spawner 1 (fst u))) = [0, 1, 2]"
    by (simp add: bodies_end_of_tick sp bu)
  have c: "called_Set_ops 3 demo_spawner 1 w = [Set_op_add 2]"
    unfolding called_Set_ops_def sp bs s_def [symmetric] f v by simp
  from r b c show ?thesis
    unfolding w_def by blast
qed

lemma called_Set_ops_none:
  assumes "leaves_set_alone env" "\<And>bs h. snd (snd (Container_update env dt bs h)) = []"
  shows "called_Set_ops fuel env dt w = []"
  by (cases "forEach_bodies fuel env dt (state_isPaused env) (bodies w) (start_of_tick env w)")
     (simp_all add: called_Set_ops_def assms(2) ops_update_body_none [OF assms(1)] case_prod_beta)

text \<open>
  C6, as amended. Of the world's own code only \<open>addBody\<close>, \<open>removeBody\<close> and
  \<open>reset\<close> change the active set: \<open>update\<close> does nothing to it but what the code it
  calls does, so it leaves it as it is when that code does nothing to it, and the
  level-loaded handler leaves it as it is. But \<open>World.bodies\<close> is the set itself, so a
  caller who calls \<open>add\<close>, \<open>delete\<close> or \<open>clear\<close> on it changes the active set just
  as the methods do.
\<close>

theorem bodies_changed_by_methods_and_by_accessor:
  "(caller_step fuel env (Do_update dt) w = Some w' \<longrightarrow>
      bodies w' = apply_Set_ops (called_Set_ops fuel env dt w) (bodies w)
      \<and> (called_Set_ops fuel env dt w = [] \<longrightarrow> bodies w' = bodies w))
   \<and> caller_step fuel env Do_LEVEL_LOADED w = Some (on_LEVEL_LOADED w)
   \<and> bodies (on_LEVEL_LOADED w) = bodies w
   \<and> caller_step fuel env (Do_bodies_add b) w = Some (addBody b w)
   \<and> caller_step fuel env (Do_bodies_delete b) w = Some (removeBody b w)
   \<and> caller_step fuel env Do_bodies_clear w = Some (w\<lparr>bodies := []\<rparr>)"
proof (intro conjI impI)
  assume "caller_step fuel env (Do_update dt) w = Some w'"
  then obtain r where "update fuel env dt w = Some r" "w' = snd r"
    by auto
  then show a: "bodies w' = apply_Set_ops (called_Set_ops fuel env dt w) (bodies w)"
    by (simp add: bodies_update)
  assume "called_Set_ops fuel env dt w = []"
  with a show "bodies w' = bodies w"
    by simp
qed (simp_all add: on_LEVEL_LOADED_def addBody_def removeBody_def Set_clear_def)

theorem bodies_changed_by_methods_and_by_accessor_witness:
  "(\<exists>w'. caller_step 2 demo_collab (Do_update 1) (demo_world (Finite 800) (Finite 600) [0, 1])
             = Some w' \<and> bodies w' = [0, 1])
   \<and> called_Set_ops 2 demo_collab 1 (demo_world (Finite 800) (Finite 600) [0, 1]) = []
   \<and> (\<exists>w'. caller_step 3 demo_spawner (Do_update 1) (demo_world (Finite 800) (Finite 600) [0, 1])
             = Some w' \<and> bodies w' = [0, 1, 2])
   \<and> called_Set_ops 3 demo_spawner 1 (demo_world (Finite 800) (Finite 600) [0, 1])
       = [Set_op_add 2]"
proof -
  let ?w = "demo_world (Finite 800) (Finite 600) [0, 1]"
  obtain w' where w': "caller_step 2 demo_collab (Do_update 1) ?w = Some w'"
    unfolding caller_step.simps demo_update by simp
  have la: "leaves_set_alone demo_collab"
    by (simp add: leaves_set_alone_def demo_collab_def)
  have ops: "called_Set_ops 2 demo_collab 1 ?w = []"
    using la by (rule called_Set_ops_none) (simp add: demo_collab_def)
  from bodies_changed_by_methods_and_by_accessor
    [where fuel = 2 and env = demo_collab and dt = 1 and w = ?w and w' = w'] w' ops
  have "bodies w' = bodies ?w"
    by blast
  then have 1: "bodies w' = [0, 1]"
    by (simp add: demo_world_def)
  from demo_spawner_update obtain r where
    r: "update 3 demo_spawner 1 ?w = Some r"
    and ops': "called_Set_ops 3 demo_spawner 1 ?w = [Set_op_add 2]"
    by blast
  then have w'': "caller_step 3 demo_spawner (Do_update 1) ?w = Some (snd r)"
    by simp
  from bodies_changed_by_methods_and_by_accessor
    [where fuel = 3 and env = demo_spawner and dt = 1 and w = ?w and w' = "snd r"] w''
  have "bodies (snd r) = apply_Set_ops (called_Set_ops 3 demo_spawner 1 ?w) (bodies ?w)"
    by blast
  then have 2: "bodies (snd r) = [0, 1, 2]"
    unfolding ops' by (simp add: demo_world_def apply_Set_ops_def Set_add_def)
  from w' 1 ops w'' 2 ops' show ?thesis
    by blast
qed

text \<open>
  The claim as it was stated, that the active set changes through the three methods only,
  fails for a caller who adds a body through \<open>World.bodies\<close>.
\<close>

theorem bodies_accessor_counterexample:
  "caller_step 2 demo_collab (Do_bodies_add 7) (demo_world (Finite 800) (Finite 600) [0, 1])
     = Some ((demo_world (Finite 800) (Finite 600) [0, 1])\<lparr>bodies := [0, 1, 7]\<rparr>)
   \<and> bodies (demo_world (Finite 800) (Finite 600) [0, 1]) = [0, 1]
   \<and> \<not> through_World_method (Do_bodies_add 7)"
  by (simp add: demo_world_def Set_add_def)

subsection \<open>Construction\<close>













section \<open>Properties of the pointer events\<close>

subsection \<open>What any dispatch emits\<close>

lemma quiet_simps [simp]:
  "quiet env []"
  "quiet env (e # es) \<longleftrightarrow> \<not> answered_false env e \<and> quiet env es"
  "quiet env (xs @ ys) \<longleftrightarrow> quiet env xs \<and> quiet env ys"
  by (auto simp: quiet_def)

lemma stops_at_false_Nil [simp]: "stops_at_false env []"
  by (simp add: stops_at_false_def)

lemma quiet_stops: "quiet env new \<Longrightarrow> stops_at_false env new"
  by (auto simp: quiet_def stops_at_false_def dest: in_set_butlastD)

lemma stops_at_false_append:
  "quiet env xs \<Longrightarrow> stops_at_false env ys \<Longrightarrow> stops_at_false env (xs @ ys)"
  by (cases "ys = []") (auto simp: quiet_def stops_at_false_def butlast_append dest: in_set_butlastD)

lemma invoke_callbacks_eq:
  "invoke_callbacks env r p cs out = (\<not> quiet env (invoked env r p cs), out @ invoked env r p cs)"
  by (induction cs arbitrary: out) (simp_all add: answered_false_def)

lemma invoked_subset: "e \<in> set (invoked env r p cs) \<Longrightarrow> \<exists>c\<in>set cs. e = Callback_invoked r c p"
  by (induction cs) (auto split: if_splits)

lemma invoked_stops: "stops_at_false env (invoked env r p cs)"
proof (induction cs)
  case Nil
  then show ?case by simp
next
  case (Cons c cs)
  show ?case
  proof (cases "callback_returns_false env c p")
    case True
    then show ?thesis by (simp add: stops_at_false_def)
  next
    case False
    have "stops_at_false env ([Callback_invoked r c p] @ invoked env r p cs)"
      by (rule stops_at_false_append) (simp_all add: False answered_false_def Cons.IH)
    with False show ?thesis by simp
  qed
qed

lemma triggerEvent_eq:
  "triggerEvent env h ty p pid out =
     (\<not> quiet env (triggered env h ty p),
      (if map_of (callbacks h) (property_key ty) = None then h else h\<lparr>pointerId := pid\<rparr>),
      out @ triggered env h ty p)"
  by (simp add: triggerEvent_def triggered_def invoke_callbacks_eq split: option.splits)

lemma triggered_stops: "stops_at_false env (triggered env h ty p)"
  by (simp add: triggered_def invoked_stops split: option.splits)

lemma triggered_subset:
  assumes that: "e \<in> set (triggered env h ty p)"
  shows "\<exists>cbs c. map_of (callbacks h) (property_key ty) = Some cbs \<and> c \<in> set cbs
      \<and> e = Callback_invoked (region h) c p"
proof (cases "map_of (callbacks h) (property_key ty)")
  case None
  with that show ?thesis by (simp add: triggered_def)
next
  case (Some cbs)
  with that have "e \<in> set (invoked env (region h) p (rev cbs))"
    by (simp add: triggered_def)
  from invoked_subset [OF this] Some show ?thesis by auto
qed

lemma triggered_upd [simp]:
  "triggered env (h\<lparr>pointerId := pid\<rparr>) ty p = triggered env h ty p"
  by (simp add: triggered_def split: option.splits)

lemma triggered_cong:
  "region h' = region h \<Longrightarrow> callbacks h' = callbacks h \<Longrightarrow>
   triggered env h' ty p = triggered env h ty p"
  by (simp add: triggered_def split: option.splits)

lemma same_registration_simps [simp]:
  "same_registration h h"
  "same_registration h (h\<lparr>pointerId := pid\<rparr>)"
  by (simp_all add: same_registration_def)

lemma switch_type_general:
  assumes "switch_type env act handled h p inB out = (handled', h', out')"
  shows "\<exists>new. out' = out @ new \<and> same_registration h h'
            \<and> (\<forall>e\<in>set new. \<exists>c. e = Callback_invoked (region h) c p)
            \<and> stops_at_false env new \<and> (\<not> quiet env new \<longrightarrow> handled') \<and> (handled \<longrightarrow> handled')"
  using assms
  unfolding switch_type_def triggerEvent_eq Let_def
  by (auto simp: same_registration_def triggered_stops stops_at_false_append
           split: if_splits dest!: triggered_subset)

lemma same_frame_refl [simp]: "same_frame s s"
  by (simp add: same_frame_def)

lemma same_frame_trans: "same_frame s s' \<Longrightarrow> same_frame s' s'' \<Longrightarrow> same_frame s s''"
  by (simp add: same_frame_def)

lemma same_frame_table: "same_frame s s' \<Longrightarrow> same_table s s'"
  by (simp add: same_frame_def same_table_def)

lemma same_table_trans: "same_table s s' \<Longrightarrow> same_table s' s'' \<Longrightarrow> same_table s s''"
  by (simp add: same_table_def)

lemma dispatch_candidate_general:
  assumes "dispatch_candidate env c (handled, p, s) = (handled', p', s')"
  shows "\<exists>new. emitted s' = emitted s @ new \<and> same_frame s s'
           \<and> (\<forall>e\<in>set new. \<exists>h cb q. eventHandlers s c = Some h \<and> e = Callback_invoked (region h) cb q)
           \<and> stops_at_false env new \<and> (\<not> quiet env new \<longrightarrow> handled') \<and> (handled \<longrightarrow> handled')"
proof (cases "eventHandlers s c")
  case None
  with assms show ?thesis by (simp add: dispatch_candidate_def)
next
  case (Some h)
  show ?thesis
  proof (cases "region_isKinematic env c")
    case True
    with assms Some show ?thesis by (simp add: dispatch_candidate_def)
  next
    case False
    let ?p = "pointer_for_region env (region h) p"
    let ?inB = "region_contains env (region h) (gameX ?p) (gameY ?p)"
    obtain hd1 h1 out1 where sw:
      "switch_type env (activeEventList s) handled h ?p ?inB (emitted s) = (hd1, h1, out1)"
      by (cases "switch_type env (activeEventList s) handled h ?p ?inB (emitted s)") auto
    from assms Some False sw
    have res: "handled' = hd1" "s' = s\<lparr>eventHandlers := (eventHandlers s)(c \<mapsto> h1), emitted := out1\<rparr>"
      by (simp_all add: dispatch_candidate_def Let_def)
    from switch_type_general [OF sw]
    obtain new where new: "out1 = emitted s @ new" "same_registration h h1"
      "\<forall>e\<in>set new. \<exists>cb. e = Callback_invoked (region h) cb ?p"
      "stops_at_false env new" "\<not> quiet env new \<longrightarrow> hd1" "handled \<longrightarrow> hd1"
      by blast
    have "same_frame s s'"
      using new(2) Some by (auto simp: res same_frame_def registration_def same_registration_def)
    with new res Some show ?thesis
      by auto
  qed
qed

lemma from_candidates_head:
  "eventHandlers s c = Some h \<Longrightarrow> from_candidates s (c # cs) (Callback_invoked (region h) cb q)"
  unfolding from_candidates_def registration_def by force

lemma from_candidates_tail:
  "from_candidates s1 cs e \<Longrightarrow> same_frame s s1 \<Longrightarrow> from_candidates s (c # cs) e"
  unfolding from_candidates_def same_frame_def by (metis list.set_intros(2))

lemma dispatch_candidates_general:
  assumes "dispatch_candidates env cs (handled, p, s) = (handled', p', s')"
  shows "\<exists>new. emitted s' = emitted s @ new \<and> same_frame s s'
           \<and> (\<forall>e\<in>set new. from_candidates s cs e)
           \<and> stops_at_false env new \<and> (\<not> quiet env new \<longrightarrow> handled') \<and> (handled \<longrightarrow> handled')"
  using assms
proof (induction cs arbitrary: handled p s)
  case Nil
  then show ?case by simp
next
  case (Cons c cs)
  obtain hd1 p1 s1 where d1: "dispatch_candidate env c (handled, p, s) = (hd1, p1, s1)"
    by (cases "dispatch_candidate env c (handled, p, s)") auto
  from dispatch_candidate_general [OF d1]
  obtain new1 where n1: "emitted s1 = emitted s @ new1" "same_frame s s1"
    "\<forall>e\<in>set new1. \<exists>h cb q. eventHandlers s c = Some h \<and> e = Callback_invoked (region h) cb q"
    "stops_at_false env new1" "\<not> quiet env new1 \<longrightarrow> hd1" "handled \<longrightarrow> hd1"
    by blast
  have n1': "\<forall>e\<in>set new1. from_candidates s (c # cs) e"
  proof
    fix e assume "e \<in> set new1"
    with n1(3) obtain h cb q where "eventHandlers s c = Some h" "e = Callback_invoked (region h) cb q"
      by blast
    then show "from_candidates s (c # cs) e"
      by (simp add: from_candidates_head)
  qed
  show ?case
  proof (cases hd1)
    case True
    with Cons.prems d1 have eq: "handled' = hd1" "s' = s1" by simp_all
    show ?thesis
      unfolding eq using n1(1,2,4,5,6) n1' by blast
  next
    case False
    with Cons.prems d1 have "dispatch_candidates env cs (hd1, p1, s1) = (handled', p', s')"
      by simp
    from Cons.IH [OF this]
    obtain new2 where n2: "emitted s' = emitted s1 @ new2" "same_frame s1 s'"
      "\<forall>e\<in>set new2. from_candidates s1 cs e"
      "stops_at_false env new2" "\<not> quiet env new2 \<longrightarrow> handled'" "hd1 \<longrightarrow> handled'"
      by blast
    from False n1(5) have q1: "quiet env new1" by blast
    have a: "\<forall>e\<in>set (new1 @ new2). from_candidates s (c # cs) e"
      using n1' n2(3) n1(2) by (auto intro: from_candidates_tail)
    have b: "stops_at_false env (new1 @ new2)"
      using q1 n2(4) by (rule stops_at_false_append)
    have c: "emitted s' = emitted s @ (new1 @ new2)"
      using n1(1) n2(1) by simp
    have d: "same_frame s s'"
      using n1(2) n2(2) by (rule same_frame_trans)
    have e: "\<not> quiet env (new1 @ new2) \<longrightarrow> handled'"
      using q1 n2(5) by simp
    have f: "handled \<longrightarrow> handled'"
      using n1(6) False by simp
    from a b c d e f show ?thesis by blast
  qed
qed

lemma from_candidates_registered: "from_candidates s cs e \<Longrightarrow> registered_or_move s e"
  unfolding from_candidates_def registered_or_move_def by fastforce

lemma registered_or_move_cong: "same_table s s' \<Longrightarrow> registered_or_move s' e = registered_or_move s e"
  by (simp add: same_table_def registered_or_move_def split: Emitted.splits)

lemma dispatch_pointer_stale:
  "stale pointer s \<Longrightarrow>
   dispatch_pointer env pointer (handled, s) = (handled, s\<lparr>T_POINTERS := T_POINTERS s @ [pointer]\<rparr>)"
  by (simp add: dispatch_pointer_def stale_def)

lemma dispatch_pointer_general:
  assumes "dispatch_pointer env pointer (handled, s) = (handled', s')"
  shows "\<exists>new. emitted s' = emitted s @ new \<and> same_table s s'
           \<and> activeEventList s' = activeEventList s
           \<and> lastTimeStamp s' =
               (if isNormalized pointer \<and> timeStamp pointer \<noteq> None \<and> \<not> stale pointer s
                then the (timeStamp pointer) else lastTimeStamp s)
           \<and> (\<forall>e\<in>set new. registered_or_move s e)"
proof (cases "stale pointer s")
  case True
  with assms show ?thesis
    by (auto simp: dispatch_pointer_stale same_table_def registration_def)
next
  case False
  let ?s1 = "if isNormalized pointer \<and> timeStamp pointer \<noteq> None
             then s\<lparr>lastTimeStamp := the (timeStamp pointer)\<rparr> else s"
  let ?s2 = "?s1\<lparr>currentPointer :=
                Some (Rect (gameWorldX pointer) (gameWorldY pointer)
                        (ptr_width pointer) (ptr_height pointer))\<rparr>"
  let ?mv = "ptr_type pointer \<noteq> None \<and> the (ptr_type pointer) \<in> set POINTER_MOVE"
  let ?p = "pointer\<lparr>gameX := gameScreenX pointer, gameLocalX := gameScreenX pointer,
                    gameY := gameScreenY pointer, gameLocalY := gameScreenY pointer\<rparr>"
  let ?p3 = "if ?mv then ?p else pointer"
  let ?s3 = "if ?mv then ?s2\<lparr>emitted := emitted ?s2 @ [Emit_POINTERMOVE ?p]\<rparr> else ?s2"
  obtain hd4 p4 s4 where d:
    "dispatch_candidates env (rev (candidates_of env ?p3)) (handled, ?p3, ?s3) = (hd4, p4, s4)"
    by (cases "dispatch_candidates env (rev (candidates_of env ?p3)) (handled, ?p3, ?s3)") auto
  have dp: "dispatch_pointer env pointer (handled, s) = (hd4, s4\<lparr>T_POINTERS := T_POINTERS s4 @ [p4]\<rparr>)"
    using False d by (auto simp: dispatch_pointer_def stale_def Let_def)
  from dispatch_candidates_general [OF d]
  obtain new where n: "emitted s4 = emitted ?s3 @ new" "same_frame ?s3 s4"
    "\<forall>e\<in>set new. from_candidates ?s3 (rev (candidates_of env ?p3)) e"
    by blast
  have t3: "same_table s ?s3"
    by (simp add: same_table_def registration_def)
  have e3: "emitted ?s3 = emitted s @ (if ?mv then [Emit_POINTERMOVE ?p] else [])"
    by simp
  have a3: "activeEventList ?s3 = activeEventList s"
    "lastTimeStamp ?s3 = (if isNormalized pointer \<and> timeStamp pointer \<noteq> None
                then the (timeStamp pointer) else lastTimeStamp s)"
    by auto
  have r: "\<forall>e\<in>set ((if ?mv then [Emit_POINTERMOVE ?p] else []) @ new). registered_or_move s e"
    using n(3) registered_or_move_cong [OF t3]
    by (auto dest!: from_candidates_registered simp: registered_or_move_def)
  have t4: "same_table s s4"
    using t3 same_frame_table [OF n(2)] by (rule same_table_trans)
  have l4: "lastTimeStamp s4 = lastTimeStamp ?s3" "activeEventList s4 = activeEventList ?s3"
    using n(2) by (simp_all add: same_frame_def)
  have s': "s' = s4\<lparr>T_POINTERS := T_POINTERS s4 @ [p4]\<rparr>"
    using assms dp by simp
  have "emitted s' = emitted s @ ((if ?mv then [Emit_POINTERMOVE ?p] else []) @ new)"
    unfolding s' using n(1) e3 by simp
  moreover have "same_table s s'"
    unfolding s' using t4 by (simp add: same_table_def registration_def)
  moreover have "activeEventList s' = activeEventList s"
    unfolding s' using l4(2) a3(1) by simp
  moreover have "lastTimeStamp s' =
               (if isNormalized pointer \<and> timeStamp pointer \<noteq> None \<and> \<not> stale pointer s
                then the (timeStamp pointer) else lastTimeStamp s)"
    unfolding s' using l4(1) a3(2) False by simp
  ultimately show ?thesis using r by blast
qed

lemma dispatchEvent_fold_general:
  assumes "foldl (\<lambda>st pointer. dispatch_pointer env pointer st) (handled, s) ps = (handled', s')"
  shows "\<exists>new. emitted s' = emitted s @ new \<and> same_table s s'
           \<and> (\<forall>e\<in>set new. registered_or_move s e)"
  using assms
proof (induction ps arbitrary: handled s)
  case Nil
  then show ?case by (auto simp: same_table_def)
next
  case (Cons p ps)
  obtain hd1 s1 where d: "dispatch_pointer env p (handled, s) = (hd1, s1)"
    by (cases "dispatch_pointer env p (handled, s)") auto
  from dispatch_pointer_general [OF d]
  obtain new1 where n1: "emitted s1 = emitted s @ new1" "same_table s s1"
    "\<forall>e\<in>set new1. registered_or_move s e"
    by blast
  from Cons.prems d
  have "foldl (\<lambda>st pointer. dispatch_pointer env pointer st) (hd1, s1) ps = (handled', s')"
    by simp
  from Cons.IH [OF this]
  obtain new2 where n2: "emitted s' = emitted s1 @ new2" "same_table s1 s'"
    "\<forall>e\<in>set new2. registered_or_move s1 e"
    by blast
  have a: "emitted s' = emitted s @ (new1 @ new2)"
    using n1(1) n2(1) by simp
  have b: "same_table s s'"
    using n1(2) n2(2) by (rule same_table_trans)
  have c: "\<forall>e\<in>set (new1 @ new2). registered_or_move s e"
    using n1(3) n2(3) registered_or_move_cong [OF n1(2)] by auto
  from a b c show ?case by blast
qed

lemma dispatchEvent_invokes_registered:
  assumes "handlers_by_region s"
    and "Callback_invoked r cb q \<in> set (emitted_by s (snd (dispatchEvent env ps s)))"
  shows "eventHandlers s r \<noteq> None"
proof -
  obtain handled' s' where d: "dispatchEvent env ps s = (handled', s')"
    by (cases "dispatchEvent env ps s") auto
  then have "foldl (\<lambda>st pointer. dispatch_pointer env pointer st) (False, s) (rev ps) = (handled', s')"
    by (simp add: dispatchEvent_def)
  from dispatchEvent_fold_general [OF this]
  obtain new where n: "emitted s' = emitted s @ new" "\<forall>e\<in>set new. registered_or_move s e"
    by blast
  from assms(2) n(1) have "Callback_invoked r cb q \<in> set new"
    by (simp add: d emitted_by_def)
  with n(2) have "registered_or_move s (Callback_invoked r cb q)"
    by blast
  then obtain c al where "registration s c = Some (r, al)"
    by (auto simp: registered_or_move_def)
  then obtain h where "eventHandlers s c = Some h" "region h = r"
    by (auto simp: registration_def)
  with assms(1) show ?thesis
    by (auto simp: handlers_by_region_def)
qed

subsection \<open>Events that take the default case\<close>

lemma same_event_refl [simp]: "same_event p p"
  by (simp add: same_event_def)

lemma pointer_for_region_same_event:
  "same_event p p' \<Longrightarrow> pointer_for_region env r p' = pointer_for_region env r p"
  by (cases p; cases p')
     (simp add: same_event_def pointer_for_region_def Let_def split: option.splits prod.splits)

lemma same_event_pointer_for_region:
  "same_event p p' \<Longrightarrow> same_event p (pointer_for_region env r p')"
  by (cases p; cases p')
     (simp add: same_event_def pointer_for_region_def Let_def split: option.splits prod.splits)

lemma same_event_trans: "same_event p p' \<Longrightarrow> same_event p' p'' \<Longrightarrow> same_event p p''"
  by (cases p; cases p'; cases p'') (simp add: same_event_def)

lemma down_not_other:
  "t \<in> set POINTER_DOWN \<union> set WHEEL \<Longrightarrow>
   t \<notin> set POINTER_MOVE \<and> t \<notin> set POINTER_UP \<and> t \<notin> set POINTER_CANCEL"
  by (auto simp: POINTER_DOWN_def WHEEL_def POINTER_MOVE_def POINTER_UP_def POINTER_CANCEL_def)

lemma switch_type_down:
  assumes "ptr_type p = Some t" "t \<in> set POINTER_DOWN \<union> set WHEEL"
  shows "switch_type env act handled h p inB out =
     (if inB then
        (handled \<or> \<not> quiet env (triggered env h (Some t) p),
         (if map_of (callbacks h) t = None then h else h\<lparr>pointerId := ptr_pointerId p\<rparr>),
         out @ triggered env h (Some t) p)
      else (handled, h, out))"
  using assms(1) down_not_other [OF assms(2)]
  by (simp add: switch_type_def triggerEvent_eq property_key_def)

lemma candidate_callbacks_cong:
  assumes "same_table s s'" "same_event p p'"
  shows "candidate_callbacks env s' t p' c = candidate_callbacks env s t p c"
proof -
  from assms(1) have r: "registration s' c = registration s c"
    by (simp add: same_table_def)
  show ?thesis
  proof (cases "eventHandlers s c")
    case None
    with r have "eventHandlers s' c = None" by (simp add: registration_def)
    with None show ?thesis by (simp add: candidate_callbacks_def)
  next
    case (Some h)
    with r obtain h' where h': "eventHandlers s' c = Some h'" "region h' = region h"
      "callbacks h' = callbacks h"
      by (auto simp: registration_def)
    with Some show ?thesis
      by (simp add: candidate_callbacks_def pointer_for_region_same_event [OF assms(2)]
            triggered_cong [OF h'(2,3)] Let_def)
  qed
qed

lemma dispatch_candidate_down:
  assumes "ptr_type p = Some t" "t \<in> set POINTER_DOWN \<union> set WHEEL"
    and "dispatch_candidate env c (handled, p, s) = (handled', p', s')"
  shows "emitted s' = emitted s @ candidate_callbacks env s t p c
         \<and> handled' = (handled \<or> \<not> quiet env (candidate_callbacks env s t p c))
         \<and> same_event p p' \<and> ptr_type p' = Some t"
proof (cases "eventHandlers s c")
  case None
  with assms(1,3) show ?thesis by (simp add: dispatch_candidate_def candidate_callbacks_def)
next
  case (Some h)
  show ?thesis
  proof (cases "region_isKinematic env c")
    case True
    with assms(1,3) Some show ?thesis by (simp add: dispatch_candidate_def candidate_callbacks_def)
  next
    case False
    let ?p = "pointer_for_region env (region h) p"
    have ty: "ptr_type ?p = Some t"
      using assms(1) by (simp add: pointer_for_region_def Let_def split: option.splits prod.splits)
    have se: "same_event p ?p"
      by (rule same_event_pointer_for_region) simp
    let ?inB = "region_contains env (region h) (gameX ?p) (gameY ?p)"
    let ?new = "if ?inB then triggered env h (Some t) ?p else []"
    have cc: "candidate_callbacks env s t p c = ?new"
      using Some False by (simp add: candidate_callbacks_def Let_def)
    from assms(3) Some False
    have "handled' = (handled \<or> \<not> quiet env ?new)" "p' = ?p" "emitted s' = emitted s @ ?new"
      by (auto simp: dispatch_candidate_def Let_def switch_type_down [OF ty assms(2)]
            split: if_splits)
    with se ty cc show ?thesis by simp
  qed
qed

lemma dispatch_candidates_down:
  assumes "t \<in> set POINTER_DOWN \<union> set WHEEL"
    and "dispatch_candidates env cs (handled, p, s) = (handled', p', s')"
    and "ptr_type p = Some t" "same_table s0 s" "same_event p0 p"
  shows "emitted s' = emitted s @ dispatched env s0 t p0 handled cs"
  using assms(2-)
proof (induction cs arbitrary: handled p s)
  case Nil
  then show ?case by simp
next
  case (Cons c cs)
  obtain hd1 p1 s1 where d1: "dispatch_candidate env c (handled, p, s) = (hd1, p1, s1)"
    by (cases "dispatch_candidate env c (handled, p, s)") auto
  have cc: "candidate_callbacks env s t p c = candidate_callbacks env s0 t p0 c"
    using Cons.prems(3,4) by (rule candidate_callbacks_cong)
  from dispatch_candidate_down [OF Cons.prems(2) assms(1) d1]
  have r1: "emitted s1 = emitted s @ candidate_callbacks env s0 t p0 c"
    "hd1 = (handled \<or> \<not> quiet env (candidate_callbacks env s0 t p0 c))"
    "same_event p p1" "ptr_type p1 = Some t"
    by (simp_all add: cc)
  from dispatch_candidate_general [OF d1] have sf: "same_frame s s1" by blast
  show ?case
  proof (cases hd1)
    case True
    with Cons.prems(1) d1 have "s' = s1" by simp
    with r1 True show ?thesis by auto
  next
    case False
    with Cons.prems(1) d1 have "dispatch_candidates env cs (False, p1, s1) = (handled', p', s')"
      by simp
    from Cons.IH [OF this r1(4) same_table_trans [OF Cons.prems(3) same_frame_table [OF sf]]
        same_event_trans [OF Cons.prems(4) r1(3)]]
    have "emitted s' = emitted s1 @ dispatched env s0 t p0 False cs" .
    with r1 False show ?thesis by auto
  qed
qed

lemma candidate_callbacks_stops: "stops_at_false env (candidate_callbacks env s t p c)"
  by (simp add: candidate_callbacks_def Let_def triggered_stops split: option.splits)

lemma dispatched_stops: "stops_at_false env (dispatched env s t p handled cs)"
proof (induction cs arbitrary: handled)
  case Nil
  then show ?case by simp
next
  case (Cons c cs)
  show ?case
  proof (cases "handled \<or> \<not> quiet env (candidate_callbacks env s t p c)")
    case True
    then show ?thesis by (simp add: candidate_callbacks_stops)
  next
    case False
    then have "quiet env (candidate_callbacks env s t p c)" by simp
    from stops_at_false_append [OF this Cons.IH [of False]] False show ?thesis by simp
  qed
qed

lemma dispatched_targets:
  "e \<in> set (dispatched env s t p handled cs) \<Longrightarrow>
   \<exists>c\<in>set cs. e \<in> set (candidate_callbacks env s t p c)"
  by (induction cs arbitrary: handled) (auto split: if_splits)

lemma candidate_callbacks_in_bounds:
  assumes "e \<in> set (candidate_callbacks env s t p c)"
  shows "\<exists>h cb cbs q. eventHandlers s c = Some h \<and> \<not> region_isKinematic env c
           \<and> map_of (callbacks h) t = Some cbs \<and> cb \<in> set cbs
           \<and> e = Callback_invoked (region h) cb q
           \<and> region_contains env (region h) (gameX q) (gameY q)"
proof (cases "eventHandlers s c")
  case None
  with assms show ?thesis by (simp add: candidate_callbacks_def)
next
  case (Some h)
  let ?q = "pointer_for_region env (region h) p"
  from assms Some have k: "\<not> region_isKinematic env c"
    and b: "region_contains env (region h) (gameX ?q) (gameY ?q)"
    and e: "e \<in> set (triggered env h (Some t) ?q)"
    by (auto simp: candidate_callbacks_def Let_def split: if_splits)
  from triggered_subset [OF e] obtain cbs cb where
    "map_of (callbacks h) t = Some cbs" "cb \<in> set cbs" "e = Callback_invoked (region h) cb ?q"
    by (auto simp: property_key_def)
  with Some k b show ?thesis by blast
qed

lemma dispatch_pointer_down:
  assumes "ptr_type pointer = Some t" "t \<in> set POINTER_DOWN \<union> set WHEEL" "\<not> stale pointer s"
  shows "emitted (snd (dispatch_pointer env pointer (handled, s))) =
           emitted s @ dispatched env s t pointer handled (rev (candidates_of env pointer))"
proof -
  let ?s1 = "if isNormalized pointer \<and> timeStamp pointer \<noteq> None
             then s\<lparr>lastTimeStamp := the (timeStamp pointer)\<rparr> else s"
  let ?s2 = "?s1\<lparr>currentPointer :=
                Some (Rect (gameWorldX pointer) (gameWorldY pointer)
                        (ptr_width pointer) (ptr_height pointer))\<rparr>"
  obtain hd4 p4 s4 where d:
    "dispatch_candidates env (rev (candidates_of env pointer)) (handled, pointer, ?s2) = (hd4, p4, s4)"
    by (cases "dispatch_candidates env (rev (candidates_of env pointer)) (handled, pointer, ?s2)") auto
  have nm: "t \<notin> set POINTER_MOVE"
    using down_not_other [OF assms(2)] by simp
  have st: "same_table s ?s2"
    by (simp add: same_table_def registration_def)
  have e2: "emitted ?s2 = emitted s"
    by simp
  from dispatch_candidates_down [OF assms(2) d assms(1) st same_event_refl]
  have "emitted s4 = emitted s @ dispatched env s t pointer handled (rev (candidates_of env pointer))"
    by (simp only: e2)
  moreover have "dispatch_pointer env pointer (handled, s) = (hd4, s4\<lparr>T_POINTERS := T_POINTERS s4 @ [p4]\<rparr>)"
    using assms(1,3) nm d by (auto simp: dispatch_pointer_def stale_def Let_def)
  ultimately show ?thesis by simp
qed

subsection \<open>The table of handlers\<close>

lemma keys_add_callback:
  "fst ` set (callbacks (add_callback cb h t)) = insert t (fst ` set (callbacks h))"
  by (simp add: add_callback_def AList.dom_update split: option.splits)

lemma region_add_callback: "region (add_callback cb h t) = region h"
  by (simp add: add_callback_def split: option.splits)

lemma keys_foldl_add_callback:
  "fst ` set (callbacks (foldl (add_callback cb) h ts)) = set ts \<union> fst ` set (callbacks h)"
  by (induction ts arbitrary: h) (auto simp: keys_add_callback)

lemma region_foldl_add_callback: "region (foldl (add_callback cb) h ts) = region h"
  by (induction ts arbitrary: h) (simp_all add: region_add_callback)

lemma keys_delete: "fst ` set (AList.delete k al) = fst ` set al - {k}"
  by (induction al) auto

lemma keys_release_all:
  "fst ` set (callbacks (release_callbacks env None h t)) = fst ` set (callbacks h) - {t}"
proof (cases "map_of (callbacks h) t")
  case None
  then have "t \<notin> fst ` set (callbacks h)"
    by (simp add: map_of_eq_None_iff)
  with None show ?thesis by (simp add: release_callbacks_def)
next
  case (Some cbs)
  then show ?thesis by (simp add: release_callbacks_def keys_delete)
qed

lemma keys_foldl_release_all:
  "fst ` set (callbacks (foldl (release_callbacks env None) h ts)) = fst ` set (callbacks h) - set ts"
  by (induction ts arbitrary: h) (auto simp: keys_release_all)

lemma region_release_callbacks: "region (release_callbacks env c h t) = region h"
  by (simp add: release_callbacks_def Let_def split: option.splits)

lemma region_foldl_release_callbacks: "region (foldl (release_callbacks env c) h ts) = region h"
  by (induction ts arbitrary: h) (simp_all add: region_release_callbacks)

lemma register_ok:
  assumes "eventType \<in> set pointerEventList"
  shows "registerPointerEvent env eventType (Some r) cb s =
     (None, (enablePointerEvent env s)\<lparr>eventHandlers :=
        (eventHandlers (enablePointerEvent env s))(r \<mapsto>
           foldl (add_callback cb)
             (case eventHandlers (enablePointerEvent env s) r of
                None \<Rightarrow> \<lparr>region = r, callbacks = [], pointerId = Id_null\<rparr> | Some h \<Rightarrow> h)
             (findAllActiveEvents (activeEventList (enablePointerEvent env s))
                (case pointerEventMap eventType of None \<Rightarrow> [] | Some l \<Rightarrow> l)))\<rparr>)"
  using assms by (simp add: registerPointerEvent_def Let_def)

lemma eventHandlers_enable [simp]:
  "eventHandlers (enablePointerEvent env s) = eventHandlers s"
  by (simp add: enablePointerEvent_def)

lemma enable_idem [simp]:
  "pointerInitialized (enablePointerEvent env s)"
  by (simp add: enablePointerEvent_def)

lemma register_release_roundtrip:
  assumes "eventType \<in> set pointerEventList" "eventHandlers s r = None"
  shows "releasePointerEvent env eventType (Some r) None
           (snd (registerPointerEvent env eventType (Some r) cb s))
         = (None, enablePointerEvent env s)"
proof -
  let ?s0 = "enablePointerEvent env s"
  let ?ts = "findAllActiveEvents (activeEventList ?s0)
                (case pointerEventMap eventType of None \<Rightarrow> [] | Some l \<Rightarrow> l)"
  let ?h = "foldl (add_callback cb) \<lparr>region = r, callbacks = [], pointerId = Id_null\<rparr> ?ts"
  let ?s1 = "?s0\<lparr>eventHandlers := (eventHandlers ?s0)(r \<mapsto> ?h)\<rparr>"
  have s1: "snd (registerPointerEvent env eventType (Some r) cb s) = ?s1"
    using assms by (simp add: register_ok)
  have k: "fst ` set (callbacks (foldl (release_callbacks env None) ?h ?ts)) = {}"
    by (simp add: keys_foldl_release_all keys_foldl_add_callback)
  then have e: "callbacks (foldl (release_callbacks env None) ?h ?ts) = []"
    by simp
  have "releasePointerEvent env eventType (Some r) None ?s1
      = (None, ?s1\<lparr>eventHandlers := (eventHandlers ?s1)(r := None)\<rparr>)"
    using assms(1) e by (simp add: releasePointerEvent_def Let_def)
  moreover have "?s1\<lparr>eventHandlers := (eventHandlers ?s1)(r := None)\<rparr> = ?s0"
    using assms(2) by (simp add: fun_upd_idem)
  ultimately show ?thesis
    by (simp only: s1)
qed

lemma handlers_by_region_initial: "handlers_by_region initial_Input"
  by (simp add: handlers_by_region_def initial_Input_def)

lemma handlers_by_region_register:
  "handlers_by_region s \<Longrightarrow>
   handlers_by_region (snd (registerPointerEvent env eventType region_arg cb s))"
  by (auto simp: handlers_by_region_def registerPointerEvent_def Let_def region_foldl_add_callback
           split: option.splits)

lemma handlers_by_region_release:
  "handlers_by_region s \<Longrightarrow>
   handlers_by_region (snd (releasePointerEvent env eventType region_arg c s))"
  by (auto simp: handlers_by_region_def releasePointerEvent_def Let_def
        region_foldl_release_callbacks split: option.splits)

subsection \<open>The small table, run\<close>

lemmas input_demo_defs = demo_table_def demo_enabled_def demo_handlers_def demo_input_env_def
  demo_pointer_def initial_Input_def enablePointerEvent_def

lemma demo_table_registered:
  "snd (registerPointerEvent demo_input_env ''pointerdown'' (Some 1) 7
     (snd (registerPointerEvent demo_input_env ''pointerdown'' (Some 1) 5
        (snd (registerPointerEvent demo_input_env ''pointerdown'' (Some 0) 5 initial_Input)))))
   = demo_table"
  by (simp add: registerPointerEvent_def input_demo_defs pointerEventList_def pointerEventMap_def
        POINTER_DOWN_def findAllActiveEvents_def add_callback_def Let_def fun_upd_twist)

lemma demo_dispatched:
  "dispatched demo_input_env demo_table ''pointerdown'' (demo_pointer ''pointerdown'' False 5) False
     [0, 2, 1] =
   [Callback_invoked 0 5 (pointer_for_region demo_input_env 0 (demo_pointer ''pointerdown'' False 5)),
    Callback_invoked 1 7 (pointer_for_region demo_input_env 1 (demo_pointer ''pointerdown'' False 5))]"
  by (simp add: candidate_callbacks_def triggered_def property_key_def answered_false_def
        pointer_for_region_def Let_def input_demo_defs)

lemma demo_candidates:
  "rev (broadphase_retrieve demo_input_env
          (Rect (gameWorldX (demo_pointer ''pointerdown'' False 5))
             (gameWorldY (demo_pointer ''pointerdown'' False 5))
             (ptr_width (demo_pointer ''pointerdown'' False 5))
             (ptr_height (demo_pointer ''pointerdown'' False 5)))
          World_sortReverseZ
        @ [game_viewport demo_input_env]) = [0, 2, 1]"
  by (simp add: demo_input_env_def)

lemma demo_dispatch:
  "emitted (snd (dispatch_pointer demo_input_env (demo_pointer ''pointerdown'' False 5)
                   (False, demo_table))) =
   [Callback_invoked 0 5 (pointer_for_region demo_input_env 0 (demo_pointer ''pointerdown'' False 5)),
    Callback_invoked 1 7 (pointer_for_region demo_input_env 1 (demo_pointer ''pointerdown'' False 5))]"
proof -
  have t: "ptr_type (demo_pointer ''pointerdown'' False 5) = Some ''pointerdown''"
    by (simp add: demo_pointer_def)
  have d: "''pointerdown'' \<in> set POINTER_DOWN \<union> set WHEEL"
    by (simp add: POINTER_DOWN_def)
  have n: "\<not> stale (demo_pointer ''pointerdown'' False 5) demo_table"
    by (simp add: stale_def demo_pointer_def)
  have e: "emitted demo_table = []"
    by (simp add: input_demo_defs)
  show ?thesis
    using dispatch_pointer_down [OF t d n, of demo_input_env False]
    unfolding candidates_of_def demo_candidates demo_dispatched e
    by simp
qed

subsection \<open>Dispatch of pointerdown and wheel\<close>

text \<open>
  C8, as amended. For a pointerdown or wheel event that is dispatched, the candidates are
  the regions that the quadtree's \<open>retrieve\<close> answers for the rectangle of the pointer,
  called with the world's comparator \<open>_sortReverseZ\<close>, followed by the main viewport,
  and they are taken from the last, the viewport, to the first. A callback is invoked
  only for a candidate that has an entry in the table and is not kinematic, only if it is
  registered for the type of the event, and only if the bounds of the region contain the
  game coordinates that the pointer carries when the callback receives it. A callback
  that answers \<open>false\<close> is the last one invoked for the event.
\<close>

theorem pointerdown_callbacks_in_bounds_and_stop:
  assumes "ptr_type pointer = Some t" and "t \<in> set POINTER_DOWN \<union> set WHEEL"
  shows "emitted (snd (dispatch_pointer env pointer (handled, s))) =
           emitted s @
           (if stale pointer s then []
            else dispatched env s t pointer handled
                   (rev (broadphase_retrieve env
                           (Rect (gameWorldX pointer) (gameWorldY pointer)
                              (ptr_width pointer) (ptr_height pointer))
                           World_sortReverseZ
                         @ [game_viewport env])))
         \<and> (\<forall>e\<in>set (emitted_by s (snd (dispatch_pointer env pointer (handled, s)))).
               \<exists>c h cb cbs q.
                 (c \<in> set (broadphase_retrieve env
                             (Rect (gameWorldX pointer) (gameWorldY pointer)
                                (ptr_width pointer) (ptr_height pointer))
                             World_sortReverseZ)
                  \<or> c = game_viewport env)
                 \<and> eventHandlers s c = Some h \<and> \<not> region_isKinematic env c
                 \<and> map_of (callbacks h) t = Some cbs \<and> cb \<in> set cbs
                 \<and> e = Callback_invoked (region h) cb q
                 \<and> region_contains env (region h) (gameX q) (gameY q))
         \<and> stops_at_false env (emitted_by s (snd (dispatch_pointer env pointer (handled, s))))"
proof (cases "stale pointer s")
  case True
  then show ?thesis
    by (simp add: dispatch_pointer_stale emitted_by_def)
next
  case False
  let ?cs = "rev (candidates_of env pointer)"
  have em: "emitted (snd (dispatch_pointer env pointer (handled, s))) =
      emitted s @ dispatched env s t pointer handled ?cs"
    using assms False by (rule dispatch_pointer_down)
  then have eb: "emitted_by s (snd (dispatch_pointer env pointer (handled, s))) =
      dispatched env s t pointer handled ?cs"
    by (simp add: emitted_by_def)
  have tg: "\<exists>c h cb cbs q.
        (c \<in> set (broadphase_retrieve env
                    (Rect (gameWorldX pointer) (gameWorldY pointer)
                       (ptr_width pointer) (ptr_height pointer)) World_sortReverseZ)
         \<or> c = game_viewport env)
        \<and> eventHandlers s c = Some h \<and> \<not> region_isKinematic env c
        \<and> map_of (callbacks h) t = Some cbs \<and> cb \<in> set cbs
        \<and> e = Callback_invoked (region h) cb q
        \<and> region_contains env (region h) (gameX q) (gameY q)"
    if "e \<in> set (dispatched env s t pointer handled ?cs)" for e
  proof -
    from dispatched_targets [OF that] obtain c where c: "c \<in> set ?cs"
      "e \<in> set (candidate_callbacks env s t pointer c)" by blast
    from c(1) have "c \<in> set (broadphase_retrieve env
                    (Rect (gameWorldX pointer) (gameWorldY pointer)
                       (ptr_width pointer) (ptr_height pointer)) World_sortReverseZ)
         \<or> c = game_viewport env"
      by (auto simp: candidates_of_def)
    with candidate_callbacks_in_bounds [OF c(2)] show ?thesis by blast
  qed
  show ?thesis
    unfolding eb using em False tg dispatched_stops [of env s t pointer handled ?cs]
    by (simp add: candidates_of_def)
qed

theorem pointerdown_callbacks_in_bounds_and_stop_witness:
  "ptr_type (demo_pointer ''pointerdown'' False 5) = Some ''pointerdown''
   \<and> ''pointerdown'' \<in> set POINTER_DOWN \<union> set WHEEL
   \<and> emitted (snd (dispatch_pointer demo_input_env (demo_pointer ''pointerdown'' False 5)
                     (False, demo_table))) =
       [Callback_invoked 0 5
          (pointer_for_region demo_input_env 0 (demo_pointer ''pointerdown'' False 5)),
        Callback_invoked 1 7
          (pointer_for_region demo_input_env 1 (demo_pointer ''pointerdown'' False 5))]
   \<and> stops_at_false demo_input_env
        (emitted_by demo_table
           (snd (dispatch_pointer demo_input_env (demo_pointer ''pointerdown'' False 5)
                   (False, demo_table))))"
proof -
  have t: "ptr_type (demo_pointer ''pointerdown'' False 5) = Some ''pointerdown''"
    by (simp add: demo_pointer_def)
  have d: "''pointerdown'' \<in> set POINTER_DOWN \<union> set WHEEL"
    by (simp add: POINTER_DOWN_def)
  have n: "\<not> stale (demo_pointer ''pointerdown'' False 5) demo_table"
    by (simp add: stale_def demo_pointer_def)
  have e: "emitted demo_table = []"
    by (simp add: input_demo_defs)
  note T = pointerdown_callbacks_in_bounds_and_stop [OF t d, of demo_input_env False demo_table]
  from T have "emitted (snd (dispatch_pointer demo_input_env (demo_pointer ''pointerdown'' False 5)
                     (False, demo_table))) =
        [] @ (if False then []
              else dispatched demo_input_env demo_table ''pointerdown''
                     (demo_pointer ''pointerdown'' False 5) False [0, 2, 1])"
    unfolding demo_candidates e using n by (simp only: if_False)
  then have A: "emitted (snd (dispatch_pointer demo_input_env (demo_pointer ''pointerdown'' False 5)
                     (False, demo_table))) =
       [Callback_invoked 0 5
          (pointer_for_region demo_input_env 0 (demo_pointer ''pointerdown'' False 5)),
        Callback_invoked 1 7
          (pointer_for_region demo_input_env 1 (demo_pointer ''pointerdown'' False 5))]"
    unfolding demo_dispatched by (simp only: if_False append_Nil)
  from T have B: "stops_at_false demo_input_env
        (emitted_by demo_table
           (snd (dispatch_pointer demo_input_env (demo_pointer ''pointerdown'' False 5)
                   (False, demo_table))))"
    by blast
  from t d A B show ?thesis
    by blast
qed

text \<open>
  The claim as it was stated, that the candidates are taken from the quadtree's
  \<open>retrieve\<close>, fails for the viewport: its callback is invoked although \<open>retrieve\<close>
  does not answer it.
\<close>

theorem viewport_is_a_candidate_counterexample:
  "Callback_invoked 0 5 (pointer_for_region demo_input_env 0 (demo_pointer ''pointerdown'' False 5))
     \<in> set (emitted (snd (dispatch_pointer demo_input_env (demo_pointer ''pointerdown'' False 5)
                             (False, demo_table))))
   \<and> 0 \<notin> set (broadphase_retrieve demo_input_env
                 (Rect (gameWorldX (demo_pointer ''pointerdown'' False 5))
                    (gameWorldY (demo_pointer ''pointerdown'' False 5))
                    (ptr_width (demo_pointer ''pointerdown'' False 5))
                    (ptr_height (demo_pointer ''pointerdown'' False 5)))
                 World_sortReverseZ)"
  by (simp add: demo_dispatch) (simp add: demo_input_env_def)

subsection \<open>Events that arrive late\<close>

text \<open>
  What the test of lines 274 to 279 does with a pointer whose flag \<open>isNormalized\<close> is
  set: if its time stamp is less than \<open>lastTimeStamp\<close> the pointer goes back into the
  pool and nothing else changes, so no callback is invoked, no pointer move is emitted and
  \<open>handled\<close> stays as it was; otherwise its time stamp becomes \<open>lastTimeStamp\<close>.
  A pointer whose flag is not set is never skipped and leaves \<open>lastTimeStamp\<close> as it is.
\<close>

lemma flagged_stale_pointer_is_skipped:
  "(stale pointer s \<longrightarrow>
      dispatch_pointer env pointer (handled, s)
        = (handled, s\<lparr>T_POINTERS := T_POINTERS s @ [pointer]\<rparr>))
   \<and> (isNormalized pointer \<and> timeStamp pointer = Some t \<and> t < lastTimeStamp s
        \<longrightarrow> stale pointer s)
   \<and> (isNormalized pointer \<and> timeStamp pointer = Some t \<and> \<not> t < lastTimeStamp s
        \<longrightarrow> lastTimeStamp (snd (dispatch_pointer env pointer (handled, s))) = t)
   \<and> (\<not> (isNormalized pointer \<and> timeStamp pointer \<noteq> None)
        \<longrightarrow> \<not> stale pointer s
          \<and> lastTimeStamp (snd (dispatch_pointer env pointer (handled, s))) = lastTimeStamp s)"
proof (intro conjI impI)
  assume "stale pointer s"
  then show "dispatch_pointer env pointer (handled, s)
        = (handled, s\<lparr>T_POINTERS := T_POINTERS s @ [pointer]\<rparr>)"
    by (rule dispatch_pointer_stale)
next
  assume "isNormalized pointer \<and> timeStamp pointer = Some t \<and> t < lastTimeStamp s"
  then show "stale pointer s"
    by (simp add: stale_def)
next
  obtain handled' s' where d: "dispatch_pointer env pointer (handled, s) = (handled', s')"
    by (cases "dispatch_pointer env pointer (handled, s)") auto
  from dispatch_pointer_general [OF d]
  have l: "lastTimeStamp s' =
               (if isNormalized pointer \<and> timeStamp pointer \<noteq> None \<and> \<not> stale pointer s
                then the (timeStamp pointer) else lastTimeStamp s)"
    by blast
  {
    assume "isNormalized pointer \<and> timeStamp pointer = Some t \<and> \<not> t < lastTimeStamp s"
    then show "lastTimeStamp (snd (dispatch_pointer env pointer (handled, s))) = t"
      using l by (simp add: d stale_def)
  next
    assume n: "\<not> (isNormalized pointer \<and> timeStamp pointer \<noteq> None)"
    then show "\<not> stale pointer s"
      by (auto simp: stale_def)
    from n show "lastTimeStamp (snd (dispatch_pointer env pointer (handled, s))) = lastTimeStamp s"
      using l by (auto simp: d)
  }
qed

text \<open>
  The flag is set only in a browser that has the class \<open>PointerEvent\<close>, for an event
  that is not an instance of it. In a browser without the class no pointer that
  \<open>setEvent\<close> has filled is skipped, whatever its time stamp.
\<close>

lemma setEvent_isNormalized:
  "isNormalized (setEvent br e x y pid p)
     \<longleftrightarrow> global_PointerEvent br \<and> \<not> ev_instanceof_PointerEvent e"
  by (simp add: setEvent_def Let_def split: prod.splits)

lemma setEvent_never_stale:
  "\<not> global_PointerEvent br \<Longrightarrow> \<not> stale (setEvent br e x y pid p) s"
  by (simp add: stale_def setEvent_isNormalized)

lemma demo_mouse_table_eq:
  "demo_mouse_table =
     \<lparr>T_POINTERS = [new_Pointer],
      eventHandlers = [1 \<mapsto> \<lparr>region = 1, callbacks = [(''mousedown'', [5])], pointerId = Id_null\<rparr>],
      currentPointer = Some (Rect 0 0 1 1), pointerInitialized = True, lastTimeStamp = 0,
      activeEventList = mouseEventList, emitted = []\<rparr>"
  by (simp add: demo_mouse_table_def registerPointerEvent_def demo_mouse_env_def demo_input_env_def
     enablePointerEvent_def initial_Input_def pointerEventList_def mouseEventList_def Let_def
     findAllActiveEvents_def pointerEventMap_def POINTER_DOWN_def add_callback_def)

lemma demo_setEvent:
  "setEvent demo_old_browser (demo_mousedown stamp) 10 10 None p
     = p\<lparr>ptr_type := Some ''mousedown'', isNormalized := False, timeStamp := Some stamp,
         ptr_pointerId := Id 1, gameScreenX := 10, gameScreenY := 10, gameWorldX := 10,
         gameWorldY := 10, ptr_width := 1, ptr_height := 1\<rparr>"
  by (simp add: setEvent_def demo_old_browser_def demo_mousedown_def or_one_def)

lemma demo_mouse_dispatch:
  assumes "eventHandlers s = [1 \<mapsto> \<lparr>region = 1, callbacks = [(''mousedown'', [5])], pointerId = pid\<rparr>]"
    and "activeEventList s = mouseEventList"
    and "ptr_type p = Some ''mousedown''" "\<not> isNormalized p" "gameWorldX p = 10" "gameWorldY p = 10"
    and "ptr_pointerId p = Id 1"
  shows "dispatchEvent demo_mouse_env [p] s =
     (False,
      s\<lparr>currentPointer := Some (Rect 10 10 (ptr_width p) (ptr_height p)),
        eventHandlers := [1 \<mapsto> \<lparr>region = 1, callbacks = [(''mousedown'', [5])], pointerId = Id 1\<rparr>],
        emitted := emitted s @ [Callback_invoked 1 5
           (p\<lparr>gameX := 10, gameLocalX := 10, gameY := 10, gameLocalY := 10\<rparr>)],
        T_POINTERS := T_POINTERS s @ [p\<lparr>gameX := 10, gameLocalX := 10, gameY := 10, gameLocalY := 10\<rparr>]\<rparr>)"
  using assms
  by (simp add: dispatchEvent_def dispatch_pointer_def candidates_of_def demo_mouse_env_def
        demo_input_env_def dispatch_candidate_def pointer_for_region_def switch_type_def
        triggerEvent_def property_key_def POINTER_MOVE_def POINTER_UP_def POINTER_CANCEL_def
        Let_def)

text \<open>
  C9. The code does fire an event that is older than one it has already dispatched. In a
  browser without the class \<open>PointerEvent\<close> line 1143 leaves \<open>isNormalized\<close> false
  for every event, so the test of line 274, whose comment is "Do not fire older touch
  events", never applies to the events that are not pointer events: a mouse button that
  goes down over region 1 with time stamp 5 and then one with time stamp 3 both invoke the
  callback of the region, and \<open>lastTimeStamp\<close> stays 0.
\<close>

theorem older_event_is_dispatched:
  "\<exists>s2 s3.
     onPointerEvent demo_old_browser demo_mouse_env (demo_mousedown 5) demo_mouse_table
       = Some (False, s2)
     \<and> onPointerEvent demo_old_browser demo_mouse_env (demo_mousedown 3) s2 = Some (False, s3)
     \<and> emitted_by demo_mouse_table s2 = [Callback_invoked 1 5 (demo_mouse_pointer 5)]
     \<and> emitted_by s2 s3 = [Callback_invoked 1 5 (demo_mouse_pointer 3)]
     \<and> lastTimeStamp s2 = 0 \<and> lastTimeStamp s3 = 0
     \<and> \<not> ev_instanceof_PointerEvent (demo_mousedown 3)
     \<and> \<not> isNormalized (demo_mouse_pointer 3)
     \<and> timeStamp (demo_mouse_pointer 5) = Some 5 \<and> timeStamp (demo_mouse_pointer 3) = Some 3"
proof -
  let ?h = "[1 \<mapsto> \<lparr>region = 1, callbacks = [(''mousedown'', [5::nat])], pointerId = Id 1\<rparr>]"
  define s2 where "s2 =
     \<lparr>T_POINTERS = [demo_mouse_pointer 5], eventHandlers = ?h,
      currentPointer = Some (Rect 10 10 1 1), pointerInitialized = True, lastTimeStamp = 0,
      activeEventList = mouseEventList,
      emitted = [Callback_invoked 1 5 (demo_mouse_pointer 5)]\<rparr>"
  define s3 where "s3 =
     \<lparr>T_POINTERS = [demo_mouse_pointer 3], eventHandlers = ?h,
      currentPointer = Some (Rect 10 10 1 1), pointerInitialized = True, lastTimeStamp = 0,
      activeEventList = mouseEventList,
      emitted = [Callback_invoked 1 5 (demo_mouse_pointer 5),
                 Callback_invoked 1 5 (demo_mouse_pointer 3)]\<rparr>"
  have e: "ev_pageX (demo_mousedown t) = 10" "ev_pageY (demo_mousedown t) = 10"
    "ev_pointerId (demo_mousedown t) = None" for t
    by (simp_all add: demo_mousedown_def)
  have 1: "onPointerEvent demo_old_browser demo_mouse_env (demo_mousedown 5) demo_mouse_table
             = Some (False, s2)"
    unfolding onPointerEvent_def demo_mouse_table_eq e
    by (simp add: demo_setEvent demo_mouse_dispatch new_Pointer_def s2_def demo_mouse_pointer_def)
  have 2: "onPointerEvent demo_old_browser demo_mouse_env (demo_mousedown 3) s2 = Some (False, s3)"
    unfolding onPointerEvent_def e
    by (simp add: s2_def demo_setEvent demo_mouse_dispatch s3_def demo_mouse_pointer_def)
  have 3: "emitted_by demo_mouse_table s2 = [Callback_invoked 1 5 (demo_mouse_pointer 5)]"
    "emitted_by s2 s3 = [Callback_invoked 1 5 (demo_mouse_pointer 3)]"
    "lastTimeStamp s2 = 0" "lastTimeStamp s3 = 0"
    by (simp_all add: emitted_by_def demo_mouse_table_eq s2_def s3_def)
  have 4: "\<not> ev_instanceof_PointerEvent (demo_mousedown 3)" "\<not> isNormalized (demo_mouse_pointer 3)"
    "timeStamp (demo_mouse_pointer 5) = Some 5" "timeStamp (demo_mouse_pointer 3) = Some 3"
    by (simp_all add: demo_mousedown_def demo_mouse_pointer_def)
  from 1 2 3 4 show ?thesis
    by blast
qed

subsection \<open>Registering and releasing\<close>

text \<open>
  C10. Registering a callback for a supported event type on a region that has no entry
  in the table gives the region an entry, and releasing the event type on that region
  then removes the entry: the table is as before, and all that remains of the two calls
  is that the pointer events are enabled. A region without an entry gets no callback
  from any later dispatch. \<open>registerPointerEvent\<close> throws when the event type is not in
  \<open>pointerEventList\<close> or the region is \<open>undefined\<close>, after enabling the pointer
  events.
\<close>

theorem register_then_release_removes_region:
  "(eventType \<in> set pointerEventList \<and> eventHandlers s r = None \<longrightarrow>
      fst (registerPointerEvent env eventType (Some r) cb s) = None
      \<and> eventHandlers (snd (registerPointerEvent env eventType (Some r) cb s)) r \<noteq> None
      \<and> releasePointerEvent env eventType (Some r) None
          (snd (registerPointerEvent env eventType (Some r) cb s))
        = (None, enablePointerEvent env s)
      \<and> eventHandlers (enablePointerEvent env s) = eventHandlers s)
   \<and> (handlers_by_region s \<and> eventHandlers s r = None \<longrightarrow>
        Callback_invoked r cb' q \<notin> set (emitted_by s (snd (dispatchEvent env ps s))))
   \<and> (eventType \<notin> set pointerEventList \<or> region_arg = None \<longrightarrow>
        fst (registerPointerEvent env eventType region_arg cb s) \<noteq> None
        \<and> snd (registerPointerEvent env eventType region_arg cb s) = enablePointerEvent env s)"
proof (intro conjI impI)
  assume a: "eventType \<in> set pointerEventList \<and> eventHandlers s r = None"
  then show "fst (registerPointerEvent env eventType (Some r) cb s) = None"
    and "eventHandlers (snd (registerPointerEvent env eventType (Some r) cb s)) r \<noteq> None"
    by (simp_all add: register_ok)
  from a show "releasePointerEvent env eventType (Some r) None
          (snd (registerPointerEvent env eventType (Some r) cb s))
        = (None, enablePointerEvent env s)"
    by (simp add: register_release_roundtrip)
  show "eventHandlers (enablePointerEvent env s) = eventHandlers s"
    by simp
next
  assume "handlers_by_region s \<and> eventHandlers s r = None"
  then show "Callback_invoked r cb' q \<notin> set (emitted_by s (snd (dispatchEvent env ps s)))"
    using dispatchEvent_invokes_registered [of s r cb' q env ps] by blast
next
  assume "eventType \<notin> set pointerEventList \<or> region_arg = None"
  then show "fst (registerPointerEvent env eventType region_arg cb s) \<noteq> None"
    and "snd (registerPointerEvent env eventType region_arg cb s) = enablePointerEvent env s"
    by (auto simp: registerPointerEvent_def Let_def split: option.splits)
qed

theorem register_then_release_removes_region_witness:
  "''pointerdown'' \<in> set pointerEventList \<and> eventHandlers initial_Input 1 = None
   \<and> handlers_by_region initial_Input
   \<and> releasePointerEvent demo_input_env ''pointerdown'' (Some 1) None
        (snd (registerPointerEvent demo_input_env ''pointerdown'' (Some 1) 5 initial_Input))
      = (None, demo_enabled)
   \<and> Callback_invoked 1 5 (demo_pointer ''pointerdown'' False 5)
        \<notin> set (emitted_by initial_Input
                 (snd (dispatchEvent demo_input_env [demo_pointer ''pointerdown'' False 5]
                         initial_Input)))
   \<and> ''click'' \<notin> set pointerEventList
   \<and> fst (registerPointerEvent demo_input_env ''click'' (Some 1) 5 initial_Input) \<noteq> None
   \<and> fst (registerPointerEvent demo_input_env ''pointerdown'' None 5 initial_Input) \<noteq> None"
proof -
  have a: "''pointerdown'' \<in> set pointerEventList \<and> eventHandlers initial_Input 1 = None"
    by (simp add: pointerEventList_def initial_Input_def)
  have b: "handlers_by_region initial_Input \<and> eventHandlers initial_Input 1 = None"
    using handlers_by_region_initial by (simp add: initial_Input_def)
  have c: "''click'' \<notin> set pointerEventList"
    by (simp add: pointerEventList_def)
  note T = register_then_release_removes_region
  from T [where eventType = "''pointerdown''" and s = initial_Input and r = 1
      and env = demo_input_env and cb = 5] a
  have 1: "releasePointerEvent demo_input_env ''pointerdown'' (Some 1) None
        (snd (registerPointerEvent demo_input_env ''pointerdown'' (Some 1) 5 initial_Input))
      = (None, enablePointerEvent demo_input_env initial_Input)"
    by blast
  from T [where s = initial_Input and r = 1 and env = demo_input_env and cb' = 5
      and q = "demo_pointer ''pointerdown'' False 5"
      and ps = "[demo_pointer ''pointerdown'' False 5]"] b
  have 2: "Callback_invoked 1 5 (demo_pointer ''pointerdown'' False 5)
        \<notin> set (emitted_by initial_Input
                 (snd (dispatchEvent demo_input_env [demo_pointer ''pointerdown'' False 5]
                         initial_Input)))"
    by blast
  from T [where eventType = "''click''" and s = initial_Input and env = demo_input_env
      and cb = 5 and region_arg = "Some 1"] c
  have 3: "fst (registerPointerEvent demo_input_env ''click'' (Some 1) 5 initial_Input) \<noteq> None"
    by blast
  from T [where eventType = "''pointerdown''" and s = initial_Input and env = demo_input_env
      and cb = 5 and region_arg = None]
  have 4: "fst (registerPointerEvent demo_input_env ''pointerdown'' None 5 initial_Input) \<noteq> None"
    by blast
  from a b c 1 2 3 4 show ?thesis
    by (simp add: demo_enabled_def)
qed

end
